theory Spec2Isabelle
  imports Complex_Main "HOL-Library.Multiset"
begin

section \<open>The metrics library, as far as the collectors use it\<close>

text \<open>
  The exporter is built on the Prometheus client library. Only what the collectors touch is
  modelled: a descriptor (fully qualified name, help text, ordered label names), a sample
  sent on the metrics channel, a gauge and a counter. A counter holds a natural number, and
  \<open>Inc\<close> adds one to it. A run-time panic of the Go program is a value of type \<open>panic\<close>.
\<close>

datatype ValueType = CounterValue | GaugeValue

datatype panic = IndexOutOfRange nat nat | InconsistentCardinality

subsection \<open>Arithmetic on \<open>float64\<close>\<close>

text \<open>
  A finite \<open>float64\<close> is the real number it denotes. The values the collectors compute
  with are finite: a response is decoded from JSON, which has no syntax for a NaN or an
  infinity, and the decoder rejects a number out of the range of the type. An operation
  on \<open>float64\<close> returns the exact result rounded to the nearest value of the type, a tie
  going to the value with an even significand (IEEE 754 binary64, as the Go specification
  prescribes): 53 significant bits, and a spacing of \<open>2 powi (- 1074)\<close> below the least
  normal exponent \<open>- 1022\<close>. \<open>binade n x\<close> is the exponent \<open>e\<close> of a positive \<open>x\<close>, the one
  with \<open>2 powi e \<le> x < 2 powi (e + 1)\<close>, found by at most \<open>n\<close> halvings or doublings;
  \<open>ulp x\<close> is the spacing of the type around \<open>x\<close>. The collectors divide a \<open>float64\<close> by
  1000 and convert a 64-bit integer: both results lie below the largest \<open>float64\<close>, so the
  rounding of a result beyond it to an infinity is left out.
\<close>

fun binade :: "nat \<Rightarrow> real \<Rightarrow> int" where
  "binade 0 x = 0"
| "binade (Suc n) x =
     (if 2 \<le> x then binade n (x / 2) + 1
      else if x < 1 then binade n (x * 2) - 1
      else 0)"

definition ulp :: "real \<Rightarrow> real" where
  "ulp x = 2 powi (max (binade 1100 \<bar>x\<bar>) (- 1022) - 52)"

definition roundHalfEven :: "real \<Rightarrow> int" where
  "roundHalfEven x =
     (let f = \<lfloor>x\<rfloor> in
      if x - of_int f < 1 / 2 then f
      else if 1 / 2 < x - of_int f then f + 1
      else if even f then f else f + 1)"

definition round64 :: "real \<Rightarrow> real" where
  "round64 x =
     (if x = 0 then 0 else sgn x * (of_int (roundHalfEven (\<bar>x\<bar> / ulp x)) * ulp x))"

text \<open>
  The quotient \<open>x / y\<close> of two \<open>float64\<close>, and the conversion \<open>float64(i)\<close> of an integer.
\<close>

definition float64_div :: "real \<Rightarrow> real \<Rightarrow> real" where
  "float64_div x y = round64 (x / y)"

definition float64_of_int :: "int \<Rightarrow> real" where
  "float64_of_int i = round64 (of_int i)"

subsection \<open>Descriptors, samples, gauges and counters\<close>

record Desc =
  fqName :: string
  helpText :: string
  variableLabels :: "string list"

record Metric =
  m_desc :: Desc
  m_type :: ValueType
  m_value :: real
  m_labelValues :: "string list"

record Gauge =
  gauge_desc :: Desc
  gauge_val :: real

record Counter =
  counter_desc :: Desc
  counter_val :: nat

definition namespace :: string where
  "namespace = ''typesense''"

definition BuildFQName :: "string \<Rightarrow> string \<Rightarrow> string \<Rightarrow> string" where
  "BuildFQName ns subsystem name =
     (if name = [] then []
      else if ns \<noteq> [] \<and> subsystem \<noteq> [] then ns @ ''_'' @ subsystem @ ''_'' @ name
      else if ns \<noteq> [] then ns @ ''_'' @ name
      else if subsystem \<noteq> [] then subsystem @ ''_'' @ name
      else name)"

definition NewDesc :: "string \<Rightarrow> string \<Rightarrow> string list \<Rightarrow> Desc" where
  "NewDesc n h ls = \<lparr>fqName = n, helpText = h, variableLabels = ls\<rparr>"

definition NewGauge :: "string \<Rightarrow> string \<Rightarrow> Gauge" where
  "NewGauge n h = \<lparr>gauge_desc = NewDesc n h [], gauge_val = 0\<rparr>"

definition NewCounter :: "string \<Rightarrow> string \<Rightarrow> Counter" where
  "NewCounter n h = \<lparr>counter_desc = NewDesc n h [], counter_val = 0\<rparr>"

definition Gauge_Set :: "Gauge \<Rightarrow> real \<Rightarrow> Gauge" where
  "Gauge_Set g v = g\<lparr>gauge_val := v\<rparr>"

definition Counter_Inc :: "Counter \<Rightarrow> Counter" where
  "Counter_Inc c = c\<lparr>counter_val := counter_val c + 1\<rparr>"

text \<open>
  \<open>MustNewConstMetric\<close> panics when the number of label values differs from the number of
  label names of the descriptor. (It also rejects label values that are not valid UTF-8;
  the URL and the keys of a decoded JSON object are, so that check is left out.)
\<close>

definition MustNewConstMetric :: "Desc \<Rightarrow> ValueType \<Rightarrow> real \<Rightarrow>
    string list \<Rightarrow> panic + Metric" where
  "MustNewConstMetric d t v lvs =
     (if length lvs = length (variableLabels d)
      then Inr \<lparr>m_desc = d, m_type = t, m_value = v, m_labelValues = lvs\<rparr>
      else Inl InconsistentCardinality)"

text \<open>Sending a gauge or a counter itself on the channel exposes its current value, unlabelled.\<close>

definition gaugeMetric :: "Gauge \<Rightarrow> Metric" where
  "gaugeMetric g =
     \<lparr>m_desc = gauge_desc g, m_type = GaugeValue, m_value = gauge_val g, m_labelValues = []\<rparr>"

definition counterMetric :: "Counter \<Rightarrow> Metric" where
  "counterMetric c =
     \<lparr>m_desc = counter_desc c, m_type = CounterValue, m_value = real (counter_val c),
      m_labelValues = []\<rparr>"

section \<open>The upstream, as a collector sees it\<close>

text \<open>
  One scrape performs one \<open>client.Get\<close>. Its result is either an error or a response with a
  status code and a body that \<open>ioutil.ReadAll\<close> either reads or fails on.
  \<open>json.Unmarshal\<close> is library code: it is a parameter of the model, a function from the
  bytes and the zero-valued response to the (possibly partly filled) response and an
  optional error.
\<close>

datatype error = GetError string | StatusError nat | ReadError string | UnmarshalError string

datatype body = Unreadable string | Bytes string

record Response =
  StatusCode :: nat
  Body :: body

type_synonym get_result = "string + Response"

type_synonym 'r unmarshal = "string \<Rightarrow> 'r \<Rightarrow> 'r \<times> string option"

definition StatusOK :: nat where
  "StatusOK = 200"

text \<open>A table entry: value kind, descriptor, and the extraction function.\<close>

record ('r, 'v) stat =
  Type :: ValueType
  Desc :: Desc
  Value :: "'r \<Rightarrow> 'v"

text \<open>The loop \<open>for _, metric := range c.metrics\<close> of both collectors.\<close>

fun sendMetrics ::
  "string \<Rightarrow> 'r \<Rightarrow> ('r, real) stat list \<Rightarrow> Metric list \<Rightarrow> Metric list \<times> panic option"
where
  "sendMetrics u resp [] ch = (ch, None)"
| "sendMetrics u resp (metric # rest) ch =
     (case MustNewConstMetric (Desc metric) (Type metric) (Value metric resp) [u] of
        Inl p \<Rightarrow> (ch, Some p)
      | Inr m \<Rightarrow> sendMetrics u resp rest (ch @ [m]))"

section \<open>The API-stats collector\<close>

text \<open>
  Every number of an API-stats response is a \<open>float64\<close>. The closures of the tables below
  are those of the source: \<open>float64(x)\<close> of a \<open>float64\<close> changes nothing, and
  \<open>float64(x) / 1000.0\<close> is the division of \<open>float64\<close>.
\<close>

record labeledValues =
  labels :: "string list"
  lv_value :: real

type_synonym apiStatEntry = "(string \<times> real) list"

record apiStatsResponse =
  DeleteLatency :: real
  DeleteRequestsPerSecond :: real
  ImportLatency :: real
  ImportRequestsPerSecond :: real
  Latency :: apiStatEntry
  PendingWriteBatches :: real
  RequestsPerSecond :: apiStatEntry
  SearchLatency :: real
  SearchRequestsPerSecond :: real
  TotalRequestsPerSecond :: real
  WriteLatency :: real
  WriteRequestsPerSecond :: real

type_synonym apiMetric = "(apiStatsResponse, real) stat"
type_synonym apiStat = "(apiStatsResponse, panic + labeledValues list) stat"

text \<open>
  A Go map is iterated in an unspecified order; an \<open>apiStatEntry\<close> is the list of its
  entries in the order in which one \<open>range\<close> loop visits them.

  \<open>strings.Split s sep\<close> for a one-character separator: the pieces between the
  separators, one more than there are separators.
\<close>

fun strings_Split :: "string \<Rightarrow> char \<Rightarrow> string list" where
  "strings_Split [] sep = [[]]"
| "strings_Split (c # cs) sep =
     (if c = sep then [] # strings_Split cs sep
      else (case strings_Split cs sep of
              [] \<Rightarrow> [[c]]
            | w # ws \<Rightarrow> (c # w) # ws))"

text \<open>Indexing a slice panics out of range.\<close>

definition index :: "'a list \<Rightarrow> nat \<Rightarrow> panic + 'a" where
  "index xs i = (if i < length xs then Inr (xs ! i) else Inl (IndexOutOfRange i (length xs)))"

definition splitStatKey :: "string \<Rightarrow> panic + (string \<times> string)" where
  "splitStatKey s =
     (let split = strings_Split s CHR '' '' in
      case index split 0 of
        Inl p \<Rightarrow> Inl p
      | Inr a \<Rightarrow> (case index split 1 of
                    Inl p \<Rightarrow> Inl p
                  | Inr b \<Rightarrow> Inr (a, b)))"

text \<open>
  The loop of a vector descriptor: for each entry, split the key and append one labelled
  value; \<open>f\<close> is what the descriptor does to the entry's value.
\<close>

fun rangeEntries ::
  "(real \<Rightarrow> real) \<Rightarrow> string \<Rightarrow> apiStatEntry \<Rightarrow>
      labeledValues list \<Rightarrow> panic + labeledValues list"
where
  "rangeEntries f url [] ret = Inr ret"
| "rangeEntries f url ((key, val) # rest) ret =
     (case splitStatKey key of
        Inl p \<Rightarrow> Inl p
      | Inr (method, endpoint) \<Rightarrow>
          rangeEntries f url rest
            (ret @ [\<lparr>labels = [url, method, endpoint], lv_value = f val\<rparr>]))"

definition defaultAPIStatsLabels :: "string list" where
  "defaultAPIStatsLabels = [''cluster'']"

text \<open>
  Both collectors hold the upstream URL (as \<open>url.String()\<close> prints it), the up gauge, the
  two counters and the table of scalar descriptors; the API-stats collector adds the table
  of vector descriptors. The logger and the HTTP client carry no state of the model.
\<close>

record 'r StatCollector =
  url :: string
  up :: Gauge
  totalScrapes :: Counter
  jsonParseFailures :: Counter
  metrics :: "('r, real) stat list"

record APIStats = "apiStatsResponse StatCollector" +
  stats :: "apiStat list"

text \<open>
  Every entry of the two tables of \<open>NewAPIStats\<close> is a struct literal of the same shape: the
  kind \<open>GaugeValue\<close>, a descriptor named \<open>namespace_subsystem_name\<close> with an empty help text
  and the label names, and the closure that extracts the value. \<open>apiGauge\<close> is that literal
  for a scalar entry and \<open>apiVector\<close> for a vector entry; the tables list the entries in the
  order of the source.
\<close>

definition apiGauge :: "string \<Rightarrow> (apiStatsResponse \<Rightarrow> real) \<Rightarrow> apiMetric" where
  "apiGauge name v =
     \<lparr>Type = GaugeValue,
      Desc = NewDesc (BuildFQName namespace ''api_stats'' name) [] defaultAPIStatsLabels,
      Value = v\<rparr>"

definition apiVector ::
  "string \<Rightarrow> (apiStatsResponse \<Rightarrow> panic + labeledValues list) \<Rightarrow> apiStat" where
  "apiVector name v =
     \<lparr>Type = GaugeValue,
      Desc = NewDesc (BuildFQName namespace ''api_stats'' name) []
               [''cluster'', ''method'', ''endpoint''],
      Value = v\<rparr>"

definition NewAPIStats :: "string \<Rightarrow> APIStats" where
  "NewAPIStats u =
     \<lparr>url = u,
      up = NewGauge (BuildFQName namespace ''api_stats'' ''up'')
             ''Was the last scrape of the Typesense API stats endpoint successful.'',
      totalScrapes = NewCounter (BuildFQName namespace ''api_stats'' ''total_scrapes'')
             ''Current total Typesense API stats scrapes.'',
      jsonParseFailures = NewCounter (BuildFQName namespace ''api_stats'' ''json_parse_failures'')
             ''Number of errors while parsing JSON.'',
      metrics =
        [apiGauge ''delete_latency_seconds'' (\<lambda>resp. float64_div (DeleteLatency resp) 1000),
         apiGauge ''delete_requests_per_second'' (\<lambda>resp. DeleteRequestsPerSecond resp),
         apiGauge ''import_latency_seconds'' (\<lambda>resp. float64_div (ImportLatency resp) 1000),
         apiGauge ''import_requests_per_second'' (\<lambda>resp. ImportRequestsPerSecond resp),
         apiGauge ''pending_write_batches'' (\<lambda>resp. PendingWriteBatches resp),
         apiGauge ''search_latency_seconds'' (\<lambda>resp. float64_div (SearchLatency resp) 1000),
         apiGauge ''search_requests_per_second'' (\<lambda>resp. SearchRequestsPerSecond resp),
         apiGauge ''total_requests_per_second'' (\<lambda>resp. TotalRequestsPerSecond resp),
         apiGauge ''write_latency_seconds'' (\<lambda>resp. float64_div (WriteLatency resp) 1000),
         apiGauge ''write_requests_per_second'' (\<lambda>resp. WriteRequestsPerSecond resp)],
      stats =
        [apiVector ''latency_seconds''
           (\<lambda>resp. rangeEntries (\<lambda>val. float64_div val 1000) u (Latency resp) []),
         apiVector ''requests_per_second''
           (\<lambda>resp. rangeEntries (\<lambda>val. val) u (RequestsPerSecond resp) [])]\<rparr>"

definition zero_apiStatsResponse :: apiStatsResponse where
  "zero_apiStatsResponse =
     \<lparr>DeleteLatency = 0, DeleteRequestsPerSecond = 0, ImportLatency = 0,
      ImportRequestsPerSecond = 0, Latency = [], PendingWriteBatches = 0,
      RequestsPerSecond = [], SearchLatency = 0, SearchRequestsPerSecond = 0,
      TotalRequestsPerSecond = 0, WriteLatency = 0, WriteRequestsPerSecond = 0\<rparr>"

text \<open>
  \<open>fetchAndDecodeAPIStats\<close> returns the collector (its parse-failure counter may have been
  incremented), the response and the error, as the Go function returns \<open>(resp, err)\<close>.
\<close>

definition fetchAndDecodeAPIStats ::
  "apiStatsResponse unmarshal \<Rightarrow> get_result \<Rightarrow> APIStats
     \<Rightarrow> APIStats \<times> apiStatsResponse \<times> error option"
where
  "fetchAndDecodeAPIStats json got c =
     (let resp = zero_apiStatsResponse in
      case got of
        Inl e \<Rightarrow> (c, resp, Some (GetError e))
      | Inr res \<Rightarrow>
          if StatusCode res \<noteq> StatusOK then (c, resp, Some (StatusError (StatusCode res)))
          else (case Body res of
                  Unreadable e \<Rightarrow>
                    (c\<lparr>jsonParseFailures := Counter_Inc (jsonParseFailures c)\<rparr>, resp,
                     Some (ReadError e))
                | Bytes bts \<Rightarrow>
                    (case json bts resp of
                       (resp', Some e) \<Rightarrow>
                         (c\<lparr>jsonParseFailures := Counter_Inc (jsonParseFailures c)\<rparr>, resp',
                          Some (UnmarshalError e))
                     | (resp', None) \<Rightarrow> (c, resp', None))))"

fun sendValues ::
  "Desc \<Rightarrow> ValueType \<Rightarrow> labeledValues list \<Rightarrow> Metric list \<Rightarrow> Metric list \<times> panic option"
where
  "sendValues d t [] ch = (ch, None)"
| "sendValues d t (v # rest) ch =
     (case MustNewConstMetric d t (lv_value v) (labels v) of
        Inl p \<Rightarrow> (ch, Some p)
      | Inr m \<Rightarrow> sendValues d t rest (ch @ [m]))"

fun sendStats ::
  "apiStatsResponse \<Rightarrow> apiStat list \<Rightarrow> Metric list \<Rightarrow> Metric list \<times> panic option"
where
  "sendStats resp [] ch = (ch, None)"
| "sendStats resp (stat # rest) ch =
     (case Value stat resp of
        Inl p \<Rightarrow> (ch, Some p)
      | Inr vs \<Rightarrow>
          (case sendValues (Desc stat) (Type stat) vs ch of
             (ch', Some p) \<Rightarrow> (ch', Some p)
           | (ch', None) \<Rightarrow> sendStats resp rest ch'))"

text \<open>
  The deferred function of \<open>Collect\<close> runs when \<open>Collect\<close> returns and also when it
  panics: it sends the up gauge and the two counters, after everything else.
\<close>

definition deferred ::
  "('r, 'z) StatCollector_scheme \<Rightarrow> Metric list \<Rightarrow> Metric list" where
  "deferred c ch =
     ch @ [gaugeMetric (up c), counterMetric (totalScrapes c),
           counterMetric (jsonParseFailures c)]"

text \<open>
  \<open>Collect\<close> returns the collector after the scrape, the samples sent on the channel in
  order, and the panic it ends with, if any.
\<close>

definition APIStats_Collect ::
  "apiStatsResponse unmarshal \<Rightarrow> get_result \<Rightarrow> APIStats
     \<Rightarrow> APIStats \<times> Metric list \<times> panic option"
where
  "APIStats_Collect json got c0 =
     (let c1 = c0\<lparr>totalScrapes := Counter_Inc (totalScrapes c0)\<rparr> in
      case fetchAndDecodeAPIStats json got c1 of
        (c2, resp, Some err) \<Rightarrow>
          (let c3 = c2\<lparr>up := Gauge_Set (up c2) 0\<rparr> in (c3, deferred c3 [], None))
      | (c2, resp, None) \<Rightarrow>
          (let c3 = c2\<lparr>up := Gauge_Set (up c2) 1\<rparr> in
           case sendMetrics (url c3) resp (metrics c3) [] of
             (ch, Some p) \<Rightarrow> (c3, deferred c3 ch, Some p)
           | (ch, None) \<Rightarrow>
               (case sendStats resp (stats c3) ch of
                  (ch', p) \<Rightarrow> (c3, deferred c3 ch', p))))"

section \<open>The cluster-metrics collector\<close>

text \<open>
  A field of the Go type \<open>int\<close> holds an integer of 64 bits. It is an integer of HOL here:
  the decoder rejects a number outside the range of the type, and the collector does nothing
  with the field but convert it with \<open>float64(x)\<close>, which rounds an integer beyond the 53
  bits of a significand.
\<close>

record clusterMetricsResponse =
  SystemCPU1ActivePercentage :: real
  SystemCPU2ActivePercentage :: real
  SystemCPU3ActivePercentage :: real
  SystemCPU4ActivePercentage :: real
  SystemCPUActivePercentage :: real
  SystemDiskTotalBytes :: int
  SystemDiskUsedBytes :: int
  SystemMemoryTotalBytes :: int
  SystemMemoryUsedBytes :: int
  SystemNetworkReceivedBytes :: int
  SystemNetworkSentBytes :: int
  TypesenseMemoryActiveBytes :: int
  TypesenseMemoryAllocatedBytes :: int
  TypesenseMemoryFragmentationRatio :: real
  TypesenseMemoryMappedBytes :: int
  TypesenseMemoryMetadataBytes :: int
  TypesenseMemoryResidentBytes :: int
  TypesenseMemoryRetainedBytes :: int

type_synonym clusterMetric = "(clusterMetricsResponse, real) stat"
type_synonym ClusterMetrics = "clusterMetricsResponse StatCollector"

definition zero_clusterMetricsResponse :: clusterMetricsResponse where
  "zero_clusterMetricsResponse =
     \<lparr>SystemCPU1ActivePercentage = 0, SystemCPU2ActivePercentage = 0,
      SystemCPU3ActivePercentage = 0, SystemCPU4ActivePercentage = 0,
      SystemCPUActivePercentage = 0, SystemDiskTotalBytes = 0, SystemDiskUsedBytes = 0,
      SystemMemoryTotalBytes = 0, SystemMemoryUsedBytes = 0, SystemNetworkReceivedBytes = 0,
      SystemNetworkSentBytes = 0, TypesenseMemoryActiveBytes = 0,
      TypesenseMemoryAllocatedBytes = 0, TypesenseMemoryFragmentationRatio = 0,
      TypesenseMemoryMappedBytes = 0, TypesenseMemoryMetadataBytes = 0,
      TypesenseMemoryResidentBytes = 0, TypesenseMemoryRetainedBytes = 0\<rparr>"

definition defaultClusterMetricsLabels :: "string list" where
  "defaultClusterMetricsLabels = [''cluster'']"

definition clusterGauge :: "string \<Rightarrow> (clusterMetricsResponse \<Rightarrow> real) \<Rightarrow> clusterMetric" where
  "clusterGauge name v =
     \<lparr>Type = GaugeValue,
      Desc = NewDesc (BuildFQName namespace ''cluster_metrics'' name) []
               defaultClusterMetricsLabels,
      Value = v\<rparr>"

definition NewClusterMetrics :: "string \<Rightarrow> ClusterMetrics" where
  "NewClusterMetrics u =
     \<lparr>url = u,
      up = NewGauge (BuildFQName namespace ''cluster_metrics'' ''up'')
             ''Was the last scrape of the Typesense cluster metrics endpoint successful.'',
      totalScrapes = NewCounter (BuildFQName namespace ''cluster_metrics'' ''total_scrapes'')
             ''Current total Typesense cluster metrics scrapes.'',
      jsonParseFailures =
        NewCounter (BuildFQName namespace ''cluster_metrics'' ''json_parse_failures'')
             ''Number of errors while parsing JSON.'',
      metrics =
        [clusterGauge ''memory_active_bytes''
           (\<lambda>resp. float64_of_int (TypesenseMemoryActiveBytes resp)),
         clusterGauge ''memory_allocated_bytes''
           (\<lambda>resp. float64_of_int (TypesenseMemoryAllocatedBytes resp)),
         clusterGauge ''memory_fragmentation_ratio''
           (\<lambda>resp. TypesenseMemoryFragmentationRatio resp),
         clusterGauge ''memory_mapped_bytes''
           (\<lambda>resp. float64_of_int (TypesenseMemoryMappedBytes resp)),
         clusterGauge ''memory_metadata_bytes''
           (\<lambda>resp. float64_of_int (TypesenseMemoryMetadataBytes resp)),
         clusterGauge ''memory_resident_bytes''
           (\<lambda>resp. float64_of_int (TypesenseMemoryResidentBytes resp)),
         clusterGauge ''memory_retained_bytes''
           (\<lambda>resp. float64_of_int (TypesenseMemoryRetainedBytes resp))]\<rparr>"

definition fetchAndDecodeClusterMetrics ::
  "clusterMetricsResponse unmarshal \<Rightarrow> get_result \<Rightarrow> ClusterMetrics
     \<Rightarrow> ClusterMetrics \<times> clusterMetricsResponse \<times> error option"
where
  "fetchAndDecodeClusterMetrics json got c =
     (let resp = zero_clusterMetricsResponse in
      case got of
        Inl e \<Rightarrow> (c, resp, Some (GetError e))
      | Inr res \<Rightarrow>
          if StatusCode res \<noteq> StatusOK then (c, resp, Some (StatusError (StatusCode res)))
          else (case Body res of
                  Unreadable e \<Rightarrow>
                    (c\<lparr>jsonParseFailures := Counter_Inc (jsonParseFailures c)\<rparr>, resp,
                     Some (ReadError e))
                | Bytes bts \<Rightarrow>
                    (case json bts resp of
                       (resp', Some e) \<Rightarrow>
                         (c\<lparr>jsonParseFailures := Counter_Inc (jsonParseFailures c)\<rparr>, resp',
                          Some (UnmarshalError e))
                     | (resp', None) \<Rightarrow> (c, resp', None))))"

definition ClusterMetrics_Collect ::
  "clusterMetricsResponse unmarshal \<Rightarrow> get_result \<Rightarrow> ClusterMetrics
     \<Rightarrow> ClusterMetrics \<times> Metric list \<times> panic option"
where
  "ClusterMetrics_Collect json got c0 =
     (let c1 = c0\<lparr>totalScrapes := Counter_Inc (totalScrapes c0)\<rparr> in
      case fetchAndDecodeClusterMetrics json got c1 of
        (c2, resp, Some err) \<Rightarrow>
          (let c3 = c2\<lparr>up := Gauge_Set (up c2) 0\<rparr> in (c3, deferred c3 [], None))
      | (c2, resp, None) \<Rightarrow>
          (let c3 = c2\<lparr>up := Gauge_Set (up c2) 1\<rparr> in
           case sendMetrics (url c3) resp (metrics c3) [] of
             (ch, p) \<Rightarrow> (c3, deferred c3 ch, p)))"

section \<open>The aggregator\<close>

text \<open>
  A \<open>Collector\<close> is anything with an \<open>Update\<close> method; no type of the program implements it.
  For one collection, what matters of a collector is what its \<open>Update\<close> sends on the channel
  and the error it returns. The map \<open>Collectors\<close> is the list of its entries in the order the
  \<open>range\<close> loop visits them. \<open>NewTypesenseCollector\<close> makes the map empty and does not use its
  HTTP client and URL arguments.
\<close>

record Collector =
  sent :: "Metric list"
  err :: "string option"

record TypesenseCollector =
  Collectors :: "(string \<times> Collector) list"

definition scrapeDurationDesc :: Desc where
  "scrapeDurationDesc =
     NewDesc (BuildFQName namespace ''scrape'' ''duration_seconds'')
       ''typesense_exporter: Duration of a collector scrape.'' [''collector'']"

definition scrapeSuccessDesc :: Desc where
  "scrapeSuccessDesc =
     NewDesc (BuildFQName namespace ''scrape'' ''success'')
       ''typesense_exporter: Whether a collector succeeded.'' [''collector'']"

definition NewTypesenseCollector :: TypesenseCollector where
  "NewTypesenseCollector = \<lparr>Collectors = []\<rparr>"

text \<open>
  \<open>execute\<close> runs one collector and then sends its duration and its success flag. The
  result is what the call sends, in order, and the panic it ends with, if any.
  \<open>duration\<close> is the elapsed time the clock gave, in seconds.
\<close>

definition execute :: "string \<Rightarrow> Collector \<Rightarrow> real \<Rightarrow> Metric list \<times> panic option" where
  "execute name c duration =
     (let ch = sent c;
          success = (if err c \<noteq> None then 0 else 1) in
      case MustNewConstMetric scrapeDurationDesc GaugeValue duration [name] of
        Inl p \<Rightarrow> (ch, Some p)
      | Inr d \<Rightarrow>
          (case MustNewConstMetric scrapeSuccessDesc GaugeValue success [name] of
             Inl p \<Rightarrow> (ch @ [d], Some p)
           | Inr s \<Rightarrow> (ch @ [d, s], None)))"

text \<open>
  \<open>Collect\<close> starts one goroutine per entry and waits on a wait group. A goroutine is
  either still running, with the samples it has yet to send and the panic it will end
  with, or finished, after its \<open>wg.Done()\<close>. The scheduler is a list of goroutine indices:
  each entry lets that goroutine take one step (send one sample, or call \<open>wg.Done()\<close>);
  an entry for a finished goroutine does nothing. \<open>wg.Wait()\<close> returns once the counter
  is zero. A panic in a goroutine ends the process.
\<close>

datatype goroutine = Running "Metric list" "panic option" | Finished

record WaitState =
  goroutines :: "goroutine list"
  wg :: nat
  chan :: "Metric list"

definition step :: "nat \<Rightarrow> WaitState \<Rightarrow> panic + WaitState" where
  "step i s =
     (if i < length (goroutines s) then
        (case goroutines s ! i of
           Finished \<Rightarrow> Inr s
         | Running [] None \<Rightarrow>
             Inr (s\<lparr>goroutines := (goroutines s)[i := Finished], wg := wg s - 1\<rparr>)
         | Running [] (Some p) \<Rightarrow> Inl p
         | Running (m # ms) p \<Rightarrow>
             Inr (s\<lparr>goroutines := (goroutines s)[i := Running ms p], chan := chan s @ [m]\<rparr>))
      else Inr s)"

text \<open>
  The result of waiting: \<open>None\<close> when the schedule ends with the counter above zero
  (\<open>Collect\<close> has not returned), \<open>Some (Inl p)\<close> when a goroutine panicked, and
  \<open>Some (Inr s)\<close> when \<open>wg.Wait()\<close> returned in state \<open>s\<close>.
\<close>

fun wait :: "nat list \<Rightarrow> WaitState \<Rightarrow> (panic + WaitState) option" where
  "wait [] s = (if wg s = 0 then Some (Inr s) else None)"
| "wait (i # sched) s =
     (if wg s = 0 then Some (Inr s)
      else (case step i s of
              Inl p \<Rightarrow> Some (Inl p)
            | Inr s' \<Rightarrow> wait sched s'))"

definition spawn :: "(string \<Rightarrow> real) \<Rightarrow> string \<times> Collector \<Rightarrow> goroutine" where
  "spawn clock nc = (case execute (fst nc) (snd nc) (clock (fst nc)) of (ms, p) \<Rightarrow> Running ms p)"

definition TypesenseCollector_Collect ::
  "(string \<Rightarrow> real) \<Rightarrow> nat list \<Rightarrow> TypesenseCollector \<Rightarrow> (panic + WaitState) option"
where
  "TypesenseCollector_Collect clock sched e =
     wait sched
       \<lparr>goroutines = map (spawn clock) (Collectors e),
        wg = length (Collectors e),
        chan = []\<rparr>"

section \<open>Sequences of scrapes, and names for what the theorems state\<close>

text \<open>
  The registry calls \<open>Collect\<close> once per scrape. A panic inside \<open>Collect\<close> is not recovered
  anywhere in the program, so the sequence ends there.
\<close>

fun APIStats_scrapes ::
  "apiStatsResponse unmarshal \<Rightarrow> get_result list \<Rightarrow> APIStats \<Rightarrow> APIStats \<times> panic option"
where
  "APIStats_scrapes json [] c = (c, None)"
| "APIStats_scrapes json (got # rest) c =
     (case APIStats_Collect json got c of
        (c', out, Some p) \<Rightarrow> (c', Some p)
      | (c', out, None) \<Rightarrow> APIStats_scrapes json rest c')"

fun ClusterMetrics_scrapes ::
  "clusterMetricsResponse unmarshal \<Rightarrow> get_result list \<Rightarrow> ClusterMetrics
     \<Rightarrow> ClusterMetrics \<times> panic option"
where
  "ClusterMetrics_scrapes json [] c = (c, None)"
| "ClusterMetrics_scrapes json (got # rest) c =
     (case ClusterMetrics_Collect json got c of
        (c', out, Some p) \<Rightarrow> (c', Some p)
      | (c', out, None) \<Rightarrow> ClusterMetrics_scrapes json rest c')"

text \<open>
  A collector whose gauge stands at \<open>x\<close> and whose counters stand at \<open>n\<close> and \<open>k\<close>: scraping
  changes nothing else of a collector.
\<close>

definition withValues ::
  "('r, 'z) StatCollector_scheme \<Rightarrow> real \<Rightarrow> nat \<Rightarrow> nat \<Rightarrow> ('r, 'z) StatCollector_scheme"
where
  "withValues c x n k =
     c\<lparr>up := (up c)\<lparr>gauge_val := x\<rparr>,
       totalScrapes := (totalScrapes c)\<lparr>counter_val := n\<rparr>,
       jsonParseFailures := (jsonParseFailures c)\<lparr>counter_val := k\<rparr>\<rparr>"

text \<open>The sample that a scalar descriptor \<open>d\<close> yields for a response, labelled with the URL.\<close>

definition scalarSample :: "string \<Rightarrow> 'r \<Rightarrow> ('r, real) stat \<Rightarrow> Metric" where
  "scalarSample u resp d =
     \<lparr>m_desc = Desc d, m_type = Type d, m_value = Value d resp, m_labelValues = [u]\<rparr>"

text \<open>
  The text of a key before its first space, the text between its first and its second
  space (up to the end of the key when there is no second space), and the text after its
  first space.
\<close>

definition methodOf :: "string \<Rightarrow> string" where
  "methodOf key = takeWhile (\<lambda>c. c \<noteq> CHR '' '') key"

definition endpointOf :: "string \<Rightarrow> string" where
  "endpointOf key =
     takeWhile (\<lambda>c. c \<noteq> CHR '' '') (tl (dropWhile (\<lambda>c. c \<noteq> CHR '' '') key))"

definition afterFirstSpace :: "string \<Rightarrow> string" where
  "afterFirstSpace key = tl (dropWhile (\<lambda>c. c \<noteq> CHR '' '') key)"

text \<open>The sample that a vector descriptor yields for one entry of its mapping.\<close>

definition vectorSample :: "Desc \<Rightarrow> string \<Rightarrow> (real \<Rightarrow> real)
    \<Rightarrow> string \<times> real \<Rightarrow> Metric" where
  "vectorSample d u f kv =
     \<lparr>m_desc = d, m_type = GaugeValue, m_value = f (snd kv),
      m_labelValues = [u, methodOf (fst kv), endpointOf (fst kv)]\<rparr>"

text \<open>The descriptors of the two vector metrics, with their names written out.\<close>

definition latencyDesc :: Desc where
  "latencyDesc =
     NewDesc ''typesense_api_stats_latency_seconds'' [] [''cluster'', ''method'', ''endpoint'']"

definition requestsPerSecondDesc :: Desc where
  "requestsPerSecondDesc =
     NewDesc ''typesense_api_stats_requests_per_second'' []
       [''cluster'', ''method'', ''endpoint'']"

text \<open>The three parts of the result of a \<open>Collect\<close>.\<close>

definition state_of :: "'c \<times> Metric list \<times> panic option \<Rightarrow> 'c" where
  "state_of r = fst r"

definition sent_by :: "'c \<times> Metric list \<times> panic option \<Rightarrow> Metric list" where
  "sent_by r = fst (snd r)"

definition panic_of :: "'c \<times> Metric list \<times> panic option \<Rightarrow> panic option" where
  "panic_of r = snd (snd r)"

text \<open>
  A body fails to decode when it cannot be read or when the decoder returns an error on
  its bytes (malformed JSON, or a field whose struct tag asks for a number inside a string
  and whose string is not one).
\<close>

definition decodeFails :: "'r unmarshal \<Rightarrow> 'r \<Rightarrow> body \<Rightarrow> bool" where
  "decodeFails json zero b =
     (case b of Unreadable e \<Rightarrow> True | Bytes bts \<Rightarrow> snd (json bts zero) \<noteq> None)"

text \<open>The samples of one descriptor in a stream of samples.\<close>

definition samplesOf :: "Desc \<Rightarrow> Metric list \<Rightarrow> Metric list" where
  "samplesOf d out = filter (\<lambda>m. m_desc m = d) out"

text \<open>
  A response is well keyed when every key of its two mappings contains a space. A scrape
  of the API-stats endpoint succeeds when the request is answered with status 200 and a
  readable body that decodes without error into a well-keyed response; a scrape of the
  cluster-metrics endpoint, when the body decodes without error.
\<close>

definition wellKeyed :: "apiStatsResponse \<Rightarrow> bool" where
  "wellKeyed resp \<longleftrightarrow>
     list_all (\<lambda>kv. CHR '' '' \<in> set (fst kv)) (Latency resp)
     \<and> list_all (\<lambda>kv. CHR '' '' \<in> set (fst kv)) (RequestsPerSecond resp)"

definition decodes :: "'r unmarshal \<Rightarrow> 'r \<Rightarrow> get_result \<Rightarrow> 'r option" where
  "decodes json zero got =
     (case got of
        Inl e \<Rightarrow> None
      | Inr res \<Rightarrow>
          if StatusCode res \<noteq> StatusOK then None
          else (case Body res of
                  Unreadable e \<Rightarrow> None
                | Bytes bts \<Rightarrow>
                    (case json bts zero of
                       (resp, Some e) \<Rightarrow> None
                     | (resp, None) \<Rightarrow> Some resp)))"

definition APIStats_succeeds :: "apiStatsResponse unmarshal \<Rightarrow> get_result \<Rightarrow> bool" where
  "APIStats_succeeds json got =
     (case decodes json zero_apiStatsResponse got of
        None \<Rightarrow> False
      | Some resp \<Rightarrow> wellKeyed resp)"

definition ClusterMetrics_succeeds ::
  "clusterMetricsResponse unmarshal \<Rightarrow> get_result \<Rightarrow> bool" where
  "ClusterMetrics_succeeds json got = (decodes json zero_clusterMetricsResponse got \<noteq> None)"

text \<open>The values exposed under one metric name in a stream of samples.\<close>

definition valuesNamed :: "string \<Rightarrow> Metric list \<Rightarrow> real list" where
  "valuesNamed name out = map m_value (filter (\<lambda>m. fqName (m_desc m) = name) out)"

text \<open>
  For the aggregator: the two samples that \<open>execute\<close> adds for a collector, what a goroutine
  has yet to send, how many goroutines have not called \<open>wg.Done()\<close>, whether a goroutine is
  free of a pending panic, and the schedule that runs the goroutines one after the other,
  each to its end.
\<close>

definition durationSample :: "string \<Rightarrow> real \<Rightarrow> Metric" where
  "durationSample name duration =
     \<lparr>m_desc = scrapeDurationDesc, m_type = GaugeValue, m_value = duration,
      m_labelValues = [name]\<rparr>"

definition successSample :: "string \<Rightarrow> Collector \<Rightarrow> Metric" where
  "successSample name c =
     \<lparr>m_desc = scrapeSuccessDesc, m_type = GaugeValue,
      m_value = (if err c = None then 1 else 0), m_labelValues = [name]\<rparr>"

fun pending :: "goroutine \<Rightarrow> Metric list" where
  "pending (Running ms p) = ms"
| "pending Finished = []"

fun harmless :: "goroutine \<Rightarrow> bool" where
  "harmless (Running ms p) = (p = None)"
| "harmless Finished = True"

definition unfinished :: "goroutine list \<Rightarrow> nat" where
  "unfinished gs = length (filter (\<lambda>g. g \<noteq> Finished) gs)"

definition outstanding :: "goroutine list \<Rightarrow> Metric list" where
  "outstanding gs = concat (map pending gs)"

fun sequential :: "nat \<Rightarrow> goroutine list \<Rightarrow> nat list" where
  "sequential i [] = []"
| "sequential i (g # gs) = replicate (Suc (length (pending g))) i @ sequential (Suc i) gs"

text \<open>What \<open>execute\<close> sends for one entry of the map, in order.\<close>

definition executed :: "(string \<Rightarrow> real) \<Rightarrow> string \<times> Collector \<Rightarrow> Metric list" where
  "executed clock nc =
     sent (snd nc) @ [durationSample (fst nc) (clock (fst nc)), successSample (fst nc) (snd nc)]"

text \<open>What the \<open>Update\<close> calls of the collectors of an aggregator send, entry by entry.\<close>

definition updatesSent :: "TypesenseCollector \<Rightarrow> Metric list" where
  "updatesSent e = concat (map (\<lambda>nc. sent (snd nc)) (Collectors e))"

section \<open>Inputs of the examples\<close>

text \<open>
  The examples below run the collectors on these inputs: an upstream URL; decoders that
  stand for \<open>json.Unmarshal\<close> on one given body, the first yielding a response and the second
  failing after it has stored part of one; an answer of the upstream with a status code and
  a readable body; and decoded responses.
\<close>

definition localhost :: string where
  "localhost = ''http://localhost:8108''"

definition decodeAs :: "'r \<Rightarrow> 'r unmarshal" where
  "decodeAs r bts resp = (r, None)"

definition failWith :: "'r \<Rightarrow> string \<Rightarrow> 'r unmarshal" where
  "failWith r e bts resp = (r, Some e)"

definition response :: "nat \<Rightarrow> string \<Rightarrow> Response" where
  "response code bts = \<lparr>StatusCode = code, Body = Bytes bts\<rparr>"

definition searchAndDocuments :: apiStatsResponse where
  "searchAndDocuments =
     zero_apiStatsResponse\<lparr>RequestsPerSecond := [(''GET /search'', 12.5), (''POST /documents'', 3)]\<rparr>"

definition latencies :: apiStatsResponse where
  "latencies =
     zero_apiStatsResponse
       \<lparr>DeleteLatency := 123, Latency := [(''GET /search'', 123), (''POST /documents'', 2500)],
        SearchLatency := 8, WriteLatency := 1000\<rparr>"

definition latenciesBody :: string where
  "latenciesBody =
     ''{\"delete_latency_ms\":123,\"latency_ms\":{\"GET /search\":123,\"POST /documents\":2500},''
     @ ''\"search_latency_ms\":8,\"write_latency_ms\":1000}''"

definition keyWithTwoSpaces :: apiStatsResponse where
  "keyWithTwoSpaces =
     zero_apiStatsResponse\<lparr>RequestsPerSecond := [(''GET /a b'', 1), (''GET /a c'', 2)]\<rparr>"

definition keyWithoutSpace :: apiStatsResponse where
  "keyWithoutSpace = zero_apiStatsResponse\<lparr>DeleteLatency := 2500, Latency := [(''health'', 5)]\<rparr>"

definition memoryActive :: clusterMetricsResponse where
  "memoryActive = zero_clusterMetricsResponse\<lparr>TypesenseMemoryActiveBytes := 4096\<rparr>"

definition diskTotalOnly :: clusterMetricsResponse where
  "diskTotalOnly = zero_clusterMetricsResponse\<lparr>SystemDiskTotalBytes := 7\<rparr>"

text \<open>
  For the aggregator: a clock that measures a quarter of a second for every collector, two
  collectors of which the first fails and the second sends one sample, and the state in
  which \<open>wg.Wait()\<close> returns under the schedule \<open>[0, 1, 1, 0, 1, 0, 1]\<close>.
\<close>

definition quarterSecond :: "string \<Rightarrow> real" where
  "quarterSecond name = 0.25"

definition upSample :: Metric where
  "upSample =
     \<lparr>m_desc = NewDesc ''typesense_api_stats_up'' [] [], m_type = GaugeValue, m_value = 1,
      m_labelValues = []\<rparr>"

definition failingCollector :: Collector where
  "failingCollector = \<lparr>sent = [], err = Some ''connection refused''\<rparr>"

definition workingCollector :: Collector where
  "workingCollector = \<lparr>sent = [upSample], err = None\<rparr>"

definition twoCollectors :: TypesenseCollector where
  "twoCollectors =
     \<lparr>Collectors = [(''cluster-metrics'', failingCollector), (''api-stats'', workingCollector)]\<rparr>"

definition allFinished :: WaitState where
  "allFinished =
     \<lparr>goroutines = [Finished, Finished], wg = 0,
      chan = [durationSample ''cluster-metrics'' 0.25, upSample,
              durationSample ''api-stats'' 0.25,
              successSample ''cluster-metrics'' failingCollector,
              successSample ''api-stats'' workingCollector]\<rparr>"

text \<open>
  A collector whose \<open>Update\<close> itself sends a sample of the scrape-duration descriptor, an
  aggregator holding it, and the state in which \<open>wg.Wait()\<close> returns under the same schedule.
\<close>

definition echoingCollector :: Collector where
  "echoingCollector = \<lparr>sent = [durationSample ''api-stats'' 9], err = None\<rparr>"

definition echoingCollectors :: TypesenseCollector where
  "echoingCollectors =
     \<lparr>Collectors = [(''cluster-metrics'', failingCollector), (''api-stats'', echoingCollector)]\<rparr>"

definition echoFinished :: WaitState where
  "echoFinished =
     \<lparr>goroutines = [Finished, Finished], wg = 0,
      chan = [durationSample ''cluster-metrics'' 0.25, durationSample ''api-stats'' 9,
              durationSample ''api-stats'' 0.25,
              successSample ''cluster-metrics'' failingCollector,
              successSample ''api-stats'' echoingCollector]\<rparr>"

section \<open>Rounding to \<open>float64\<close>\<close>

lemma binade_numeral:
  "binade (numeral k) x =
     (if 2 \<le> x then binade (pred_numeral k) (x / 2) + 1
      else if x < 1 then binade (pred_numeral k) (x * 2) - 1
      else 0)"
  by (simp add: numeral_eq_Suc)

lemmas float64_eval = float64_div_def float64_of_int_def round64_def ulp_def roundHalfEven_def
  binade_numeral Let_def

text \<open>
  \<open>binade n\<close> finds the exponent of every number from \<open>1 / 2 ^ n\<close> up to \<open>2 ^ Suc n\<close>; with
  \<open>n = 1100\<close> that is every normal \<open>float64\<close>, and what is smaller is rounded on the
  spacing of the least exponent.
\<close>

lemma binade_bounds:
  assumes "1 / 2 ^ n \<le> x" and "x < 2 ^ Suc n"
  shows "2 powi (binade n x) \<le> x \<and> x < 2 powi (binade n x + 1)"
  using assms
proof (induction n arbitrary: x)
  case 0
  then show ?case by simp
next
  case (Suc n)
  show ?case
  proof (cases "2 \<le> x")
    case True
    have "1 / 2 ^ n \<le> x / 2"
    proof -
      have "1 / 2 ^ n \<le> (1::real)" by (simp add: divide_le_eq_1)
      then show ?thesis using True by linarith
    qed
    moreover have "x / 2 < 2 ^ Suc n"
      using Suc.prems(2) by simp
    ultimately have "2 powi (binade n (x / 2)) \<le> x / 2 \<and> x / 2 < 2 powi (binade n (x / 2) + 1)"
      by (rule Suc.IH)
    then show ?thesis
      using True by (simp add: power_int_add field_simps)
  next
    case False
    show ?thesis
    proof (cases "x < 1")
      case True
      have "1 / 2 ^ n \<le> x * 2"
        using Suc.prems(1) by (simp add: field_simps)
      moreover have "x * 2 < 2 ^ Suc n"
      proof -
        have "(2::real) \<le> 2 ^ Suc n" by simp
        then show ?thesis using True by linarith
      qed
      ultimately have "2 powi (binade n (x * 2)) \<le> x * 2
          \<and> x * 2 < 2 powi (binade n (x * 2) + 1)"
        by (rule Suc.IH)
      then show ?thesis
        using True False by (simp add: power_int_add power_int_diff field_simps)
    next
      case False
      then show ?thesis
        using \<open>\<not> 2 \<le> x\<close> by simp
    qed
  qed
qed

lemma ulp_pos: "0 < ulp x"
  by (simp add: ulp_def)

lemma roundHalfEven_error: "\<bar>of_int (roundHalfEven y) - y\<bar> \<le> 1 / 2"
  unfolding roundHalfEven_def Let_def by (auto simp: abs_if) linarith+

text \<open>A rounded result is within half a unit in the last place of the exact one.\<close>

lemma round64_error: "\<bar>round64 x - x\<bar> \<le> ulp x / 2"
proof (cases "x = 0")
  case True
  then show ?thesis
    using ulp_pos [of x] by (simp add: round64_def)
next
  case False
  let ?y = "\<bar>x\<bar> / ulp x"
  have "round64 x - x = sgn x * ((of_int (roundHalfEven ?y) - ?y) * ulp x)"
    using False ulp_pos [of x] by (simp add: round64_def sgn_if algebra_simps)
  then have "\<bar>round64 x - x\<bar> = \<bar>of_int (roundHalfEven ?y) - ?y\<bar> * ulp x"
    using False ulp_pos [of x] by (simp add: abs_mult sgn_if)
  also have "\<dots> \<le> (1 / 2) * ulp x"
    using roundHalfEven_error [of ?y] ulp_pos [of x] by (intro mult_right_mono) simp_all
  finally show ?thesis
    by simp
qed

text \<open>
  The quotient is rounded once more than the decimal it came from: the \<open>float64\<close> read from
  \<open>0.07\<close>, divided by 1000, is not the \<open>float64\<close> nearest to \<open>0.00007\<close> but its upper
  neighbour, which prints as \<open>7.000000000000001e-05\<close>. The \<open>float64\<close> read from \<open>123\<close>,
  divided by 1000, is the \<open>float64\<close> nearest to \<open>0.123\<close>.
\<close>

lemma float64_div_examples:
  "round64 (7 / 100) = 1261007895663739 / 2 ^ 54"
  "float64_div (1261007895663739 / 2 ^ 54) 1000 = 5165088340638675 / 2 ^ 66"
  "round64 (7 / 100000) = 5165088340638674 / 2 ^ 66"
  "float64_div 123 1000 = 553942754166571 / 2 ^ 52"
  "round64 (123 / 1000) = 553942754166571 / 2 ^ 52"
  "float64_of_int (2 ^ 53 + 1) = 2 ^ 53"
  by (simp_all add: float64_eval)

section \<open>Splitting a compound key\<close>

lemma strings_Split_not_Nil: "strings_Split s sep \<noteq> []"
  by (induction s) (auto split: list.splits)

lemma length_strings_Split: "length (strings_Split s sep) = Suc (count_list s sep)"
  by (induction s) (auto split: list.splits simp: strings_Split_not_Nil)

lemma strings_Split_no_sep: "sep \<notin> set s \<Longrightarrow> strings_Split s sep = [s]"
  by (induction s) auto

lemma strings_Split_append:
  "sep \<notin> set a \<Longrightarrow> strings_Split (a @ sep # b) sep = a # strings_Split b sep"
  by (induction a) auto

lemma key_decomp:
  "sep \<in> set s \<Longrightarrow>
   s = takeWhile (\<lambda>c. c \<noteq> sep) s @ sep # tl (dropWhile (\<lambda>c. c \<noteq> sep) s)"
  by (induction s) auto

lemma strings_Split_hd: "hd (strings_Split s sep) = takeWhile (\<lambda>c. c \<noteq> sep) s"
  by (induction s) (auto split: list.splits simp: strings_Split_not_Nil)

lemma splitStatKey_no_space:
  "CHR '' '' \<notin> set s \<Longrightarrow> splitStatKey s = Inl (IndexOutOfRange 1 1)"
  by (simp add: splitStatKey_def index_def strings_Split_no_sep)

lemma splitStatKey_append:
  assumes "CHR '' '' \<notin> set a"
  shows "splitStatKey (a @ CHR '' '' # b) = Inr (a, takeWhile (\<lambda>c. c \<noteq> CHR '' '') b)"
proof -
  have "strings_Split (a @ CHR '' '' # b) CHR '' '' = a # strings_Split b CHR '' ''"
    using assms by (rule strings_Split_append)
  moreover have "strings_Split b CHR '' '' ! 0 = takeWhile (\<lambda>c. c \<noteq> CHR '' '') b"
    using strings_Split_hd [of b "CHR '' ''"] strings_Split_not_Nil [of b "CHR '' ''"]
    by (simp add: hd_conv_nth)
  ultimately show ?thesis
    by (simp add: splitStatKey_def index_def length_strings_Split)
qed

lemma splitStatKey_space:
  assumes "CHR '' '' \<in> set key"
  shows "splitStatKey key = Inr (methodOf key, endpointOf key)"
proof -
  let ?a = "takeWhile (\<lambda>c. c \<noteq> CHR '' '') key"
  let ?b = "tl (dropWhile (\<lambda>c. c \<noteq> CHR '' '') key)"
  have a: "CHR '' '' \<notin> set ?a"
    by (auto dest: set_takeWhileD)
  have "splitStatKey key = splitStatKey (?a @ CHR '' '' # ?b)"
    using key_decomp [OF assms] by simp
  also have "\<dots> = Inr (?a, takeWhile (\<lambda>c. c \<noteq> CHR '' '') ?b)"
    using a by (rule splitStatKey_append)
  finally show ?thesis
    by (simp add: methodOf_def endpointOf_def)
qed

lemma takeWhile_no_sep: "sep \<notin> set b \<Longrightarrow> takeWhile (\<lambda>c. c \<noteq> sep) b = b"
  by (induction b) auto

lemma methodOf_append: "CHR '' '' \<notin> set a \<Longrightarrow> methodOf (a @ CHR '' '' # b) = a"
  unfolding methodOf_def by (induction a) auto

lemma endpointOf_append:
  "CHR '' '' \<notin> set a \<Longrightarrow>
   endpointOf (a @ CHR '' '' # b) = takeWhile (\<lambda>c. c \<noteq> CHR '' '') b"
  unfolding endpointOf_def by (induction a) auto

lemma endpointOf_one_space:
  assumes "count_list key CHR '' '' = 1"
  shows "key = methodOf key @ '' '' @ endpointOf key"
proof -
  have "CHR '' '' \<in> set key"
    using assms count_list_0_iff [of key "CHR '' ''"] by auto
  then obtain a b where k: "key = a @ CHR '' '' # b" and a: "CHR '' '' \<notin> set a"
    by (auto dest: split_list_first)
  have "count_list b CHR '' '' = 0"
    using assms a by (simp add: k)
  then have b: "CHR '' '' \<notin> set b"
    by (simp add: count_list_0_iff)
  show ?thesis
    unfolding k using a b by (simp add: methodOf_append endpointOf_append takeWhile_no_sep)
qed

lemma afterFirstSpace_one_space:
  assumes "count_list key CHR '' '' = 1"
  shows "endpointOf key = afterFirstSpace key"
    and "key = methodOf key @ '' '' @ afterFirstSpace key"
proof -
  have k: "key = methodOf key @ '' '' @ endpointOf key"
    using assms by (rule endpointOf_one_space)
  have "key = methodOf key @ dropWhile (\<lambda>c. c \<noteq> CHR '' '') key"
    by (simp add: methodOf_def)
  then have "dropWhile (\<lambda>c. c \<noteq> CHR '' '') key = '' '' @ endpointOf key"
    using k by (metis same_append_eq)
  then show "endpointOf key = afterFirstSpace key"
    by (simp add: afterFirstSpace_def)
  then show "key = methodOf key @ '' '' @ afterFirstSpace key"
    using k by simp
qed

section \<open>The loops of a collector\<close>

lemma apiGauge_simps:
  "Type (apiGauge n v) = GaugeValue"
  "Value (apiGauge n v) = v"
  "variableLabels (Desc (apiGauge n v)) = [''cluster'']"
  "fqName (Desc (apiGauge n v)) = BuildFQName namespace ''api_stats'' n"
  by (simp_all add: apiGauge_def NewDesc_def defaultAPIStatsLabels_def)

lemma apiVector_simps:
  "Type (apiVector n v) = GaugeValue"
  "Value (apiVector n v) = v"
  "variableLabels (Desc (apiVector n v)) = [''cluster'', ''method'', ''endpoint'']"
  "fqName (Desc (apiVector n v)) = BuildFQName namespace ''api_stats'' n"
  by (simp_all add: apiVector_def NewDesc_def)

lemma clusterGauge_simps:
  "Type (clusterGauge n v) = GaugeValue"
  "Value (clusterGauge n v) = v"
  "variableLabels (Desc (clusterGauge n v)) = [''cluster'']"
  "fqName (Desc (clusterGauge n v)) = BuildFQName namespace ''cluster_metrics'' n"
  by (simp_all add: clusterGauge_def NewDesc_def defaultClusterMetricsLabels_def)

lemma sendMetrics_ok:
  assumes "\<forall>m\<in>set ms. length (variableLabels (Desc m)) = 1"
  shows "sendMetrics u resp ms ch = (ch @ map (scalarSample u resp) ms, None)"
  using assms
  by (induction ms arbitrary: ch) (simp_all add: MustNewConstMetric_def scalarSample_def)

lemma sendValues_ok:
  assumes "\<forall>v\<in>set vs. length (labels v) = length (variableLabels d)"
  shows "sendValues d t vs ch =
           (ch @ map (\<lambda>v. \<lparr>m_desc = d, m_type = t, m_value = lv_value v,
                            m_labelValues = labels v\<rparr>) vs, None)"
  using assms
  by (induction vs arbitrary: ch) (simp_all add: MustNewConstMetric_def)

lemma rangeEntries_ok:
  assumes "\<forall>kv\<in>set m. CHR '' '' \<in> set (fst kv)"
  shows "rangeEntries f u m ret =
           Inr (ret @ map (\<lambda>kv. \<lparr>labels = [u, methodOf (fst kv), endpointOf (fst kv)],
                                  lv_value = f (snd kv)\<rparr>) m)"
  using assms
proof (induction m arbitrary: ret)
  case Nil
  then show ?case by simp
next
  case (Cons kv m)
  obtain key val where kv: "kv = (key, val)" by (cases kv)
  have "splitStatKey key = Inr (methodOf key, endpointOf key)"
    using Cons.prems kv by (simp add: splitStatKey_space)
  then show ?case
    using Cons kv by simp
qed

lemma rangeEntries_panic:
  assumes "\<exists>kv\<in>set m. CHR '' '' \<notin> set (fst kv)"
  shows "rangeEntries f u m ret = Inl (IndexOutOfRange 1 1)"
  using assms
proof (induction m arbitrary: ret)
  case Nil
  then show ?case by simp
next
  case (Cons kv m)
  obtain key val where kv: "kv = (key, val)" by (cases kv)
  show ?case
  proof (cases "CHR '' '' \<in> set key")
    case True
    then have "splitStatKey key = Inr (methodOf key, endpointOf key)"
      by (rule splitStatKey_space)
    moreover have "\<exists>kv\<in>set m. CHR '' '' \<notin> set (fst kv)"
      using Cons.prems True kv by auto
    ultimately show ?thesis
      using Cons.IH kv by simp
  next
    case False
    then show ?thesis
      using kv by (simp add: splitStatKey_no_space)
  qed
qed

lemma sendValues_prefix:
  "sendValues d t vs ch = (ch @ fst (sendValues d t vs []), snd (sendValues d t vs []))"
proof (induction vs arbitrary: ch)
  case Nil
  then show ?case by simp
next
  case (Cons v vs)
  show ?case
  proof (cases "MustNewConstMetric d t (lv_value v) (labels v)")
    case (Inl p)
    then show ?thesis by simp
  next
    case (Inr m)
    then show ?thesis
      using Cons [of "ch @ [m]"] Cons [of "[m]"] by simp
  qed
qed

lemma sendStats_prefix:
  "sendStats resp ss ch = (ch @ fst (sendStats resp ss []), snd (sendStats resp ss []))"
proof (induction ss arbitrary: ch)
  case Nil
  then show ?case by simp
next
  case (Cons s ss)
  show ?case
  proof (cases "Value s resp")
    case (Inl p)
    then show ?thesis by simp
  next
    case (Inr vs)
    obtain out q where sv: "sendValues (Desc s) (Type s) vs [] = (out, q)"
      by (cases "sendValues (Desc s) (Type s) vs []")
    then have sv': "sendValues (Desc s) (Type s) vs ch = (ch @ out, q)"
      using sendValues_prefix [of "Desc s" "Type s" vs ch] by simp
    show ?thesis
    proof (cases q)
      case None
      then show ?thesis
        using Inr sv sv' Cons [of "ch @ out"] Cons [of out] by simp
    next
      case (Some p)
      then show ?thesis
        using Inr sv sv' by simp
    qed
  qed
qed

lemma stats_NewAPIStats:
  "stats (NewAPIStats u) =
     [apiVector ''latency_seconds''
        (\<lambda>resp. rangeEntries (\<lambda>val. float64_div val 1000) u (Latency resp) []),
      apiVector ''requests_per_second''
        (\<lambda>resp. rangeEntries (\<lambda>val. val) u (RequestsPerSecond resp) [])]"
  by (simp add: NewAPIStats_def)

lemma Desc_apiVector:
  "Desc (apiVector ''latency_seconds'' v) = latencyDesc"
  "Desc (apiVector ''requests_per_second'' v) = requestsPerSecondDesc"
  by (simp_all add: apiVector_def latencyDesc_def requestsPerSecondDesc_def BuildFQName_def
        namespace_def)

lemma variableLabels_vector:
  "variableLabels latencyDesc = [''cluster'', ''method'', ''endpoint'']"
  "variableLabels requestsPerSecondDesc = [''cluster'', ''method'', ''endpoint'']"
  by (simp_all add: latencyDesc_def requestsPerSecondDesc_def NewDesc_def)

lemma sendValues_vector:
  assumes "length (variableLabels d) = 3"
  shows "sendValues d GaugeValue
           (map (\<lambda>kv. \<lparr>labels = [u, methodOf (fst kv), endpointOf (fst kv)],
                          lv_value = f (snd kv)\<rparr>) m) ch =
         (ch @ map (vectorSample d u f) m, None)"
proof -
  let ?vs = "map (\<lambda>kv. \<lparr>labels = [u, methodOf (fst kv), endpointOf (fst kv)],
                             lv_value = f (snd kv)\<rparr>) m"
  have "sendValues d GaugeValue ?vs ch =
          (ch @ map (\<lambda>v. \<lparr>m_desc = d, m_type = GaugeValue, m_value = lv_value v,
                            m_labelValues = labels v\<rparr>) ?vs, None)"
    by (rule sendValues_ok) (simp add: assms)
  then show ?thesis
    by (simp add: vectorSample_def comp_def)
qed

lemma sendStats_ok:
  assumes "\<forall>kv\<in>set (Latency resp). CHR '' '' \<in> set (fst kv)"
    and "\<forall>kv\<in>set (RequestsPerSecond resp). CHR '' '' \<in> set (fst kv)"
  shows "sendStats resp (stats (NewAPIStats u)) ch =
           (ch @ map (vectorSample latencyDesc u (\<lambda>val. float64_div val 1000)) (Latency resp)
               @ map (vectorSample requestsPerSecondDesc u (\<lambda>val. val))
                   (RequestsPerSecond resp), None)"
  using assms
  by (simp add: stats_NewAPIStats apiVector_simps(1,2) Desc_apiVector rangeEntries_ok
        sendValues_vector [where f = "\<lambda>val. float64_div val 1000"]
        sendValues_vector [where f = "\<lambda>val. val"] variableLabels_vector)

lemma sendStats_panic_latency:
  assumes "\<exists>kv\<in>set (Latency resp). CHR '' '' \<notin> set (fst kv)"
  shows "sendStats resp (stats (NewAPIStats u)) ch = (ch, Some (IndexOutOfRange 1 1))"
  by (simp add: stats_NewAPIStats apiVector_simps(1,2) rangeEntries_panic [OF assms])

lemma sendStats_panic_requests:
  assumes "\<forall>kv\<in>set (Latency resp). CHR '' '' \<in> set (fst kv)"
    and "\<exists>kv\<in>set (RequestsPerSecond resp). CHR '' '' \<notin> set (fst kv)"
  shows "sendStats resp (stats (NewAPIStats u)) ch =
           (ch @ map (vectorSample latencyDesc u (\<lambda>val. float64_div val 1000)) (Latency resp),
            Some (IndexOutOfRange 1 1))"
  using assms(1)
  by (simp add: stats_NewAPIStats apiVector_simps(1,2) Desc_apiVector rangeEntries_ok
        sendValues_vector [where f = "\<lambda>val. float64_div val 1000"] variableLabels_vector
        rangeEntries_panic [OF assms(2)])

section \<open>One scrape, by the outcome of the fetch\<close>

lemma metrics_NewAPIStats_labels:
  "\<forall>m\<in>set (metrics (NewAPIStats u)). length (variableLabels (Desc m)) = 1"
  by (simp add: NewAPIStats_def apiGauge_simps)

lemma metrics_NewClusterMetrics_labels:
  "\<forall>m\<in>set (metrics (NewClusterMetrics u)). length (variableLabels (Desc m)) = 1"
  by (simp add: NewClusterMetrics_def clusterGauge_simps)

lemma withValues_simps:
  "url (withValues c x n k) = url c"
  "metrics (withValues c x n k) = metrics c"
  "gauge_val (up (withValues c x n k)) = x"
  "gauge_desc (up (withValues c x n k)) = gauge_desc (up c)"
  "counter_val (totalScrapes (withValues c x n k)) = n"
  "counter_desc (totalScrapes (withValues c x n k)) = counter_desc (totalScrapes c)"
  "counter_val (jsonParseFailures (withValues c x n k)) = k"
  "counter_desc (jsonParseFailures (withValues c x n k)) = counter_desc (jsonParseFailures c)"
  by (simp_all add: withValues_def)

lemma stats_withValues: "stats (withValues c x n k) = stats c"
  by (simp add: withValues_def)

text \<open>API stats, by the outcome of the fetch.\<close>

lemma APIStats_Collect_GetError:
  "APIStats_Collect json (Inl e) c =
     (let c' = c\<lparr>totalScrapes := Counter_Inc (totalScrapes c), up := Gauge_Set (up c) 0\<rparr>
      in (c', deferred c' [], None))"
  by (simp add: APIStats_Collect_def fetchAndDecodeAPIStats_def Let_def)

lemma APIStats_Collect_StatusError:
  assumes "StatusCode res \<noteq> StatusOK"
  shows "APIStats_Collect json (Inr res) c =
     (let c' = c\<lparr>totalScrapes := Counter_Inc (totalScrapes c), up := Gauge_Set (up c) 0\<rparr>
      in (c', deferred c' [], None))"
  using assms by (simp add: APIStats_Collect_def fetchAndDecodeAPIStats_def Let_def)

lemma APIStats_Collect_ReadError:
  assumes "StatusCode res = StatusOK" and "Body res = Unreadable e"
  shows "APIStats_Collect json (Inr res) c =
     (let c' = c\<lparr>totalScrapes := Counter_Inc (totalScrapes c),
                   jsonParseFailures := Counter_Inc (jsonParseFailures c),
                   up := Gauge_Set (up c) 0\<rparr>
      in (c', deferred c' [], None))"
  using assms by (simp add: APIStats_Collect_def fetchAndDecodeAPIStats_def Let_def)

lemma APIStats_Collect_UnmarshalError:
  assumes "StatusCode res = StatusOK" and "Body res = Bytes bts"
    and "json bts zero_apiStatsResponse = (resp, Some e)"
  shows "APIStats_Collect json (Inr res) c =
     (let c' = c\<lparr>totalScrapes := Counter_Inc (totalScrapes c),
                   jsonParseFailures := Counter_Inc (jsonParseFailures c),
                   up := Gauge_Set (up c) 0\<rparr>
      in (c', deferred c' [], None))"
  using assms by (simp add: APIStats_Collect_def fetchAndDecodeAPIStats_def Let_def)

lemma APIStats_Collect_decoded:
  assumes "StatusCode res = StatusOK" and "Body res = Bytes bts"
    and "json bts zero_apiStatsResponse = (resp, None)"
    and "\<forall>m\<in>set (metrics c). length (variableLabels (Desc m)) = 1"
  shows "APIStats_Collect json (Inr res) c =
     (let c' = c\<lparr>totalScrapes := Counter_Inc (totalScrapes c), up := Gauge_Set (up c) 1\<rparr>
      in (c', deferred c' (map (scalarSample (url c) resp) (metrics c)
                             @ fst (sendStats resp (stats c) [])),
          snd (sendStats resp (stats c) [])))"
proof -
  let ?ch = "map (scalarSample (url c) resp) (metrics c)"
  have "sendStats resp (stats c) ?ch =
          (?ch @ fst (sendStats resp (stats c) []), snd (sendStats resp (stats c) []))"
    by (rule sendStats_prefix)
  then show ?thesis
    using assms
    by (simp add: APIStats_Collect_def fetchAndDecodeAPIStats_def Let_def sendMetrics_ok)
qed

text \<open>Cluster metrics, by the outcome of the fetch.\<close>

lemma ClusterMetrics_Collect_GetError:
  "ClusterMetrics_Collect json (Inl e) c =
     (let c' = c\<lparr>totalScrapes := Counter_Inc (totalScrapes c), up := Gauge_Set (up c) 0\<rparr>
      in (c', deferred c' [], None))"
  by (simp add: ClusterMetrics_Collect_def fetchAndDecodeClusterMetrics_def Let_def)

lemma ClusterMetrics_Collect_StatusError:
  assumes "StatusCode res \<noteq> StatusOK"
  shows "ClusterMetrics_Collect json (Inr res) c =
     (let c' = c\<lparr>totalScrapes := Counter_Inc (totalScrapes c), up := Gauge_Set (up c) 0\<rparr>
      in (c', deferred c' [], None))"
  using assms by (simp add: ClusterMetrics_Collect_def fetchAndDecodeClusterMetrics_def Let_def)

lemma ClusterMetrics_Collect_ReadError:
  assumes "StatusCode res = StatusOK" and "Body res = Unreadable e"
  shows "ClusterMetrics_Collect json (Inr res) c =
     (let c' = c\<lparr>totalScrapes := Counter_Inc (totalScrapes c),
                   jsonParseFailures := Counter_Inc (jsonParseFailures c),
                   up := Gauge_Set (up c) 0\<rparr>
      in (c', deferred c' [], None))"
  using assms by (simp add: ClusterMetrics_Collect_def fetchAndDecodeClusterMetrics_def Let_def)

lemma ClusterMetrics_Collect_UnmarshalError:
  assumes "StatusCode res = StatusOK" and "Body res = Bytes bts"
    and "json bts zero_clusterMetricsResponse = (resp, Some e)"
  shows "ClusterMetrics_Collect json (Inr res) c =
     (let c' = c\<lparr>totalScrapes := Counter_Inc (totalScrapes c),
                   jsonParseFailures := Counter_Inc (jsonParseFailures c),
                   up := Gauge_Set (up c) 0\<rparr>
      in (c', deferred c' [], None))"
  using assms by (simp add: ClusterMetrics_Collect_def fetchAndDecodeClusterMetrics_def Let_def)

lemma ClusterMetrics_Collect_decoded:
  assumes "StatusCode res = StatusOK" and "Body res = Bytes bts"
    and "json bts zero_clusterMetricsResponse = (resp, None)"
    and "\<forall>m\<in>set (metrics c). length (variableLabels (Desc m)) = 1"
  shows "ClusterMetrics_Collect json (Inr res) c =
     (let c' = c\<lparr>totalScrapes := Counter_Inc (totalScrapes c), up := Gauge_Set (up c) 1\<rparr>
      in (c', deferred c' (map (scalarSample (url c) resp) (metrics c)), None))"
  using assms
  by (simp add: ClusterMetrics_Collect_def fetchAndDecodeClusterMetrics_def Let_def
        sendMetrics_ok)

lemma APIStats_Collect_decodeFails:
  assumes "StatusCode res = StatusOK" and "decodeFails json zero_apiStatsResponse (Body res)"
  shows "APIStats_Collect json (Inr res) c =
     (let c' = c\<lparr>totalScrapes := Counter_Inc (totalScrapes c),
                   jsonParseFailures := Counter_Inc (jsonParseFailures c),
                   up := Gauge_Set (up c) 0\<rparr>
      in (c', deferred c' [], None))"
proof (cases "Body res")
  case (Unreadable e)
  then show ?thesis
    using assms(1) by (rule APIStats_Collect_ReadError [rotated])
next
  case (Bytes bts)
  then obtain resp e where "json bts zero_apiStatsResponse = (resp, Some e)"
    using assms(2) by (cases "json bts zero_apiStatsResponse") (auto simp: decodeFails_def)
  then show ?thesis
    using assms(1) Bytes by (simp add: APIStats_Collect_UnmarshalError)
qed

lemma ClusterMetrics_Collect_decodeFails:
  assumes "StatusCode res = StatusOK"
    and "decodeFails json zero_clusterMetricsResponse (Body res)"
  shows "ClusterMetrics_Collect json (Inr res) c =
     (let c' = c\<lparr>totalScrapes := Counter_Inc (totalScrapes c),
                   jsonParseFailures := Counter_Inc (jsonParseFailures c),
                   up := Gauge_Set (up c) 0\<rparr>
      in (c', deferred c' [], None))"
proof (cases "Body res")
  case (Unreadable e)
  then show ?thesis
    using assms(1) by (rule ClusterMetrics_Collect_ReadError [rotated])
next
  case (Bytes bts)
  then obtain resp e where "json bts zero_clusterMetricsResponse = (resp, Some e)"
    using assms(2)
    by (cases "json bts zero_clusterMetricsResponse") (auto simp: decodeFails_def)
  then show ?thesis
    using assms(1) Bytes by (simp add: ClusterMetrics_Collect_UnmarshalError)
qed

lemmas result_defs = state_of_def sent_by_def panic_of_def

section \<open>A scrape that does not reach the decoder\<close>

lemma New_values:
  "gauge_val (up (NewAPIStats u)) = 0"
  "counter_val (totalScrapes (NewAPIStats u)) = 0"
  "counter_val (jsonParseFailures (NewAPIStats u)) = 0"
  "gauge_val (up (NewClusterMetrics u)) = 0"
  "counter_val (totalScrapes (NewClusterMetrics u)) = 0"
  "counter_val (jsonParseFailures (NewClusterMetrics u)) = 0"
  by (simp_all add: NewAPIStats_def NewClusterMetrics_def NewGauge_def NewCounter_def)

text \<open>
  Claim C4. When the upstream answers with a status other than 200 (500, say), either
  collector sets its up gauge to 0, adds exactly one to its scrape counter, leaves its
  parse-failure counter as it was, and sends nothing but the three endpoint-health samples;
  it does not panic. Neither the body nor the decoder is consulted: with any other body and
  any other decoder the result is the same.
\<close>

theorem status_error_scrape:
  assumes "StatusCode res \<noteq> StatusOK"
  shows "(let r = APIStats_Collect json (Inr res) a in
            gauge_val (up (state_of r)) = 0
          \<and> counter_val (totalScrapes (state_of r)) = counter_val (totalScrapes a) + 1
          \<and> counter_val (jsonParseFailures (state_of r)) = counter_val (jsonParseFailures a)
          \<and> sent_by r = [gaugeMetric (up (state_of r)), counterMetric (totalScrapes (state_of r)),
                          counterMetric (jsonParseFailures (state_of r))]
          \<and> panic_of r = None
          \<and> APIStats_Collect json' (Inr (res\<lparr>Body := b\<rparr>)) a = r)
       \<and> (let r = ClusterMetrics_Collect cjson (Inr res) c in
            gauge_val (up (state_of r)) = 0
          \<and> counter_val (totalScrapes (state_of r)) = counter_val (totalScrapes c) + 1
          \<and> counter_val (jsonParseFailures (state_of r)) = counter_val (jsonParseFailures c)
          \<and> sent_by r = [gaugeMetric (up (state_of r)), counterMetric (totalScrapes (state_of r)),
                          counterMetric (jsonParseFailures (state_of r))]
          \<and> panic_of r = None
          \<and> ClusterMetrics_Collect cjson' (Inr (res\<lparr>Body := b\<rparr>)) c = r)"
proof -
  have "StatusCode (res\<lparr>Body := b\<rparr>) \<noteq> StatusOK"
    using assms by simp
  then show ?thesis
    using assms
    by (simp add: APIStats_Collect_StatusError ClusterMetrics_Collect_StatusError Let_def
          result_defs deferred_def Gauge_Set_def Counter_Inc_def)
qed

text \<open>Witness for C4: both collectors, freshly built, against an upstream answering 500.\<close>

theorem status_error_scrape_witness:
  "StatusCode (response 500 ''Internal Server Error'') \<noteq> StatusOK
   \<and> (let r = APIStats_Collect (decodeAs searchAndDocuments)
                (Inr (response 500 ''Internal Server Error'')) (NewAPIStats localhost) in
        gauge_val (up (state_of r)) = 0
      \<and> counter_val (totalScrapes (state_of r)) = 1
      \<and> counter_val (jsonParseFailures (state_of r)) = 0
      \<and> sent_by r = [gaugeMetric (up (state_of r)), counterMetric (totalScrapes (state_of r)),
                      counterMetric (jsonParseFailures (state_of r))]
      \<and> panic_of r = None
      \<and> APIStats_Collect (failWith zero_apiStatsResponse ''unexpected end of JSON input'')
            (Inr (response 500 ''Internal Server Error''\<lparr>Body := Unreadable ''EOF''\<rparr>))
            (NewAPIStats localhost) = r)
   \<and> (let r = ClusterMetrics_Collect (decodeAs memoryActive)
                (Inr (response 500 ''Internal Server Error'')) (NewClusterMetrics localhost) in
        gauge_val (up (state_of r)) = 0
      \<and> counter_val (totalScrapes (state_of r)) = 1
      \<and> counter_val (jsonParseFailures (state_of r)) = 0
      \<and> sent_by r = [gaugeMetric (up (state_of r)), counterMetric (totalScrapes (state_of r)),
                      counterMetric (jsonParseFailures (state_of r))]
      \<and> panic_of r = None
      \<and> ClusterMetrics_Collect
            (failWith zero_clusterMetricsResponse ''unexpected end of JSON input'')
            (Inr (response 500 ''Internal Server Error''\<lparr>Body := Unreadable ''EOF''\<rparr>))
            (NewClusterMetrics localhost) = r)"
proof -
  have h: "StatusCode (response 500 ''Internal Server Error'') \<noteq> StatusOK"
    by (simp add: response_def StatusOK_def)
  show ?thesis
    using h status_error_scrape [OF h, of "decodeAs searchAndDocuments"
        "NewAPIStats localhost"
        "failWith zero_apiStatsResponse ''unexpected end of JSON input''" "Unreadable ''EOF''"
        "decodeAs memoryActive" "NewClusterMetrics localhost"
        "failWith zero_clusterMetricsResponse ''unexpected end of JSON input''"]
    by (simp add: Let_def New_values)
qed

section \<open>A scrape whose body does not decode\<close>

text \<open>
  Claim C5. When the upstream answers 200 and the body cannot be read, or the decoder
  returns an error on it (malformed JSON, or a cluster-metrics field that is tagged as a
  number inside a string and does not parse as one: \<open>json.Unmarshal\<close> reports either as an
  error), the scrape is a failed one: the parse-failure counter and the scrape counter
  each go up by exactly one, the up gauge is 0, and only the three endpoint-health samples
  are sent. Whatever fields the decoder had filled in before it failed are not exposed.
\<close>

theorem decode_failure_scrape:
  assumes "StatusCode res = StatusOK"
    and "decodeFails json zero_apiStatsResponse (Body res)"
    and "StatusCode cres = StatusOK"
    and "decodeFails cjson zero_clusterMetricsResponse (Body cres)"
  shows "(let r = APIStats_Collect json (Inr res) a in
            gauge_val (up (state_of r)) = 0
          \<and> counter_val (totalScrapes (state_of r)) = counter_val (totalScrapes a) + 1
          \<and> counter_val (jsonParseFailures (state_of r)) =
              counter_val (jsonParseFailures a) + 1
          \<and> sent_by r = [gaugeMetric (up (state_of r)), counterMetric (totalScrapes (state_of r)),
                          counterMetric (jsonParseFailures (state_of r))]
          \<and> panic_of r = None)
       \<and> (let r = ClusterMetrics_Collect cjson (Inr cres) c in
            gauge_val (up (state_of r)) = 0
          \<and> counter_val (totalScrapes (state_of r)) = counter_val (totalScrapes c) + 1
          \<and> counter_val (jsonParseFailures (state_of r)) =
              counter_val (jsonParseFailures c) + 1
          \<and> sent_by r = [gaugeMetric (up (state_of r)), counterMetric (totalScrapes (state_of r)),
                          counterMetric (jsonParseFailures (state_of r))]
          \<and> panic_of r = None)"
  using assms
  by (simp add: APIStats_Collect_decodeFails ClusterMetrics_Collect_decodeFails Let_def
        result_defs deferred_def Gauge_Set_def Counter_Inc_def)

text \<open>
  Witness for C5: a truncated body for the API-stats collector, and for the cluster-metrics
  collector a body whose second quoted number does not parse, the decoder having stored the
  first one before it fails.
\<close>

theorem decode_failure_scrape_witness:
  "StatusCode (response 200 ''{\"latency_ms\":{\"GET /health\":0.1'') = StatusOK
   \<and> decodeFails (failWith zero_apiStatsResponse ''unexpected end of JSON input'')
        zero_apiStatsResponse (Body (response 200 ''{\"latency_ms\":{\"GET /health\":0.1''))
   \<and> StatusCode
        (response 200 ''{\"system_disk_total_bytes\":\"7\",\"system_disk_used_bytes\":\"12x\"}'')
       = StatusOK
   \<and> decodeFails (failWith diskTotalOnly ''invalid use of ,string struct tag'')
        zero_clusterMetricsResponse
        (Body (response 200
           ''{\"system_disk_total_bytes\":\"7\",\"system_disk_used_bytes\":\"12x\"}''))
   \<and> (let r = APIStats_Collect (failWith zero_apiStatsResponse ''unexpected end of JSON input'')
                (Inr (response 200 ''{\"latency_ms\":{\"GET /health\":0.1''))
                (NewAPIStats localhost) in
        gauge_val (up (state_of r)) = 0
      \<and> counter_val (totalScrapes (state_of r)) = 1
      \<and> counter_val (jsonParseFailures (state_of r)) = 1
      \<and> sent_by r = [gaugeMetric (up (state_of r)), counterMetric (totalScrapes (state_of r)),
                      counterMetric (jsonParseFailures (state_of r))]
      \<and> panic_of r = None)
   \<and> (let r = ClusterMetrics_Collect
                (failWith diskTotalOnly ''invalid use of ,string struct tag'')
                (Inr (response 200
                   ''{\"system_disk_total_bytes\":\"7\",\"system_disk_used_bytes\":\"12x\"}''))
                (NewClusterMetrics localhost) in
        gauge_val (up (state_of r)) = 0
      \<and> counter_val (totalScrapes (state_of r)) = 1
      \<and> counter_val (jsonParseFailures (state_of r)) = 1
      \<and> sent_by r = [gaugeMetric (up (state_of r)), counterMetric (totalScrapes (state_of r)),
                      counterMetric (jsonParseFailures (state_of r))]
      \<and> panic_of r = None)"
proof -
  let ?res = "response 200 ''{\"latency_ms\":{\"GET /health\":0.1''"
  let ?cres = "response 200
     ''{\"system_disk_total_bytes\":\"7\",\"system_disk_used_bytes\":\"12x\"}''"
  let ?json = "failWith zero_apiStatsResponse ''unexpected end of JSON input''"
  let ?cjson = "failWith diskTotalOnly ''invalid use of ,string struct tag''"
  have h1: "StatusCode ?res = StatusOK"
    by (simp add: response_def StatusOK_def)
  have h2: "decodeFails ?json zero_apiStatsResponse (Body ?res)"
    by (simp add: decodeFails_def response_def failWith_def)
  have h3: "StatusCode ?cres = StatusOK"
    by (simp add: response_def StatusOK_def)
  have h4: "decodeFails ?cjson zero_clusterMetricsResponse (Body ?cres)"
    by (simp add: decodeFails_def response_def failWith_def)
  show ?thesis
    using h1 h2 h3 h4
      decode_failure_scrape [OF h1 h2 h3 h4, of "NewAPIStats localhost"
        "NewClusterMetrics localhost"]
    by (simp add: Let_def New_values)
qed

section \<open>Which descriptors the samples of a scrape carry\<close>

lemma sendMetrics_descs:
  "m \<in> set (fst (sendMetrics u resp ms ch)) \<Longrightarrow> m \<in> set ch \<or> m_desc m \<in> Desc ` set ms"
proof (induction ms arbitrary: ch)
  case Nil
  then show ?case by simp
next
  case (Cons d ms)
  show ?case
  proof (cases "MustNewConstMetric (Desc d) (Type d) (Value d resp) [u]")
    case (Inl p)
    then show ?thesis using Cons.prems by simp
  next
    case (Inr x)
    then have "m_desc x = Desc d"
      by (auto simp: MustNewConstMetric_def split: if_splits)
    then show ?thesis
      using Cons.IH [of "ch @ [x]"] Cons.prems Inr by auto
  qed
qed

lemma sendValues_descs:
  "m \<in> set (fst (sendValues d t vs ch)) \<Longrightarrow> m \<in> set ch \<or> m_desc m = d"
proof (induction vs arbitrary: ch)
  case Nil
  then show ?case by simp
next
  case (Cons v vs)
  show ?case
  proof (cases "MustNewConstMetric d t (lv_value v) (labels v)")
    case (Inl p)
    then show ?thesis using Cons.prems by simp
  next
    case (Inr x)
    then have "m_desc x = d"
      by (auto simp: MustNewConstMetric_def split: if_splits)
    then show ?thesis
      using Cons.IH [of "ch @ [x]"] Cons.prems Inr by auto
  qed
qed

lemma sendStats_descs:
  "m \<in> set (fst (sendStats resp ss ch)) \<Longrightarrow> m \<in> set ch \<or> m_desc m \<in> Desc ` set ss"
proof (induction ss arbitrary: ch)
  case Nil
  then show ?case by simp
next
  case (Cons s ss)
  show ?case
  proof (cases "Value s resp")
    case (Inl p)
    then show ?thesis using Cons.prems by simp
  next
    case (Inr vs)
    obtain out q where sv: "sendValues (Desc s) (Type s) vs ch = (out, q)"
      by (cases "sendValues (Desc s) (Type s) vs ch")
    have out: "\<And>x. x \<in> set out \<Longrightarrow> x \<in> set ch \<or> m_desc x = Desc s"
      using sendValues_descs [of _ "Desc s" "Type s" vs ch] sv by simp
    show ?thesis
    proof (cases q)
      case None
      then have "m \<in> set (fst (sendStats resp ss out))"
        using Cons.prems Inr sv by simp
      then have "m \<in> set out \<or> m_desc m \<in> Desc ` set ss"
        by (rule Cons.IH)
      then show ?thesis
        using out by auto
    next
      case (Some p)
      then have "m \<in> set out"
        using Cons.prems Inr sv by simp
      then show ?thesis
        using out by auto
    qed
  qed
qed

lemma samplesOf_append: "samplesOf d (xs @ ys) = samplesOf d xs @ samplesOf d ys"
  by (simp add: samplesOf_def)

lemma samplesOf_none: "\<forall>m\<in>set xs. m_desc m \<noteq> d \<Longrightarrow> samplesOf d xs = []"
  by (simp add: samplesOf_def)

lemma m_desc_scalarSample: "m_desc (scalarSample u resp d) = Desc d"
  by (simp add: scalarSample_def)

lemma samplesOf_scalar:
  assumes "distinct (map Desc ms)" and "d \<in> set ms"
  shows "samplesOf (Desc d) (map (scalarSample u resp) ms) = [scalarSample u resp d]"
  using assms
proof (induction ms)
  case Nil
  then show ?case by simp
next
  case (Cons a ms)
  show ?case
  proof (cases "d = a")
    case True
    have "\<forall>m\<in>set ms. Desc m \<noteq> Desc a"
      using Cons.prems(1) by (auto simp: image_iff)
    then have "\<forall>m\<in>set (map (scalarSample u resp) ms). m_desc m \<noteq> Desc a"
      by (simp add: m_desc_scalarSample)
    then have "samplesOf (Desc a) (map (scalarSample u resp) ms) = []"
      by (rule samplesOf_none)
    then show ?thesis
      using True by (simp add: samplesOf_def m_desc_scalarSample)
  next
    case False
    then have "d \<in> set ms" using Cons.prems(2) by simp
    moreover have "Desc a \<noteq> Desc d"
      using Cons.prems(1) \<open>d \<in> set ms\<close> by (auto simp: image_iff)
    ultimately show ?thesis
      using Cons by (simp add: samplesOf_def m_desc_scalarSample)
  qed
qed

lemma BuildFQName_typesense:
  "n \<noteq> [] \<Longrightarrow> s \<noteq> [] \<Longrightarrow> BuildFQName namespace s n = ''typesense_'' @ s @ ''_'' @ n"
  by (simp add: BuildFQName_def namespace_def)

lemma distinct_metrics_NewAPIStats: "distinct (map Desc (metrics (NewAPIStats u)))"
  by (simp add: NewAPIStats_def apiGauge_def NewDesc_def BuildFQName_typesense)

lemma distinct_metrics_NewClusterMetrics: "distinct (map Desc (metrics (NewClusterMetrics u)))"
  by (simp add: NewClusterMetrics_def clusterGauge_def NewDesc_def BuildFQName_typesense)

section \<open>One scrape, whatever its outcome\<close>

lemma get_result_cases [case_names GetError StatusError ReadError UnmarshalError Decoded]:
  fixes got :: get_result and json :: "'r unmarshal" and zero :: 'r
  obtains e where "got = Inl e"
  | res where "got = Inr res" and "StatusCode res \<noteq> StatusOK"
  | res e where "got = Inr res" and "StatusCode res = StatusOK" and "Body res = Unreadable e"
  | res bts resp e where "got = Inr res" and "StatusCode res = StatusOK"
      and "Body res = Bytes bts" and "json bts zero = (resp, Some e)"
  | res bts resp where "got = Inr res" and "StatusCode res = StatusOK"
      and "Body res = Bytes bts" and "json bts zero = (resp, None)"
proof (cases got)
  case (Inl e)
  then show ?thesis by (rule that(1))
next
  case (Inr res)
  show ?thesis
  proof (cases "StatusCode res = StatusOK")
    case False
    with Inr show ?thesis by (rule that(2))
  next
    case True
    show ?thesis
    proof (cases "Body res")
      case (Unreadable e)
      with Inr True show ?thesis by (rule that(3))
    next
      case (Bytes bts)
      obtain resp eo where j: "json bts zero = (resp, eo)"
        by (cases "json bts zero")
      show ?thesis
      proof (cases eo)
        case None
        with Inr True Bytes j show ?thesis by (auto intro: that(5))
      next
        case (Some e)
        with Inr True Bytes j show ?thesis by (auto intro: that(4))
      qed
    qed
  qed
qed

lemma fetchAndDecodeAPIStats_keeps:
  assumes "fetchAndDecodeAPIStats json got c = (c2, resp, e)"
  shows "url c2 = url c \<and> metrics c2 = metrics c \<and> stats c2 = stats c
       \<and> up c2 = up c \<and> totalScrapes c2 = totalScrapes c
       \<and> counter_desc (jsonParseFailures c2) = counter_desc (jsonParseFailures c)
       \<and> counter_val (jsonParseFailures c) \<le> counter_val (jsonParseFailures c2)"
  using assms
  by (auto simp: fetchAndDecodeAPIStats_def Let_def Counter_Inc_def
        split: sum.splits if_splits body.splits prod.splits option.splits)

lemma fetchAndDecodeClusterMetrics_keeps:
  assumes "fetchAndDecodeClusterMetrics json got c = (c2, resp, e)"
  shows "url c2 = url c \<and> metrics c2 = metrics c
       \<and> up c2 = up c \<and> totalScrapes c2 = totalScrapes c
       \<and> counter_desc (jsonParseFailures c2) = counter_desc (jsonParseFailures c)
       \<and> counter_val (jsonParseFailures c) \<le> counter_val (jsonParseFailures c2)"
  using assms
  by (auto simp: fetchAndDecodeClusterMetrics_def Let_def Counter_Inc_def
        split: sum.splits if_splits body.splits prod.splits option.splits)

lemma APIStats_Collect_shape:
  obtains fields where
    "sent_by (APIStats_Collect json got c) =
       fields @ deferred (state_of (APIStats_Collect json got c)) []"
    and "\<forall>m\<in>set fields. m_desc m \<in> Desc ` set (metrics c) \<union> Desc ` set (stats c)"
proof -
  let ?c1 = "c\<lparr>totalScrapes := Counter_Inc (totalScrapes c)\<rparr>"
  obtain c2 resp e where f: "fetchAndDecodeAPIStats json got ?c1 = (c2, resp, e)"
    by (cases "fetchAndDecodeAPIStats json got ?c1") auto
  note k = fetchAndDecodeAPIStats_keeps [OF f]
  show ?thesis
  proof (cases e)
    case (Some err)
    then have "sent_by (APIStats_Collect json got c) =
        [] @ deferred (state_of (APIStats_Collect json got c)) []"
      using f by (simp add: APIStats_Collect_def Let_def result_defs deferred_def)
    then show ?thesis
      by (rule that) simp
  next
    case None
    let ?c3 = "c2\<lparr>up := Gauge_Set (up c2) 1\<rparr>"
    obtain ch p where sm: "sendMetrics (url ?c3) resp (metrics ?c3) [] = (ch, p)"
      by (cases "sendMetrics (url ?c3) resp (metrics ?c3) []")
    have ch: "\<forall>m\<in>set ch. m_desc m \<in> Desc ` set (metrics c)"
      using sendMetrics_descs [of _ "url ?c3" resp "metrics ?c3" "[]"] sm k by auto
    show ?thesis
    proof (cases p)
      case (Some q)
      then have "sent_by (APIStats_Collect json got c) =
          ch @ deferred (state_of (APIStats_Collect json got c)) []"
        using f None sm by (simp add: APIStats_Collect_def Let_def result_defs deferred_def)
      then show ?thesis
        using ch by (auto intro: that)
    next
      case pNone: None
      obtain ch' p' where ss: "sendStats resp (stats ?c3) ch = (ch', p')"
        by (cases "sendStats resp (stats ?c3) ch")
      have "\<forall>m\<in>set ch'. m_desc m \<in> Desc ` set (metrics c) \<union> Desc ` set (stats c)"
        using sendStats_descs [of _ resp "stats ?c3" ch] ss ch k by auto
      moreover have "sent_by (APIStats_Collect json got c) =
          ch' @ deferred (state_of (APIStats_Collect json got c)) []"
        using f None sm pNone ss
        by (simp add: APIStats_Collect_def Let_def result_defs deferred_def)
      ultimately show ?thesis
        by (auto intro: that)
    qed
  qed
qed

lemma ClusterMetrics_Collect_shape:
  obtains fields where
    "sent_by (ClusterMetrics_Collect json got c) =
       fields @ deferred (state_of (ClusterMetrics_Collect json got c)) []"
    and "\<forall>m\<in>set fields. m_desc m \<in> Desc ` set (metrics c)"
proof -
  let ?c1 = "c\<lparr>totalScrapes := Counter_Inc (totalScrapes c)\<rparr>"
  obtain c2 resp e where f: "fetchAndDecodeClusterMetrics json got ?c1 = (c2, resp, e)"
    by (cases "fetchAndDecodeClusterMetrics json got ?c1") auto
  note k = fetchAndDecodeClusterMetrics_keeps [OF f]
  show ?thesis
  proof (cases e)
    case (Some err)
    then have "sent_by (ClusterMetrics_Collect json got c) =
        [] @ deferred (state_of (ClusterMetrics_Collect json got c)) []"
      using f by (simp add: ClusterMetrics_Collect_def Let_def result_defs deferred_def)
    then show ?thesis
      by (rule that) simp
  next
    case None
    let ?c3 = "c2\<lparr>up := Gauge_Set (up c2) 1\<rparr>"
    obtain ch p where sm: "sendMetrics (url ?c3) resp (metrics ?c3) [] = (ch, p)"
      by (cases "sendMetrics (url ?c3) resp (metrics ?c3) []")
    have ch: "\<forall>m\<in>set ch. m_desc m \<in> Desc ` set (metrics c)"
      using sendMetrics_descs [of _ "url ?c3" resp "metrics ?c3" "[]"] sm k by auto
    have "sent_by (ClusterMetrics_Collect json got c) =
        ch @ deferred (state_of (ClusterMetrics_Collect json got c)) []"
      using f None sm by (simp add: ClusterMetrics_Collect_def Let_def result_defs deferred_def)
    then show ?thesis
      using ch by (auto intro: that)
  qed
qed

text \<open>What a scrape does to the gauge and the counters, whatever its outcome.\<close>

lemma fetchAndDecodeAPIStats_error:
  "snd (snd (fetchAndDecodeAPIStats json got c)) = snd (snd (fetchAndDecodeAPIStats json got c'))"
  by (simp add: fetchAndDecodeAPIStats_def Let_def
        split: sum.splits body.splits prod.splits option.splits)

lemma fetchAndDecodeClusterMetrics_error:
  "snd (snd (fetchAndDecodeClusterMetrics json got c)) =
   snd (snd (fetchAndDecodeClusterMetrics json got c'))"
  by (simp add: fetchAndDecodeClusterMetrics_def Let_def
        split: sum.splits body.splits prod.splits option.splits)

lemma APIStats_Collect_state:
  fixes c :: APIStats and json got
  defines "c' \<equiv> state_of (APIStats_Collect json got c)"
  shows "url c' = url c" and "metrics c' = metrics c" and "stats c' = stats c"
    and "gauge_desc (up c') = gauge_desc (up c)"
    and "counter_desc (totalScrapes c') = counter_desc (totalScrapes c)"
    and "counter_desc (jsonParseFailures c') = counter_desc (jsonParseFailures c)"
    and "counter_val (totalScrapes c') = counter_val (totalScrapes c) + 1"
    and "counter_val (jsonParseFailures c) \<le> counter_val (jsonParseFailures c')"
    and "gauge_val (up c') =
           (if snd (snd (fetchAndDecodeAPIStats json got c)) = None then 1 else 0)"
proof -
  let ?c1 = "c\<lparr>totalScrapes := Counter_Inc (totalScrapes c)\<rparr>"
  obtain c2 resp e where f: "fetchAndDecodeAPIStats json got ?c1 = (c2, resp, e)"
    by (cases "fetchAndDecodeAPIStats json got ?c1") auto
  note k = fetchAndDecodeAPIStats_keeps [OF f]
  have e: "snd (snd (fetchAndDecodeAPIStats json got c)) = e"
    using fetchAndDecodeAPIStats_error [of json got c ?c1] f by simp
  have c': "c' = c2\<lparr>up := Gauge_Set (up c2) (if e = None then 1 else 0)\<rparr>"
    unfolding c'_def using f
    by (simp add: APIStats_Collect_def Let_def state_of_def split: prod.splits option.splits)
  show "url c' = url c" and "metrics c' = metrics c" and "stats c' = stats c"
    and "gauge_desc (up c') = gauge_desc (up c)"
    and "counter_desc (totalScrapes c') = counter_desc (totalScrapes c)"
    and "counter_desc (jsonParseFailures c') = counter_desc (jsonParseFailures c)"
    and "counter_val (totalScrapes c') = counter_val (totalScrapes c) + 1"
    and "counter_val (jsonParseFailures c) \<le> counter_val (jsonParseFailures c')"
    and "gauge_val (up c') =
           (if snd (snd (fetchAndDecodeAPIStats json got c)) = None then 1 else 0)"
    using k by (simp_all add: c' e Gauge_Set_def Counter_Inc_def)
qed

lemma ClusterMetrics_Collect_state:
  fixes c :: ClusterMetrics and json got
  defines "c' \<equiv> state_of (ClusterMetrics_Collect json got c)"
  shows "url c' = url c" and "metrics c' = metrics c"
    and "gauge_desc (up c') = gauge_desc (up c)"
    and "counter_desc (totalScrapes c') = counter_desc (totalScrapes c)"
    and "counter_desc (jsonParseFailures c') = counter_desc (jsonParseFailures c)"
    and "counter_val (totalScrapes c') = counter_val (totalScrapes c) + 1"
    and "counter_val (jsonParseFailures c) \<le> counter_val (jsonParseFailures c')"
    and "gauge_val (up c') =
           (if snd (snd (fetchAndDecodeClusterMetrics json got c)) = None then 1 else 0)"
proof -
  let ?c1 = "c\<lparr>totalScrapes := Counter_Inc (totalScrapes c)\<rparr>"
  obtain c2 resp e where f: "fetchAndDecodeClusterMetrics json got ?c1 = (c2, resp, e)"
    by (cases "fetchAndDecodeClusterMetrics json got ?c1") auto
  note k = fetchAndDecodeClusterMetrics_keeps [OF f]
  have e: "snd (snd (fetchAndDecodeClusterMetrics json got c)) = e"
    using fetchAndDecodeClusterMetrics_error [of json got c ?c1] f by simp
  have c': "c' = c2\<lparr>up := Gauge_Set (up c2) (if e = None then 1 else 0)\<rparr>"
    unfolding c'_def using f
    by (simp add: ClusterMetrics_Collect_def Let_def state_of_def
          split: prod.splits option.splits)
  show "url c' = url c" and "metrics c' = metrics c"
    and "gauge_desc (up c') = gauge_desc (up c)"
    and "counter_desc (totalScrapes c') = counter_desc (totalScrapes c)"
    and "counter_desc (jsonParseFailures c') = counter_desc (jsonParseFailures c)"
    and "counter_val (totalScrapes c') = counter_val (totalScrapes c) + 1"
    and "counter_val (jsonParseFailures c) \<le> counter_val (jsonParseFailures c')"
    and "gauge_val (up c') =
           (if snd (snd (fetchAndDecodeClusterMetrics json got c)) = None then 1 else 0)"
    using k by (simp_all add: c' e Gauge_Set_def Counter_Inc_def)
qed

section \<open>The endpoint-health samples\<close>

lemma health_once:
  assumes sent: "out = fs @ [gaugeMetric g, counterMetric t, counterMetric j]"
    and fs: "\<forall>m\<in>set fs. variableLabels (m_desc m) \<noteq> []"
    and labels: "variableLabels (gauge_desc g) = []" "variableLabels (counter_desc t) = []"
      "variableLabels (counter_desc j) = []"
    and dist: "distinct [gauge_desc g, counter_desc t, counter_desc j]"
  shows "samplesOf (gauge_desc g) out = [gaugeMetric g]"
    and "samplesOf (counter_desc t) out = [counterMetric t]"
    and "samplesOf (counter_desc j) out = [counterMetric j]"
proof -
  have "samplesOf (gauge_desc g) fs = []" "samplesOf (counter_desc t) fs = []"
    "samplesOf (counter_desc j) fs = []"
    using fs labels by (auto intro!: samplesOf_none)
  then show "samplesOf (gauge_desc g) out = [gaugeMetric g]"
    and "samplesOf (counter_desc t) out = [counterMetric t]"
    and "samplesOf (counter_desc j) out = [counterMetric j]"
    using dist
    by (auto simp: sent samplesOf_append)
       (auto simp: samplesOf_def gaugeMetric_def counterMetric_def)
qed

lemma NewAPIStats_health:
  "gauge_desc (up (NewAPIStats u)) =
     NewDesc ''typesense_api_stats_up''
       ''Was the last scrape of the Typesense API stats endpoint successful.'' []"
  "counter_desc (totalScrapes (NewAPIStats u)) =
     NewDesc ''typesense_api_stats_total_scrapes''
       ''Current total Typesense API stats scrapes.'' []"
  "counter_desc (jsonParseFailures (NewAPIStats u)) =
     NewDesc ''typesense_api_stats_json_parse_failures''
       ''Number of errors while parsing JSON.'' []"
  by (simp_all add: NewAPIStats_def NewGauge_def NewCounter_def BuildFQName_typesense)

lemma NewClusterMetrics_health:
  "gauge_desc (up (NewClusterMetrics u)) =
     NewDesc ''typesense_cluster_metrics_up''
       ''Was the last scrape of the Typesense cluster metrics endpoint successful.'' []"
  "counter_desc (totalScrapes (NewClusterMetrics u)) =
     NewDesc ''typesense_cluster_metrics_total_scrapes''
       ''Current total Typesense cluster metrics scrapes.'' []"
  "counter_desc (jsonParseFailures (NewClusterMetrics u)) =
     NewDesc ''typesense_cluster_metrics_json_parse_failures''
       ''Number of errors while parsing JSON.'' []"
  by (simp_all add: NewClusterMetrics_def NewGauge_def NewCounter_def BuildFQName_typesense)

lemma NewAPIStats_tables_labelled:
  "\<forall>d\<in>Desc ` set (metrics (NewAPIStats u)) \<union> Desc ` set (stats (NewAPIStats u)).
     variableLabels d \<noteq> []"
  by (simp add: NewAPIStats_def apiGauge_simps apiVector_simps)

lemma NewClusterMetrics_tables_labelled:
  "\<forall>d\<in>Desc ` set (metrics (NewClusterMetrics u)). variableLabels d \<noteq> []"
  by (simp add: NewClusterMetrics_def clusterGauge_simps)

text \<open>
  Claim C10. Every call of \<open>Collect\<close> of either collector, whatever the upstream returned
  and whatever the decoder made of it, and also when the call ends in a panic, sends each of
  the three endpoint-health samples (up, total_scrapes, json_parse_failures) exactly once:
  the stream holds exactly one sample of each of the three descriptors, and it carries the
  value the gauge or counter has after the scrape. The collector is any state the
  constructor's collector can be in: its gauge at \<open>x\<close>, its counters at \<open>n\<close> and \<open>k\<close>.
\<close>

theorem health_samples_once:
  "(let r = APIStats_Collect json got (withValues (NewAPIStats u) x n k);
        c' = state_of r in
      samplesOf (NewDesc ''typesense_api_stats_up''
                   ''Was the last scrape of the Typesense API stats endpoint successful.'' [])
        (sent_by r) = [gaugeMetric (up c')]
    \<and> samplesOf (NewDesc ''typesense_api_stats_total_scrapes''
                   ''Current total Typesense API stats scrapes.'' [])
        (sent_by r) = [counterMetric (totalScrapes c')]
    \<and> samplesOf (NewDesc ''typesense_api_stats_json_parse_failures''
                   ''Number of errors while parsing JSON.'' [])
        (sent_by r) = [counterMetric (jsonParseFailures c')])
   \<and> (let r = ClusterMetrics_Collect cjson cgot (withValues (NewClusterMetrics u) x n k);
          c' = state_of r in
      samplesOf (NewDesc ''typesense_cluster_metrics_up''
                   ''Was the last scrape of the Typesense cluster metrics endpoint successful.'' [])
        (sent_by r) = [gaugeMetric (up c')]
    \<and> samplesOf (NewDesc ''typesense_cluster_metrics_total_scrapes''
                   ''Current total Typesense cluster metrics scrapes.'' [])
        (sent_by r) = [counterMetric (totalScrapes c')]
    \<and> samplesOf (NewDesc ''typesense_cluster_metrics_json_parse_failures''
                   ''Number of errors while parsing JSON.'' [])
        (sent_by r) = [counterMetric (jsonParseFailures c')])"
proof -
  let ?a = "withValues (NewAPIStats u) x n k"
  let ?r = "APIStats_Collect json got ?a"
  let ?a' = "state_of ?r"
  obtain fs where s: "sent_by ?r = fs @ deferred ?a' []"
    and f: "\<forall>m\<in>set fs. m_desc m \<in> Desc ` set (metrics ?a) \<union> Desc ` set (stats ?a)"
    by (rule APIStats_Collect_shape)
  have s': "sent_by ?r = fs @ [gaugeMetric (up ?a'), counterMetric (totalScrapes ?a'),
      counterMetric (jsonParseFailures ?a')]"
    using s by (simp add: deferred_def)
  have f': "\<forall>m\<in>set fs. variableLabels (m_desc m) \<noteq> []"
    using f NewAPIStats_tables_labelled [of u]
    by (auto simp: withValues_simps stats_withValues)
  have d: "gauge_desc (up ?a') = gauge_desc (up (NewAPIStats u))"
    "counter_desc (totalScrapes ?a') = counter_desc (totalScrapes (NewAPIStats u))"
    "counter_desc (jsonParseFailures ?a') = counter_desc (jsonParseFailures (NewAPIStats u))"
    by (simp_all add: APIStats_Collect_state withValues_simps)
  have api: "samplesOf (gauge_desc (up ?a')) (sent_by ?r) = [gaugeMetric (up ?a')]"
    "samplesOf (counter_desc (totalScrapes ?a')) (sent_by ?r) = [counterMetric (totalScrapes ?a')]"
    "samplesOf (counter_desc (jsonParseFailures ?a')) (sent_by ?r) =
       [counterMetric (jsonParseFailures ?a')]"
    by (rule health_once [OF s' f']; simp add: d NewAPIStats_health NewDesc_def)+
  let ?c = "withValues (NewClusterMetrics u) x n k"
  let ?q = "ClusterMetrics_Collect cjson cgot ?c"
  let ?c' = "state_of ?q"
  obtain cfs where cs: "sent_by ?q = cfs @ deferred ?c' []"
    and cf: "\<forall>m\<in>set cfs. m_desc m \<in> Desc ` set (metrics ?c)"
    by (rule ClusterMetrics_Collect_shape)
  have cs': "sent_by ?q = cfs @ [gaugeMetric (up ?c'), counterMetric (totalScrapes ?c'),
      counterMetric (jsonParseFailures ?c')]"
    using cs by (simp add: deferred_def)
  have cf': "\<forall>m\<in>set cfs. variableLabels (m_desc m) \<noteq> []"
    using cf NewClusterMetrics_tables_labelled [of u]
    by (auto simp: withValues_simps)
  have cd: "gauge_desc (up ?c') = gauge_desc (up (NewClusterMetrics u))"
    "counter_desc (totalScrapes ?c') = counter_desc (totalScrapes (NewClusterMetrics u))"
    "counter_desc (jsonParseFailures ?c') =
       counter_desc (jsonParseFailures (NewClusterMetrics u))"
    by (simp_all add: ClusterMetrics_Collect_state withValues_simps)
  have cl: "samplesOf (gauge_desc (up ?c')) (sent_by ?q) = [gaugeMetric (up ?c')]"
    "samplesOf (counter_desc (totalScrapes ?c')) (sent_by ?q) =
       [counterMetric (totalScrapes ?c')]"
    "samplesOf (counter_desc (jsonParseFailures ?c')) (sent_by ?q) =
       [counterMetric (jsonParseFailures ?c')]"
    by (rule health_once [OF cs' cf']; simp add: cd NewClusterMetrics_health NewDesc_def)+
  show ?thesis
    using api cl
    by (simp add: Let_def d cd NewAPIStats_health NewClusterMetrics_health)
qed

section \<open>Successful scrapes, and sequences of scrapes\<close>

lemma decodes_Some:
  assumes "decodes json zero got = Some resp"
  obtains res bts where "got = Inr res" and "StatusCode res = StatusOK"
    and "Body res = Bytes bts" and "json bts zero = (resp, None)"
  using assms
  by (auto simp: decodes_def split: sum.splits if_splits body.splits prod.splits option.splits)

lemma APIStats_Collect_succeeds:
  assumes "decodes json zero_apiStatsResponse got = Some resp" and "wellKeyed resp"
    and "url c = u" and "metrics c = metrics (NewAPIStats u)"
    and "stats c = stats (NewAPIStats u)"
  shows "APIStats_Collect json got c =
     (let c' = c\<lparr>totalScrapes := Counter_Inc (totalScrapes c), up := Gauge_Set (up c) 1\<rparr>
      in (c', deferred c'
                (map (scalarSample u resp) (metrics (NewAPIStats u))
                 @ map (vectorSample latencyDesc u (\<lambda>val. float64_div val 1000)) (Latency resp)
                 @ map (vectorSample requestsPerSecondDesc u (\<lambda>val. val))
                     (RequestsPerSecond resp)),
          None))"
proof -
  obtain res bts where got: "got = Inr res" and ok: "StatusCode res = StatusOK"
    and b: "Body res = Bytes bts" and j: "json bts zero_apiStatsResponse = (resp, None)"
    using assms(1) by (rule decodes_Some)
  have l: "\<forall>m\<in>set (metrics c). length (variableLabels (Desc m)) = 1"
    using metrics_NewAPIStats_labels [of u] assms(4) by simp
  have k: "\<forall>kv\<in>set (Latency resp). CHR '' '' \<in> set (fst kv)"
    "\<forall>kv\<in>set (RequestsPerSecond resp). CHR '' '' \<in> set (fst kv)"
    using assms(2) by (simp_all add: wellKeyed_def list_all_iff)
  show ?thesis
    unfolding got APIStats_Collect_decoded [where json = json, OF ok b j l]
    by (simp add: assms(3,4,5) sendStats_ok [OF k] Let_def)
qed

lemma ClusterMetrics_Collect_succeeds:
  assumes "decodes json zero_clusterMetricsResponse got = Some resp"
    and "url c = u" and "metrics c = metrics (NewClusterMetrics u)"
  shows "ClusterMetrics_Collect json got c =
     (let c' = c\<lparr>totalScrapes := Counter_Inc (totalScrapes c), up := Gauge_Set (up c) 1\<rparr>
      in (c', deferred c' (map (scalarSample u resp) (metrics (NewClusterMetrics u))), None))"
proof -
  obtain res bts where got: "got = Inr res" and ok: "StatusCode res = StatusOK"
    and b: "Body res = Bytes bts" and j: "json bts zero_clusterMetricsResponse = (resp, None)"
    using assms(1) by (rule decodes_Some)
  have l: "\<forall>m\<in>set (metrics c). length (variableLabels (Desc m)) = 1"
    using metrics_NewClusterMetrics_labels [of u] assms(3) by simp
  show ?thesis
    unfolding got ClusterMetrics_Collect_decoded [where json = json, OF ok b j l]
    by (simp add: assms(2,3) Let_def)
qed

lemma ClusterMetrics_Collect_no_panic:
  assumes "metrics c = metrics (NewClusterMetrics u)"
  shows "panic_of (ClusterMetrics_Collect json got c) = None"
proof -
  have l: "\<forall>m\<in>set (metrics c). length (variableLabels (Desc m)) = 1"
    using metrics_NewClusterMetrics_labels [of u] assms by simp
  show ?thesis
  proof (cases rule: get_result_cases
      [where got = got and json = json and zero = zero_clusterMetricsResponse])
    case (GetError e)
    then show ?thesis
      by (simp add: ClusterMetrics_Collect_GetError Let_def panic_of_def)
  next
    case (StatusError res)
    then show ?thesis
      by (simp add: ClusterMetrics_Collect_StatusError Let_def panic_of_def)
  next
    case (ReadError res e)
    then show ?thesis
      by (simp add: ClusterMetrics_Collect_ReadError Let_def panic_of_def)
  next
    case (UnmarshalError res bts resp e)
    then show ?thesis
      by (simp add: ClusterMetrics_Collect_UnmarshalError Let_def panic_of_def)
  next
    case (Decoded res bts resp)
    then show ?thesis
      using l by (simp add: ClusterMetrics_Collect_decoded Let_def panic_of_def)
  qed
qed

text \<open>Sequences of scrapes.\<close>

lemma APIStats_scrapes_Cons:
  "APIStats_scrapes json (got # rest) c =
     (if panic_of (APIStats_Collect json got c) = None
      then APIStats_scrapes json rest (state_of (APIStats_Collect json got c))
      else (state_of (APIStats_Collect json got c), panic_of (APIStats_Collect json got c)))"
  by (cases "APIStats_Collect json got c") (auto simp: result_defs)

lemma ClusterMetrics_scrapes_Cons:
  "ClusterMetrics_scrapes json (got # rest) c =
     (if panic_of (ClusterMetrics_Collect json got c) = None
      then ClusterMetrics_scrapes json rest (state_of (ClusterMetrics_Collect json got c))
      else (state_of (ClusterMetrics_Collect json got c),
            panic_of (ClusterMetrics_Collect json got c)))"
  by (cases "ClusterMetrics_Collect json got c") (auto simp: result_defs)

lemma APIStats_scrapes_mono:
  "counter_val (totalScrapes c) \<le> counter_val (totalScrapes (fst (APIStats_scrapes json gots c)))
   \<and> counter_val (jsonParseFailures c)
       \<le> counter_val (jsonParseFailures (fst (APIStats_scrapes json gots c)))"
proof (induction gots arbitrary: c)
  case Nil
  then show ?case by simp
next
  case (Cons got rest)
  let ?c' = "state_of (APIStats_Collect json got c)"
  have 1: "counter_val (totalScrapes c) \<le> counter_val (totalScrapes ?c')"
    by (simp add: APIStats_Collect_state)
  have 2: "counter_val (jsonParseFailures c) \<le> counter_val (jsonParseFailures ?c')"
    by (rule APIStats_Collect_state)
  show ?case
    using 1 2 Cons [of ?c'] by (auto simp: APIStats_scrapes_Cons simp del: APIStats_scrapes.simps)
qed

lemma ClusterMetrics_scrapes_mono:
  "counter_val (totalScrapes c)
     \<le> counter_val (totalScrapes (fst (ClusterMetrics_scrapes json gots c)))
   \<and> counter_val (jsonParseFailures c)
       \<le> counter_val (jsonParseFailures (fst (ClusterMetrics_scrapes json gots c)))"
proof (induction gots arbitrary: c)
  case Nil
  then show ?case by simp
next
  case (Cons got rest)
  let ?c' = "state_of (ClusterMetrics_Collect json got c)"
  have 1: "counter_val (totalScrapes c) \<le> counter_val (totalScrapes ?c')"
    by (simp add: ClusterMetrics_Collect_state)
  have 2: "counter_val (jsonParseFailures c) \<le> counter_val (jsonParseFailures ?c')"
    by (rule ClusterMetrics_Collect_state)
  show ?case
    using 1 2 Cons [of ?c']
    by (auto simp: ClusterMetrics_scrapes_Cons simp del: ClusterMetrics_scrapes.simps)
qed

lemma APIStats_scrapes_count:
  "snd (APIStats_scrapes json gots c) = None \<Longrightarrow>
   counter_val (totalScrapes (fst (APIStats_scrapes json gots c))) =
     counter_val (totalScrapes c) + length gots"
proof (induction gots arbitrary: c)
  case Nil
  then show ?case by simp
next
  case (Cons got rest)
  let ?c' = "state_of (APIStats_Collect json got c)"
  have 1: "counter_val (totalScrapes ?c') = counter_val (totalScrapes c) + 1"
    by (rule APIStats_Collect_state)
  show ?case
    using 1 Cons.prems Cons.IH [of ?c']
    by (auto simp: APIStats_scrapes_Cons simp del: APIStats_scrapes.simps split: if_splits)
qed

lemma ClusterMetrics_scrapes_count:
  "snd (ClusterMetrics_scrapes json gots c) = None \<Longrightarrow>
   counter_val (totalScrapes (fst (ClusterMetrics_scrapes json gots c))) =
     counter_val (totalScrapes c) + length gots"
proof (induction gots arbitrary: c)
  case Nil
  then show ?case by simp
next
  case (Cons got rest)
  let ?c' = "state_of (ClusterMetrics_Collect json got c)"
  have 1: "counter_val (totalScrapes ?c') = counter_val (totalScrapes c) + 1"
    by (rule ClusterMetrics_Collect_state)
  show ?case
    using 1 Cons.prems Cons.IH [of ?c']
    by (auto simp: ClusterMetrics_scrapes_Cons simp del: ClusterMetrics_scrapes.simps
          split: if_splits)
qed

lemma APIStats_scrapes_succeed:
  assumes "\<forall>got\<in>set gots. APIStats_succeeds json got"
    and "url c = u" and "metrics c = metrics (NewAPIStats u)"
    and "stats c = stats (NewAPIStats u)"
  shows "snd (APIStats_scrapes json gots c) = None"
  using assms
proof (induction gots arbitrary: c)
  case Nil
  then show ?case by simp
next
  case (Cons got rest)
  let ?c' = "state_of (APIStats_Collect json got c)"
  obtain resp where d: "decodes json zero_apiStatsResponse got = Some resp"
    and w: "wellKeyed resp"
    using Cons.prems(1) by (auto simp: APIStats_succeeds_def split: option.splits)
  have p: "panic_of (APIStats_Collect json got c) = None"
    using APIStats_Collect_succeeds [OF d w Cons.prems(2,3,4)]
    by (simp add: Let_def panic_of_def)
  have "snd (APIStats_scrapes json rest ?c') = None"
    using Cons.prems by (intro Cons.IH) (simp_all add: APIStats_Collect_state)
  then show ?case
    using p by (simp add: APIStats_scrapes_Cons del: APIStats_scrapes.simps)
qed

lemma ClusterMetrics_scrapes_no_panic:
  assumes "metrics c = metrics (NewClusterMetrics u)"
  shows "snd (ClusterMetrics_scrapes json gots c) = None"
  using assms
proof (induction gots arbitrary: c)
  case Nil
  then show ?case by simp
next
  case (Cons got rest)
  let ?c' = "state_of (ClusterMetrics_Collect json got c)"
  have p: "panic_of (ClusterMetrics_Collect json got c) = None"
    using Cons.prems by (rule ClusterMetrics_Collect_no_panic)
  have "snd (ClusterMetrics_scrapes json rest ?c') = None"
    using Cons.prems by (intro Cons.IH) (simp add: ClusterMetrics_Collect_state)
  then show ?case
    using p by (simp add: ClusterMetrics_scrapes_Cons del: ClusterMetrics_scrapes.simps)
qed

lemma fetchAndDecodeAPIStats_decodes:
  "snd (snd (fetchAndDecodeAPIStats json got c)) = None \<longleftrightarrow>
   decodes json zero_apiStatsResponse got \<noteq> None"
  by (simp add: fetchAndDecodeAPIStats_def decodes_def Let_def
        split: sum.splits body.splits prod.splits option.splits)

lemma fetchAndDecodeClusterMetrics_decodes:
  "snd (snd (fetchAndDecodeClusterMetrics json got c)) = None \<longleftrightarrow>
   decodes json zero_clusterMetricsResponse got \<noteq> None"
  by (simp add: fetchAndDecodeClusterMetrics_def decodes_def Let_def
        split: sum.splits body.splits prod.splits option.splits)

text \<open>
  Claim C8. Over any sequence of scrapes the total-scrapes counter and the parse-failure
  counter of a collector never decrease. The up gauge is overwritten by every scrape:
  whatever gauge the collector held before, after the scrape it stands at 1 when the
  response was fetched and decoded and at 0 otherwise. A freshly built API-stats collector
  that has made \<open>N\<close> successful scrapes in a row has not panicked and its total-scrapes
  counter stands at exactly \<open>N\<close>; a freshly built cluster-metrics collector never panics, and
  after any \<open>N\<close> scrapes, successful or not, its total-scrapes counter stands at \<open>N\<close>.
\<close>

theorem counters_over_scrapes:
  assumes "list_all (APIStats_succeeds json) oks"
  shows "(counter_val (totalScrapes a)
            \<le> counter_val (totalScrapes (fst (APIStats_scrapes json gots a)))
        \<and> counter_val (jsonParseFailures a)
            \<le> counter_val (jsonParseFailures (fst (APIStats_scrapes json gots a)))
        \<and> gauge_val (up (state_of (APIStats_Collect json got (a\<lparr>up := g\<rparr>)))) =
            (if decodes json zero_apiStatsResponse got = None then 0 else 1)
        \<and> snd (APIStats_scrapes json oks (NewAPIStats u)) = None
        \<and> counter_val (totalScrapes (fst (APIStats_scrapes json oks (NewAPIStats u)))) =
            length oks)
       \<and> (counter_val (totalScrapes c)
            \<le> counter_val (totalScrapes (fst (ClusterMetrics_scrapes cjson cgots c)))
        \<and> counter_val (jsonParseFailures c)
            \<le> counter_val (jsonParseFailures (fst (ClusterMetrics_scrapes cjson cgots c)))
        \<and> gauge_val (up (state_of (ClusterMetrics_Collect cjson cgot (c\<lparr>up := g\<rparr>)))) =
            (if decodes cjson zero_clusterMetricsResponse cgot = None then 0 else 1)
        \<and> snd (ClusterMetrics_scrapes cjson cgots (NewClusterMetrics u)) = None
        \<and> counter_val (totalScrapes (fst (ClusterMetrics_scrapes cjson cgots
              (NewClusterMetrics u)))) = length cgots)"
proof -
  have "\<forall>got\<in>set oks. APIStats_succeeds json got"
    using assms by (simp add: list_all_iff)
  then have a1: "snd (APIStats_scrapes json oks (NewAPIStats u)) = None"
    by (rule APIStats_scrapes_succeed) (simp_all add: NewAPIStats_def)
  have a2: "counter_val (totalScrapes (fst (APIStats_scrapes json oks (NewAPIStats u)))) =
      length oks"
    using APIStats_scrapes_count [OF a1] by (simp add: NewAPIStats_def NewCounter_def)
  have a3: "gauge_val (up (state_of (APIStats_Collect json got (a\<lparr>up := g\<rparr>)))) =
      (if decodes json zero_apiStatsResponse got = None then 0 else 1)"
    by (simp add: APIStats_Collect_state fetchAndDecodeAPIStats_decodes)
  have c1: "snd (ClusterMetrics_scrapes cjson cgots (NewClusterMetrics u)) = None"
    by (rule ClusterMetrics_scrapes_no_panic) simp
  have c2: "counter_val (totalScrapes (fst (ClusterMetrics_scrapes cjson cgots
      (NewClusterMetrics u)))) = length cgots"
    using ClusterMetrics_scrapes_count [OF c1]
    by (simp add: NewClusterMetrics_def NewCounter_def)
  have c3: "gauge_val (up (state_of (ClusterMetrics_Collect cjson cgot (c\<lparr>up := g\<rparr>)))) =
      (if decodes cjson zero_clusterMetricsResponse cgot = None then 0 else 1)"
    by (simp add: ClusterMetrics_Collect_state fetchAndDecodeClusterMetrics_decodes)
  show ?thesis
    using a1 a2 a3 c1 c2 c3 APIStats_scrapes_mono [of a json gots]
      ClusterMetrics_scrapes_mono [of c cjson cgots]
    by simp
qed

text \<open>
  Witness for C8: three successful scrapes of the API-stats endpoint in a row leave the
  counter at 3 and two scrapes of the cluster-metrics endpoint, the second one failing,
  leave it at 2; a scrape that times out sets a gauge that stood at 1 to 0.
\<close>

theorem counters_over_scrapes_witness:
  "list_all (APIStats_succeeds (decodeAs searchAndDocuments))
      (replicate 3 (Inr (response 200
         ''{\"requests_per_second\":{\"GET /search\":12.5,\"POST /documents\":3.0}}'')))
   \<and> snd (APIStats_scrapes (decodeAs searchAndDocuments)
        (replicate 3 (Inr (response 200
           ''{\"requests_per_second\":{\"GET /search\":12.5,\"POST /documents\":3.0}}'')))
        (NewAPIStats localhost)) = None
   \<and> counter_val (totalScrapes (fst (APIStats_scrapes (decodeAs searchAndDocuments)
        (replicate 3 (Inr (response 200
           ''{\"requests_per_second\":{\"GET /search\":12.5,\"POST /documents\":3.0}}'')))
        (NewAPIStats localhost)))) = 3
   \<and> counter_val (totalScrapes (NewAPIStats localhost))
       \<le> counter_val (totalScrapes (fst (APIStats_scrapes (decodeAs searchAndDocuments)
            [Inl ''timeout'', Inr (response 200 ''{}'')] (NewAPIStats localhost))))
   \<and> counter_val (jsonParseFailures (NewAPIStats localhost))
       \<le> counter_val (jsonParseFailures (fst (APIStats_scrapes (decodeAs searchAndDocuments)
            [Inl ''timeout'', Inr (response 200 ''{}'')] (NewAPIStats localhost))))
   \<and> gauge_val (up (state_of (APIStats_Collect (decodeAs searchAndDocuments) (Inl ''timeout'')
        ((NewAPIStats localhost)\<lparr>up := Gauge_Set (up (NewAPIStats localhost)) 1\<rparr>)))) = 0
   \<and> snd (ClusterMetrics_scrapes (decodeAs memoryActive)
        [Inr (response 200 ''{}''), Inr (response 503 [])] (NewClusterMetrics localhost)) = None
   \<and> counter_val (totalScrapes (fst (ClusterMetrics_scrapes (decodeAs memoryActive)
        [Inr (response 200 ''{}''), Inr (response 503 [])] (NewClusterMetrics localhost)))) = 2
   \<and> gauge_val (up (state_of (ClusterMetrics_Collect (decodeAs memoryActive)
        (Inr (response 200 ''{}''))
        ((NewClusterMetrics localhost)\<lparr>up := Gauge_Set (up (NewAPIStats localhost)) 1\<rparr>)))) = 1"
proof -
  have h: "list_all (APIStats_succeeds (decodeAs searchAndDocuments))
      (replicate 3 (Inr (response 200
         ''{\"requests_per_second\":{\"GET /search\":12.5,\"POST /documents\":3.0}}'')))"
    by (simp add: list_all_iff APIStats_succeeds_def decodes_def decodeAs_def response_def
          StatusOK_def wellKeyed_def searchAndDocuments_def zero_apiStatsResponse_def)
  have d: "decodes (decodeAs searchAndDocuments) zero_apiStatsResponse (Inl ''timeout'') = None"
    "decodes (decodeAs memoryActive) zero_clusterMetricsResponse (Inr (response 200 ''{}''))
       = Some memoryActive"
    by (simp_all add: decodes_def decodeAs_def response_def StatusOK_def)
  show ?thesis
    using h counters_over_scrapes [OF h, where a = "NewAPIStats localhost"
        and gots = "[Inl ''timeout'', Inr (response 200 ''{}'')]" and got = "Inl ''timeout''"
        and g = "Gauge_Set (up (NewAPIStats localhost)) 1" and u = localhost
        and c = "NewClusterMetrics localhost" and cjson = "decodeAs memoryActive"
        and cgots = "[Inr (response 200 ''{}''), Inr (response 503 [])]"
        and cgot = "Inr (response 200 ''{}'')"]
    by (simp add: d)
qed

section \<open>A scrape that fetches and decodes\<close>

lemma scalar_once:
  assumes out: "out = map (scalarSample u resp) ms @ rest"
    and dist: "distinct (map Desc ms)" and d: "d \<in> set ms"
    and rest: "\<forall>m\<in>set rest. m_desc m \<noteq> Desc d"
  shows "samplesOf (Desc d) out = [scalarSample u resp d]"
proof -
  have "samplesOf (Desc d) rest = []"
    using rest by (rule samplesOf_none)
  then show ?thesis
    by (simp add: out samplesOf_append samplesOf_scalar [OF dist d])
qed

lemma url_New: "url (NewAPIStats u) = u" "url (NewClusterMetrics u) = u"
  by (simp_all add: NewAPIStats_def NewClusterMetrics_def)

lemma health_unlabelled:
  "variableLabels (m_desc (gaugeMetric g)) = variableLabels (gauge_desc g)"
  "variableLabels (m_desc (counterMetric t)) = variableLabels (counter_desc t)"
  by (simp_all add: gaugeMetric_def counterMetric_def)

lemma stats_NewAPIStats_labels:
  "\<forall>d\<in>Desc ` set (stats (NewAPIStats u)). length (variableLabels d) = 3"
  by (simp add: NewAPIStats_def apiVector_simps)

lemma APIStats_decoded_scalars:
  assumes dec: "decodes json zero_apiStatsResponse got = Some resp"
    and d: "d \<in> set (metrics (NewAPIStats u))"
  shows "samplesOf (Desc d) (sent_by (APIStats_Collect json got (withValues (NewAPIStats u) x n k)))
         = [scalarSample u resp d]"
proof -
  let ?a = "withValues (NewAPIStats u) x n k"
  let ?a' = "?a\<lparr>totalScrapes := Counter_Inc (totalScrapes ?a), up := Gauge_Set (up ?a) 1\<rparr>"
  let ?vs = "fst (sendStats resp (stats ?a) [])"
  let ?rest = "?vs @ [gaugeMetric (up ?a'), counterMetric (totalScrapes ?a'),
      counterMetric (jsonParseFailures ?a')]"
  obtain res bts where got: "got = Inr res" and ok: "StatusCode res = StatusOK"
    and b: "Body res = Bytes bts" and j: "json bts zero_apiStatsResponse = (resp, None)"
    using dec by (rule decodes_Some)
  have l: "\<forall>m\<in>set (metrics ?a). length (variableLabels (Desc m)) = 1"
    using metrics_NewAPIStats_labels [of u] by (simp add: withValues_simps)
  have out: "sent_by (APIStats_Collect json got ?a) =
      map (scalarSample u resp) (metrics (NewAPIStats u)) @ ?rest"
    unfolding got APIStats_Collect_decoded [where json = json, OF ok b j l]
    by (simp add: Let_def sent_by_def deferred_def withValues_simps url_New)
  have dl: "length (variableLabels (Desc d)) = 1"
    using metrics_NewAPIStats_labels [of u] d by simp
  have vs: "\<forall>m\<in>set ?vs. length (variableLabels (m_desc m)) = 3"
  proof
    fix m
    assume "m \<in> set ?vs"
    then have "m_desc m \<in> Desc ` set (stats (NewAPIStats u))"
      using sendStats_descs [of m resp "stats ?a" "[]"] by (simp add: stats_withValues)
    then show "length (variableLabels (m_desc m)) = 3"
      using stats_NewAPIStats_labels [of u] by blast
  qed
  have h: "variableLabels (gauge_desc (up ?a')) = []"
    "variableLabels (counter_desc (totalScrapes ?a')) = []"
    "variableLabels (counter_desc (jsonParseFailures ?a')) = []"
    by (simp_all add: Gauge_Set_def Counter_Inc_def withValues_simps NewAPIStats_health
          NewDesc_def)
  have "\<forall>m\<in>set ?rest. length (variableLabels (m_desc m)) \<noteq> 1"
    using vs h by (auto simp: health_unlabelled)
  then have rest: "\<forall>m\<in>set ?rest. m_desc m \<noteq> Desc d"
    using dl by auto
  show ?thesis
    using out distinct_metrics_NewAPIStats d rest by (rule scalar_once)
qed

lemma ClusterMetrics_decoded_scalars:
  assumes dec: "decodes json zero_clusterMetricsResponse got = Some resp"
    and d: "d \<in> set (metrics (NewClusterMetrics u))"
  shows "samplesOf (Desc d)
           (sent_by (ClusterMetrics_Collect json got (withValues (NewClusterMetrics u) x n k)))
         = [scalarSample u resp d]"
proof -
  let ?a = "withValues (NewClusterMetrics u) x n k"
  let ?a' = "?a\<lparr>totalScrapes := Counter_Inc (totalScrapes ?a), up := Gauge_Set (up ?a) 1\<rparr>"
  let ?rest = "[gaugeMetric (up ?a'), counterMetric (totalScrapes ?a'),
      counterMetric (jsonParseFailures ?a')]"
  have out: "sent_by (ClusterMetrics_Collect json got ?a) =
      map (scalarSample u resp) (metrics (NewClusterMetrics u)) @ ?rest"
    by (simp add: ClusterMetrics_Collect_succeeds [OF dec, of _ u] withValues_simps Let_def
          sent_by_def deferred_def url_New)
  have dl: "length (variableLabels (Desc d)) = 1"
    using metrics_NewClusterMetrics_labels [of u] d by simp
  have h: "variableLabels (gauge_desc (up ?a')) = []"
    "variableLabels (counter_desc (totalScrapes ?a')) = []"
    "variableLabels (counter_desc (jsonParseFailures ?a')) = []"
    by (simp_all add: Gauge_Set_def Counter_Inc_def withValues_simps NewClusterMetrics_health
          NewDesc_def)
  have "\<forall>m\<in>set ?rest. length (variableLabels (m_desc m)) \<noteq> 1"
    using h by (auto simp: health_unlabelled)
  then have rest: "\<forall>m\<in>set ?rest. m_desc m \<noteq> Desc d"
    using dl by auto
  show ?thesis
    using out distinct_metrics_NewClusterMetrics d rest by (rule scalar_once)
qed

lemma decodes_state:
  "decodes json zero_apiStatsResponse got = Some resp \<Longrightarrow>
   gauge_val (up (state_of (APIStats_Collect json got a))) = 1
   \<and> counter_val (totalScrapes (state_of (APIStats_Collect json got a))) =
       counter_val (totalScrapes a) + 1"
  "decodes cjson zero_clusterMetricsResponse cgot = Some cresp \<Longrightarrow>
   gauge_val (up (state_of (ClusterMetrics_Collect cjson cgot c))) = 1
   \<and> counter_val (totalScrapes (state_of (ClusterMetrics_Collect cjson cgot c))) =
       counter_val (totalScrapes c) + 1"
  by (simp_all add: APIStats_Collect_state ClusterMetrics_Collect_state
        fetchAndDecodeAPIStats_decodes fetchAndDecodeClusterMetrics_decodes)

text \<open>
  Claim C7. When the response is fetched with status 200 and its body decodes without
  error, either collector sets its up gauge to 1 and adds exactly one to its scrape counter,
  and every scalar descriptor of its table has exactly one sample in the stream: a gauge
  with the value the descriptor extracts from the decoded response and with one label,
  \<open>cluster\<close>, whose value is the configured upstream URL. For the API-stats collector this
  holds also when a vector descriptor panics afterwards on a key without a space. The
  collector is in any state the constructor's collector can be in.
\<close>

theorem decoded_scrape:
  assumes "decodes json zero_apiStatsResponse got = Some resp"
    and "decodes cjson zero_clusterMetricsResponse cgot = Some cresp"
  shows "(let r = APIStats_Collect json got (withValues (NewAPIStats u) x n k) in
            gauge_val (up (state_of r)) = 1
          \<and> counter_val (totalScrapes (state_of r)) = n + 1
          \<and> (\<forall>d\<in>set (metrics (NewAPIStats u)).
                variableLabels (Desc d) = [''cluster'']
              \<and> samplesOf (Desc d) (sent_by r) =
                  [\<lparr>m_desc = Desc d, m_type = GaugeValue, m_value = Value d resp,
                    m_labelValues = [u]\<rparr>]))
       \<and> (let r = ClusterMetrics_Collect cjson cgot
                      (withValues (NewClusterMetrics u) x n k) in
            gauge_val (up (state_of r)) = 1
          \<and> counter_val (totalScrapes (state_of r)) = n + 1
          \<and> (\<forall>d\<in>set (metrics (NewClusterMetrics u)).
                variableLabels (Desc d) = [''cluster'']
              \<and> samplesOf (Desc d) (sent_by r) =
                  [\<lparr>m_desc = Desc d, m_type = GaugeValue, m_value = Value d cresp,
                    m_labelValues = [u]\<rparr>]))"
proof -
  have l: "\<forall>d\<in>set (metrics (NewAPIStats u)). variableLabels (Desc d) = [''cluster'']"
    by (simp add: NewAPIStats_def apiGauge_simps)
  have t: "\<forall>d\<in>set (metrics (NewAPIStats u)). Type d = GaugeValue"
    by (simp add: NewAPIStats_def apiGauge_simps)
  have cl: "\<forall>d\<in>set (metrics (NewClusterMetrics u)). variableLabels (Desc d) = [''cluster'']"
    by (simp add: NewClusterMetrics_def clusterGauge_simps)
  have ct: "\<forall>d\<in>set (metrics (NewClusterMetrics u)). Type d = GaugeValue"
    by (simp add: NewClusterMetrics_def clusterGauge_simps)
  show ?thesis
    using l t cl ct decodes_state(1) [OF assms(1)] decodes_state(2) [OF assms(2)]
    by (simp add: Let_def APIStats_decoded_scalars [OF assms(1)]
          ClusterMetrics_decoded_scalars [OF assms(2)] scalarSample_def withValues_simps)
qed

text \<open>
  Witness for C7: collectors that have made seven scrapes, and the first scalar descriptor
  of each table. The API-stats response has a latency key without a space, so that
  \<open>Collect\<close> panics after the scalar samples.
\<close>

theorem decoded_scrape_witness:
  "decodes (decodeAs keyWithoutSpace) zero_apiStatsResponse
      (Inr (response 200 ''{\"delete_latency_ms\":2500,\"latency_ms\":{\"health\":5}}''))
     = Some keyWithoutSpace
   \<and> decodes (decodeAs memoryActive) zero_clusterMetricsResponse
        (Inr (response 200 ''{\"typesense_memory_active_bytes\":\"4096\"}''))
     = Some memoryActive
   \<and> apiGauge ''delete_latency_seconds'' (\<lambda>resp. float64_div (DeleteLatency resp) 1000)
       \<in> set (metrics (NewAPIStats localhost))
   \<and> clusterGauge ''memory_active_bytes''
         (\<lambda>resp. float64_of_int (TypesenseMemoryActiveBytes resp))
       \<in> set (metrics (NewClusterMetrics localhost))
   \<and> (let r = APIStats_Collect (decodeAs keyWithoutSpace)
                (Inr (response 200 ''{\"delete_latency_ms\":2500,\"latency_ms\":{\"health\":5}}''))
                (withValues (NewAPIStats localhost) 0 7 2);
           d = Desc (apiGauge ''delete_latency_seconds'' (\<lambda>resp. float64_div (DeleteLatency resp) 1000)) in
        gauge_val (up (state_of r)) = 1
      \<and> counter_val (totalScrapes (state_of r)) = 8
      \<and> variableLabels d = [''cluster'']
      \<and> samplesOf d (sent_by r) =
          [\<lparr>m_desc = d, m_type = GaugeValue, m_value = 2.5, m_labelValues = [localhost]\<rparr>])
   \<and> (let r = ClusterMetrics_Collect (decodeAs memoryActive)
                (Inr (response 200 ''{\"typesense_memory_active_bytes\":\"4096\"}''))
                (withValues (NewClusterMetrics localhost) 0 7 2);
           d = Desc (clusterGauge ''memory_active_bytes''
                 (\<lambda>resp. float64_of_int (TypesenseMemoryActiveBytes resp))) in
        gauge_val (up (state_of r)) = 1
      \<and> counter_val (totalScrapes (state_of r)) = 8
      \<and> variableLabels d = [''cluster'']
      \<and> samplesOf d (sent_by r) =
          [\<lparr>m_desc = d, m_type = GaugeValue, m_value = 4096, m_labelValues = [localhost]\<rparr>])"
proof -
  have h1: "decodes (decodeAs keyWithoutSpace) zero_apiStatsResponse
      (Inr (response 200 ''{\"delete_latency_ms\":2500,\"latency_ms\":{\"health\":5}}''))
     = Some keyWithoutSpace"
    by (simp add: decodes_def decodeAs_def response_def StatusOK_def)
  have h2: "decodes (decodeAs memoryActive) zero_clusterMetricsResponse
        (Inr (response 200 ''{\"typesense_memory_active_bytes\":\"4096\"}''))
     = Some memoryActive"
    by (simp add: decodes_def decodeAs_def response_def StatusOK_def)
  have d: "apiGauge ''delete_latency_seconds'' (\<lambda>resp. float64_div (DeleteLatency resp) 1000)
       \<in> set (metrics (NewAPIStats localhost))"
    by (simp add: NewAPIStats_def)
  have cd: "clusterGauge ''memory_active_bytes''
         (\<lambda>resp. float64_of_int (TypesenseMemoryActiveBytes resp))
       \<in> set (metrics (NewClusterMetrics localhost))"
    by (simp add: NewClusterMetrics_def)
  note t = decoded_scrape [OF h1 h2, of localhost 0 7 2, unfolded Let_def]
  note a = t [THEN conjunct1] and c = t [THEN conjunct2]
  show ?thesis
    using h1 h2 d cd a [THEN conjunct1] a [THEN conjunct2, THEN conjunct1]
      a [THEN conjunct2, THEN conjunct2, THEN bspec, OF d]
      c [THEN conjunct1] c [THEN conjunct2, THEN conjunct1]
      c [THEN conjunct2, THEN conjunct2, THEN bspec, OF cd]
    by (simp add: Let_def apiGauge_simps clusterGauge_simps keyWithoutSpace_def
          memoryActive_def float64_eval)
qed

section \<open>Values exposed under a name\<close>

lemma valuesNamed_append: "valuesNamed n (xs @ ys) = valuesNamed n xs @ valuesNamed n ys"
  by (simp add: valuesNamed_def)

lemma valuesNamed_none: "\<forall>m\<in>set xs. fqName (m_desc m) \<noteq> n \<Longrightarrow> valuesNamed n xs = []"
  by (simp add: valuesNamed_def)

lemma valuesNamed_vector:
  "valuesNamed n (map (vectorSample d u f) m) =
     (if fqName d = n then map (\<lambda>kv. f (snd kv)) m else [])"
  by (induction m) (simp_all add: valuesNamed_def vectorSample_def)

lemma fqName_vector:
  "fqName latencyDesc = ''typesense_api_stats_latency_seconds''"
  "fqName requestsPerSecondDesc = ''typesense_api_stats_requests_per_second''"
  by (simp_all add: latencyDesc_def requestsPerSecondDesc_def NewDesc_def)

lemma fqName_health:
  "fqName (m_desc (gaugeMetric (up (withValues (NewAPIStats u) x n k)))) =
     ''typesense_api_stats_up''"
  "fqName (m_desc (counterMetric (totalScrapes (withValues (NewAPIStats u) x n k)))) =
     ''typesense_api_stats_total_scrapes''"
  "fqName (m_desc (counterMetric (jsonParseFailures (withValues (NewAPIStats u) x n k)))) =
     ''typesense_api_stats_json_parse_failures''"
  by (simp_all add: gaugeMetric_def counterMetric_def withValues_simps NewAPIStats_health
        NewDesc_def)

lemma valuesNamed_scalars:
  "valuesNamed ''typesense_api_stats_delete_latency_seconds''
     (map (scalarSample u resp) (metrics (NewAPIStats u))) = [float64_div (DeleteLatency resp) 1000]"
  "valuesNamed ''typesense_api_stats_import_latency_seconds''
     (map (scalarSample u resp) (metrics (NewAPIStats u))) = [float64_div (ImportLatency resp) 1000]"
  "valuesNamed ''typesense_api_stats_search_latency_seconds''
     (map (scalarSample u resp) (metrics (NewAPIStats u))) = [float64_div (SearchLatency resp) 1000]"
  "valuesNamed ''typesense_api_stats_write_latency_seconds''
     (map (scalarSample u resp) (metrics (NewAPIStats u))) = [float64_div (WriteLatency resp) 1000]"
  "valuesNamed ''typesense_api_stats_latency_seconds''
     (map (scalarSample u resp) (metrics (NewAPIStats u))) = []"
  "valuesNamed ''typesense_api_stats_requests_per_second''
     (map (scalarSample u resp) (metrics (NewAPIStats u))) = []"
  by (simp_all add: valuesNamed_def NewAPIStats_def scalarSample_def apiGauge_simps
        BuildFQName_typesense)

lemma APIStats_decoded_out:
  assumes dec: "decodes json zero_apiStatsResponse got = Some resp"
  shows "sent_by (APIStats_Collect json got (withValues (NewAPIStats u) x n k)) =
           map (scalarSample u resp) (metrics (NewAPIStats u))
           @ fst (sendStats resp (stats (NewAPIStats u)) [])
           @ [gaugeMetric (up (withValues (NewAPIStats u) 1 (n + 1) k)),
              counterMetric (totalScrapes (withValues (NewAPIStats u) 1 (n + 1) k)),
              counterMetric (jsonParseFailures (withValues (NewAPIStats u) 1 (n + 1) k))]"
    and "panic_of (APIStats_Collect json got (withValues (NewAPIStats u) x n k)) =
           snd (sendStats resp (stats (NewAPIStats u)) [])"
proof -
  let ?a = "withValues (NewAPIStats u) x n k"
  obtain res bts where got: "got = Inr res" and ok: "StatusCode res = StatusOK"
    and b: "Body res = Bytes bts" and j: "json bts zero_apiStatsResponse = (resp, None)"
    using dec by (rule decodes_Some)
  have l: "\<forall>m\<in>set (metrics ?a). length (variableLabels (Desc m)) = 1"
    using metrics_NewAPIStats_labels [of u] by (simp add: withValues_simps)
  note c = APIStats_Collect_decoded [where json = json, OF ok b j l]
  show "sent_by (APIStats_Collect json got ?a) =
           map (scalarSample u resp) (metrics (NewAPIStats u))
           @ fst (sendStats resp (stats (NewAPIStats u)) [])
           @ [gaugeMetric (up (withValues (NewAPIStats u) 1 (n + 1) k)),
              counterMetric (totalScrapes (withValues (NewAPIStats u) 1 (n + 1) k)),
              counterMetric (jsonParseFailures (withValues (NewAPIStats u) 1 (n + 1) k))]"
    unfolding got c
    by (simp add: Let_def sent_by_def deferred_def withValues_simps stats_withValues url_New
          gaugeMetric_def counterMetric_def Gauge_Set_def Counter_Inc_def withValues_def)
  show "panic_of (APIStats_Collect json got ?a) = snd (sendStats resp (stats (NewAPIStats u)) [])"
    unfolding got c by (simp add: Let_def panic_of_def stats_withValues)
qed

lemma valuesNamed_health:
  assumes "name \<notin> {''typesense_api_stats_up'', ''typesense_api_stats_total_scrapes'',
      ''typesense_api_stats_json_parse_failures''}"
  shows "valuesNamed name
           [gaugeMetric (up (withValues (NewAPIStats u) x n k)),
            counterMetric (totalScrapes (withValues (NewAPIStats u) x n k)),
            counterMetric (jsonParseFailures (withValues (NewAPIStats u) x n k))] = []"
  using assms by (intro valuesNamed_none) (auto simp: fqName_health)

lemma valuesNamed_stats:
  assumes "name \<notin> {''typesense_api_stats_latency_seconds'',
      ''typesense_api_stats_requests_per_second''}"
  shows "valuesNamed name (fst (sendStats resp (stats (NewAPIStats u)) [])) = []"
proof (rule valuesNamed_none, rule ballI)
  fix m
  assume "m \<in> set (fst (sendStats resp (stats (NewAPIStats u)) []))"
  then have "m_desc m \<in> Desc ` set (stats (NewAPIStats u))"
    using sendStats_descs [of m resp "stats (NewAPIStats u)" "[]"] by simp
  then have "m_desc m = latencyDesc \<or> m_desc m = requestsPerSecondDesc"
    by (auto simp: stats_NewAPIStats Desc_apiVector)
  then show "fqName (m_desc m) \<noteq> name"
    using assms by (auto simp: fqName_vector)
qed

lemma sendStats_latency:
  assumes "\<forall>kv\<in>set (Latency resp). CHR '' '' \<in> set (fst kv)"
  obtains rest where
    "fst (sendStats resp (stats (NewAPIStats u)) []) =
       map (vectorSample latencyDesc u (\<lambda>val. float64_div val 1000)) (Latency resp) @ rest"
    and "\<forall>m\<in>set rest. m_desc m = requestsPerSecondDesc"
proof (cases "\<forall>kv\<in>set (RequestsPerSecond resp). CHR '' '' \<in> set (fst kv)")
  case True
  show ?thesis
    by (rule that [of "map (vectorSample requestsPerSecondDesc u (\<lambda>val. val))
            (RequestsPerSecond resp)"])
       (simp_all add: sendStats_ok [OF assms True] vectorSample_def)
next
  case False
  then have "\<exists>kv\<in>set (RequestsPerSecond resp). CHR '' '' \<notin> set (fst kv)"
    by simp
  then show ?thesis
    by (intro that [of "[]"]) (simp_all add: sendStats_panic_requests [OF assms])
qed

text \<open>
  Claim C3. After a scrape that fetched and decoded a response, the value exposed under
  each of the four scalar latency names is the quotient of the raw millisecond field and
  1000, and the values exposed under the vector latency name are the quotients of the raw
  values of the entries of \<open>latency_ms\<close> and 1000, one per entry, in the order of the
  iteration. The quotient is the one the program computes, \<open>raw / 1000.0\<close> on \<open>float64\<close>:
  the exact quotient rounded to the nearest \<open>float64\<close>, and nothing else is done to the raw
  value. When a key of \<open>latency_ms\<close> has no space, the collector panics before it sends any
  sample of the mapping, and no value is exposed under the vector name.
\<close>

theorem latency_in_seconds:
  assumes "decodes json zero_apiStatsResponse got = Some resp"
  shows "(let out = sent_by (APIStats_Collect json got (withValues (NewAPIStats u) x n k)) in
      valuesNamed ''typesense_api_stats_delete_latency_seconds'' out
        = [float64_div (DeleteLatency resp) 1000]
    \<and> valuesNamed ''typesense_api_stats_import_latency_seconds'' out
        = [float64_div (ImportLatency resp) 1000]
    \<and> valuesNamed ''typesense_api_stats_search_latency_seconds'' out
        = [float64_div (SearchLatency resp) 1000]
    \<and> valuesNamed ''typesense_api_stats_write_latency_seconds'' out
        = [float64_div (WriteLatency resp) 1000]
    \<and> valuesNamed ''typesense_api_stats_latency_seconds'' out
        = (if list_all (\<lambda>kv. CHR '' '' \<in> set (fst kv)) (Latency resp)
           then map (\<lambda>kv. float64_div (snd kv) 1000) (Latency resp) else []))"
proof -
  let ?out = "sent_by (APIStats_Collect json got (withValues (NewAPIStats u) x n k))"
  note o = APIStats_decoded_out(1) [OF assms, of u x n k]
  have scalars:
    "valuesNamed ''typesense_api_stats_delete_latency_seconds'' ?out
       = [float64_div (DeleteLatency resp) 1000]"
    "valuesNamed ''typesense_api_stats_import_latency_seconds'' ?out
       = [float64_div (ImportLatency resp) 1000]"
    "valuesNamed ''typesense_api_stats_search_latency_seconds'' ?out
       = [float64_div (SearchLatency resp) 1000]"
    "valuesNamed ''typesense_api_stats_write_latency_seconds'' ?out
       = [float64_div (WriteLatency resp) 1000]"
    unfolding o
    by (simp_all add: valuesNamed_append valuesNamed_scalars valuesNamed_stats
          valuesNamed_health)
  have vector: "valuesNamed ''typesense_api_stats_latency_seconds'' ?out
      = map (\<lambda>kv. float64_div (snd kv) 1000) (Latency resp)"
    if "list_all (\<lambda>kv. CHR '' '' \<in> set (fst kv)) (Latency resp)"
  proof -
    have k: "\<forall>kv\<in>set (Latency resp). CHR '' '' \<in> set (fst kv)"
      using that by (simp add: list_all_iff)
    obtain rest where v: "fst (sendStats resp (stats (NewAPIStats u)) []) =
        map (vectorSample latencyDesc u (\<lambda>val. float64_div val 1000)) (Latency resp) @ rest"
      and r: "\<forall>m\<in>set rest. m_desc m = requestsPerSecondDesc"
      using k by (rule sendStats_latency)
    have "valuesNamed ''typesense_api_stats_latency_seconds'' rest = []"
      using r by (intro valuesNamed_none) (simp add: fqName_vector)
    then show ?thesis
      unfolding o v
      by (simp add: valuesNamed_append valuesNamed_scalars valuesNamed_vector fqName_vector
            valuesNamed_health)
  qed
  have none: "valuesNamed ''typesense_api_stats_latency_seconds'' ?out = []"
    if "\<not> list_all (\<lambda>kv. CHR '' '' \<in> set (fst kv)) (Latency resp)"
  proof -
    have b: "\<exists>kv\<in>set (Latency resp). CHR '' '' \<notin> set (fst kv)"
      using that by (simp add: list_all_iff)
    show ?thesis
      unfolding o sendStats_panic_latency [OF b]
      by (simp add: valuesNamed_append valuesNamed_scalars valuesNamed_health)
  qed
  show ?thesis
    using scalars vector none by (simp add: Let_def)
qed

text \<open>
  Witness for C3: a raw 123 is exposed as \<open>553942754166571 / 2 ^ 52\<close>, the \<open>float64\<close>
  nearest to 0.123, both as a scalar and as an entry of the mapping.
\<close>

theorem latency_in_seconds_witness:
  "decodes (decodeAs latencies) zero_apiStatsResponse (Inr (response 200 latenciesBody))
     = Some latencies
   \<and> DeleteLatency latencies = 123
   \<and> Latency latencies = [(''GET /search'', 123), (''POST /documents'', 2500)]
   \<and> (let out = sent_by (APIStats_Collect (decodeAs latencies) (Inr (response 200 latenciesBody))
                  (withValues (NewAPIStats localhost) 1 7 2)) in
      valuesNamed ''typesense_api_stats_delete_latency_seconds'' out
        = [553942754166571 / 2 ^ 52]
    \<and> valuesNamed ''typesense_api_stats_import_latency_seconds'' out = [0]
    \<and> valuesNamed ''typesense_api_stats_search_latency_seconds'' out
        = [1152921504606847 / 2 ^ 57]
    \<and> valuesNamed ''typesense_api_stats_write_latency_seconds'' out = [1]
    \<and> valuesNamed ''typesense_api_stats_latency_seconds'' out
        = [553942754166571 / 2 ^ 52, 2.5])
   \<and> round64 (123 / 1000) = 553942754166571 / 2 ^ 52"
proof -
  have h1: "decodes (decodeAs latencies) zero_apiStatsResponse (Inr (response 200 latenciesBody))
     = Some latencies"
    by (simp add: decodes_def decodeAs_def response_def StatusOK_def)
  have l: "DeleteLatency latencies = 123" "ImportLatency latencies = 0"
    "SearchLatency latencies = 8" "WriteLatency latencies = 1000"
    "Latency latencies = [(''GET /search'', 123), (''POST /documents'', 2500)]"
    by (simp_all add: latencies_def zero_apiStatsResponse_def)
  show ?thesis
    using h1 latency_in_seconds [OF h1, of localhost 1 7 2]
    by (simp add: l float64_eval)
qed

lemma samplesOf_vector:
  "samplesOf d (map (vectorSample d' u f) m) =
     (if d' = d then map (vectorSample d' u f) m else [])"
  by (induction m) (simp_all add: samplesOf_def vectorSample_def)

lemma samplesOf_scalars_vector:
  "samplesOf latencyDesc (map (scalarSample u resp) (metrics (NewAPIStats u))) = []"
  "samplesOf requestsPerSecondDesc (map (scalarSample u resp) (metrics (NewAPIStats u))) = []"
proof -
  have "\<forall>m\<in>set (map (scalarSample u resp) (metrics (NewAPIStats u))).
      length (variableLabels (m_desc m)) = 1"
    using metrics_NewAPIStats_labels [of u] by (simp add: m_desc_scalarSample)
  then have "\<forall>m\<in>set (map (scalarSample u resp) (metrics (NewAPIStats u))).
      m_desc m \<noteq> latencyDesc \<and> m_desc m \<noteq> requestsPerSecondDesc"
    by (auto simp: variableLabels_vector)
  then show
    "samplesOf latencyDesc (map (scalarSample u resp) (metrics (NewAPIStats u))) = []"
    "samplesOf requestsPerSecondDesc (map (scalarSample u resp) (metrics (NewAPIStats u))) = []"
    by (simp_all add: samplesOf_none)
qed

lemma samplesOf_health_vector:
  "samplesOf latencyDesc
     [gaugeMetric (up (withValues (NewAPIStats u) x n k)),
      counterMetric (totalScrapes (withValues (NewAPIStats u) x n k)),
      counterMetric (jsonParseFailures (withValues (NewAPIStats u) x n k))] = []"
  "samplesOf requestsPerSecondDesc
     [gaugeMetric (up (withValues (NewAPIStats u) x n k)),
      counterMetric (totalScrapes (withValues (NewAPIStats u) x n k)),
      counterMetric (jsonParseFailures (withValues (NewAPIStats u) x n k))] = []"
  by (simp_all add: samplesOf_def gaugeMetric_def counterMetric_def withValues_simps
        NewAPIStats_health latencyDesc_def requestsPerSecondDesc_def NewDesc_def)

lemma latencyDesc_neq: "latencyDesc \<noteq> requestsPerSecondDesc"
  by (simp add: latencyDesc_def requestsPerSecondDesc_def NewDesc_def)

lemma APIStats_wellKeyed_out:
  assumes dec: "decodes json zero_apiStatsResponse got = Some resp" and w: "wellKeyed resp"
  shows "samplesOf latencyDesc
           (sent_by (APIStats_Collect json got (withValues (NewAPIStats u) x n k))) =
         map (vectorSample latencyDesc u (\<lambda>val. float64_div val 1000)) (Latency resp)"
    and "samplesOf requestsPerSecondDesc
           (sent_by (APIStats_Collect json got (withValues (NewAPIStats u) x n k))) =
         map (vectorSample requestsPerSecondDesc u (\<lambda>val. val)) (RequestsPerSecond resp)"
    and "panic_of (APIStats_Collect json got (withValues (NewAPIStats u) x n k)) = None"
proof -
  have k: "\<forall>kv\<in>set (Latency resp). CHR '' '' \<in> set (fst kv)"
    "\<forall>kv\<in>set (RequestsPerSecond resp). CHR '' '' \<in> set (fst kv)"
    using w by (simp_all add: wellKeyed_def list_all_iff)
  note o = APIStats_decoded_out [OF dec, of u x n k]
  note s = sendStats_ok [OF k, of u "[]"]
  show "samplesOf latencyDesc
           (sent_by (APIStats_Collect json got (withValues (NewAPIStats u) x n k))) =
         map (vectorSample latencyDesc u (\<lambda>val. float64_div val 1000)) (Latency resp)"
    unfolding o(1) s
    using latencyDesc_neq
    by (simp add: samplesOf_append samplesOf_scalars_vector samplesOf_health_vector
          samplesOf_vector)
  show "samplesOf requestsPerSecondDesc
           (sent_by (APIStats_Collect json got (withValues (NewAPIStats u) x n k))) =
         map (vectorSample requestsPerSecondDesc u (\<lambda>val. val)) (RequestsPerSecond resp)"
    unfolding o(1) s
    using latencyDesc_neq
    by (simp add: samplesOf_append samplesOf_scalars_vector samplesOf_health_vector
          samplesOf_vector)
  show "panic_of (APIStats_Collect json got (withValues (NewAPIStats u) x n k)) = None"
    unfolding o(2) s by simp
qed

section \<open>The vector metrics\<close>

text \<open>
  Claim C2. A valid response is one in which every key of the two mappings has exactly one
  space (the specification calls a key with none or with several malformed). For such a
  response that was fetched and decoded, the collector does not panic and sends exactly one
  sample per entry of each mapping, in the order of the iteration: a gauge of the
  descriptor of the mapping, whose label names are \<open>cluster\<close>, \<open>method\<close>, \<open>endpoint\<close> in this
  order and whose label values are the upstream URL, the part of the key before its space
  and the part after it. The value is the entry's value for \<open>requests_per_second\<close> and its
  quotient by 1000 for \<open>latency_ms\<close>.
\<close>

theorem vector_samples:
  assumes "decodes json zero_apiStatsResponse got = Some resp"
    and "list_all (\<lambda>kv. count_list (fst kv) CHR '' '' = 1) (Latency resp)"
    and "list_all (\<lambda>kv. count_list (fst kv) CHR '' '' = 1) (RequestsPerSecond resp)"
  shows "(let r = APIStats_Collect json got (withValues (NewAPIStats u) x n k) in
      panic_of r = None
    \<and> samplesOf latencyDesc (sent_by r) =
        map (\<lambda>kv. \<lparr>m_desc = latencyDesc, m_type = GaugeValue,
                    m_value = float64_div (snd kv) 1000,
                    m_labelValues = [u, methodOf (fst kv), afterFirstSpace (fst kv)]\<rparr>)
          (Latency resp)
    \<and> samplesOf requestsPerSecondDesc (sent_by r) =
        map (\<lambda>kv. \<lparr>m_desc = requestsPerSecondDesc, m_type = GaugeValue, m_value = snd kv,
                    m_labelValues = [u, methodOf (fst kv), afterFirstSpace (fst kv)]\<rparr>)
          (RequestsPerSecond resp))
    \<and> variableLabels latencyDesc = [''cluster'', ''method'', ''endpoint'']
    \<and> variableLabels requestsPerSecondDesc = [''cluster'', ''method'', ''endpoint'']
    \<and> list_all (\<lambda>kv. fst kv = methodOf (fst kv) @ '' '' @ afterFirstSpace (fst kv))
         (Latency resp @ RequestsPerSecond resp)"
proof -
  have one: "count_list (fst kv) CHR '' '' = 1"
    if "kv \<in> set (Latency resp) \<union> set (RequestsPerSecond resp)" for kv
    using that assms(2,3) by (auto simp: list_all_iff)
  have "CHR '' '' \<in> set (fst kv)"
    if "kv \<in> set (Latency resp) \<union> set (RequestsPerSecond resp)" for kv
    using one [OF that] count_list_0_iff [of "fst kv" "CHR '' ''"] by auto
  then have w: "wellKeyed resp"
    by (simp add: wellKeyed_def list_all_iff)
  have v: "map (vectorSample d u f) m =
      map (\<lambda>kv. \<lparr>m_desc = d, m_type = GaugeValue, m_value = f (snd kv),
                  m_labelValues = [u, methodOf (fst kv), afterFirstSpace (fst kv)]\<rparr>) m"
    if m: "set m \<subseteq> set (Latency resp) \<union> set (RequestsPerSecond resp)"
    for d f and m :: apiStatEntry
  proof (rule map_cong [OF refl])
    fix kv
    assume "kv \<in> set m"
    then have "count_list (fst kv) CHR '' '' = 1"
      using m one by blast
    then show "vectorSample d u f kv =
        \<lparr>m_desc = d, m_type = GaugeValue, m_value = f (snd kv),
         m_labelValues = [u, methodOf (fst kv), afterFirstSpace (fst kv)]\<rparr>"
      by (simp add: vectorSample_def afterFirstSpace_one_space(1))
  qed
  have keys: "list_all (\<lambda>kv. fst kv = methodOf (fst kv) @ '' '' @ afterFirstSpace (fst kv))
      (Latency resp @ RequestsPerSecond resp)"
    unfolding list_all_iff using one afterFirstSpace_one_space(2) by auto
  show ?thesis
    using APIStats_wellKeyed_out [OF assms(1) w, of u x n k] keys variableLabels_vector
      v [of "Latency resp" latencyDesc "\<lambda>val. float64_div val 1000"]
      v [of "RequestsPerSecond resp" requestsPerSecondDesc "\<lambda>val. val"]
    by (simp add: Let_def)
qed

text \<open>Witness for C2: the example mapping of the specification.\<close>

theorem vector_samples_witness:
  "decodes (decodeAs searchAndDocuments) zero_apiStatsResponse
      (Inr (response 200
         ''{\"requests_per_second\":{\"GET /search\":12.5,\"POST /documents\":3.0}}''))
     = Some searchAndDocuments
   \<and> list_all (\<lambda>kv. count_list (fst kv) CHR '' '' = 1) (Latency searchAndDocuments)
   \<and> list_all (\<lambda>kv. count_list (fst kv) CHR '' '' = 1) (RequestsPerSecond searchAndDocuments)
   \<and> RequestsPerSecond searchAndDocuments = [(''GET /search'', 12.5), (''POST /documents'', 3)]
   \<and> (let r = APIStats_Collect (decodeAs searchAndDocuments)
                (Inr (response 200
                   ''{\"requests_per_second\":{\"GET /search\":12.5,\"POST /documents\":3.0}}''))
                (withValues (NewAPIStats localhost) 1 7 2) in
      panic_of r = None
    \<and> samplesOf latencyDesc (sent_by r) = []
    \<and> samplesOf requestsPerSecondDesc (sent_by r) =
        [\<lparr>m_desc = requestsPerSecondDesc, m_type = GaugeValue, m_value = 12.5,
          m_labelValues = [localhost, ''GET'', ''/search'']\<rparr>,
         \<lparr>m_desc = requestsPerSecondDesc, m_type = GaugeValue, m_value = 3,
          m_labelValues = [localhost, ''POST'', ''/documents'']\<rparr>])"
proof -
  have h1: "decodes (decodeAs searchAndDocuments) zero_apiStatsResponse
      (Inr (response 200
         ''{\"requests_per_second\":{\"GET /search\":12.5,\"POST /documents\":3.0}}''))
     = Some searchAndDocuments"
    by (simp add: decodes_def decodeAs_def response_def StatusOK_def)
  have l: "Latency searchAndDocuments = []"
    "RequestsPerSecond searchAndDocuments = [(''GET /search'', 12.5), (''POST /documents'', 3)]"
    by (simp_all add: searchAndDocuments_def zero_apiStatsResponse_def)
  have h2: "list_all (\<lambda>kv. count_list (fst kv) CHR '' '' = 1) (Latency searchAndDocuments)"
    by (simp add: l)
  have h3: "list_all (\<lambda>kv. count_list (fst kv) CHR '' '' = 1)
      (RequestsPerSecond searchAndDocuments)"
    by (simp add: l)
  show ?thesis
    using h1 h2 h3 vector_samples [OF h1 h2 h3, of localhost 1 7 2]
    by (simp add: Let_def l methodOf_def afterFirstSpace_def)
qed

section \<open>Keys with no space, or with several\<close>

lemma withValues_New:
  "withValues (NewAPIStats u) 0 0 0 = NewAPIStats u"
  "withValues (NewClusterMetrics u) 0 0 0 = NewClusterMetrics u"
  by (simp_all add: withValues_def NewAPIStats_def NewClusterMetrics_def NewGauge_def
        NewCounter_def)

lemma APIStats_Collect_no_space:
  assumes "decodes json zero_apiStatsResponse got = Some resp"
    and "\<exists>kv\<in>set (Latency resp). CHR '' '' \<notin> set (fst kv)"
  shows "panic_of (APIStats_Collect json got (withValues (NewAPIStats u) x n k))
           = Some (IndexOutOfRange 1 1)"
    and "samplesOf latencyDesc
           (sent_by (APIStats_Collect json got (withValues (NewAPIStats u) x n k))) = []"
    and "samplesOf requestsPerSecondDesc
           (sent_by (APIStats_Collect json got (withValues (NewAPIStats u) x n k))) = []"
  unfolding APIStats_decoded_out [OF assms(1)] sendStats_panic_latency [OF assms(2)]
  by (simp_all add: samplesOf_append samplesOf_scalars_vector samplesOf_health_vector)

text \<open>
  Claim C6 fails on the code. \<open>splitStatKey\<close> has no error result and checks nothing. On a
  key with no space \<open>strings.Split\<close> returns a slice of one element and \<open>split[1]\<close> is out of
  range: a run-time panic that nothing in the collector recovers, so that \<open>Collect\<close> ends in
  it, having sent the scalar samples and, from the deferred function, the three health
  samples, and no sample of either mapping. A key with more than one space is not rejected
  either: it is cut at its second space and the rest is dropped, so that the keys
  \<open>GET /a b\<close> and \<open>GET /a c\<close> are given the same label values.
\<close>

theorem malformed_keys:
  "splitStatKey ''health'' = Inl (IndexOutOfRange 1 1)
   \<and> Latency keyWithoutSpace = [(''health'', 5)]
   \<and> (let r = APIStats_Collect (decodeAs keyWithoutSpace)
                (Inr (response 200 ''{\"delete_latency_ms\":2500,\"latency_ms\":{\"health\":5}}''))
                (NewAPIStats localhost) in
        panic_of r = Some (IndexOutOfRange 1 1)
      \<and> samplesOf latencyDesc (sent_by r) = []
      \<and> samplesOf requestsPerSecondDesc (sent_by r) = [])
   \<and> splitStatKey ''GET /a b'' = Inr (''GET'', ''/a'')
   \<and> splitStatKey ''GET /a c'' = Inr (''GET'', ''/a'')
   \<and> RequestsPerSecond keyWithTwoSpaces = [(''GET /a b'', 1), (''GET /a c'', 2)]
   \<and> (let r = APIStats_Collect (decodeAs keyWithTwoSpaces)
                (Inr (response 200 ''{\"requests_per_second\":{\"GET /a b\":1,\"GET /a c\":2}}''))
                (NewAPIStats localhost) in
        panic_of r = None
      \<and> map m_labelValues (samplesOf requestsPerSecondDesc (sent_by r))
          = [[localhost, ''GET'', ''/a''], [localhost, ''GET'', ''/a'']])"
proof -
  have h: "decodes (decodeAs keyWithoutSpace) zero_apiStatsResponse
      (Inr (response 200 ''{\"delete_latency_ms\":2500,\"latency_ms\":{\"health\":5}}''))
     = Some keyWithoutSpace"
    by (simp add: decodes_def decodeAs_def response_def StatusOK_def)
  have l: "Latency keyWithoutSpace = [(''health'', 5)]"
    by (simp add: keyWithoutSpace_def zero_apiStatsResponse_def)
  have b: "\<exists>kv\<in>set (Latency keyWithoutSpace). CHR '' '' \<notin> set (fst kv)"
    by (simp add: l)
  have h': "decodes (decodeAs keyWithTwoSpaces) zero_apiStatsResponse
      (Inr (response 200 ''{\"requests_per_second\":{\"GET /a b\":1,\"GET /a c\":2}}''))
     = Some keyWithTwoSpaces"
    by (simp add: decodes_def decodeAs_def response_def StatusOK_def)
  have l': "RequestsPerSecond keyWithTwoSpaces = [(''GET /a b'', 1), (''GET /a c'', 2)]"
    by (simp add: keyWithTwoSpaces_def zero_apiStatsResponse_def)
  have w: "wellKeyed keyWithTwoSpaces"
    by (simp add: wellKeyed_def keyWithTwoSpaces_def zero_apiStatsResponse_def)
  have 1: "splitStatKey ''health'' = Inl (IndexOutOfRange 1 1)"
    by (simp add: splitStatKey_no_space)
  have 2: "splitStatKey ''GET /a b'' = Inr (''GET'', ''/a'')"
    "splitStatKey ''GET /a c'' = Inr (''GET'', ''/a'')"
    by (simp_all add: splitStatKey_space methodOf_def endpointOf_def)
  show ?thesis
    using 1 2 l l' APIStats_Collect_no_space [OF h b, of localhost 0 0 0]
      APIStats_wellKeyed_out(2,3) [OF h' w, of localhost 0 0 0]
    by (simp add: Let_def withValues_New vectorSample_def methodOf_def endpointOf_def)
qed

section \<open>The aggregator waits for every goroutine\<close>

lemma execute_eq:
  "execute name c duration =
     (sent c @ [durationSample name duration, successSample name c], None)"
  by (simp add: execute_def MustNewConstMetric_def scrapeDurationDesc_def scrapeSuccessDesc_def
        NewDesc_def durationSample_def successSample_def Let_def)

lemma spawn_eq:
  "spawn clock nc =
     Running (sent (snd nc) @ [durationSample (fst nc) (clock (fst nc)),
                               successSample (fst nc) (snd nc)]) None"
  by (simp add: spawn_def execute_eq)

lemma outstanding_update:
  "i < length gs \<Longrightarrow>
   mset (outstanding (gs[i := g])) + mset (pending (gs ! i)) =
   mset (outstanding gs) + mset (pending g)"
proof (induction gs arbitrary: i)
  case Nil
  then show ?case by simp
next
  case (Cons a gs)
  show ?case
  proof (cases i)
    case 0
    then show ?thesis by (simp add: outstanding_def)
  next
    case (Suc j)
    then have "j < length gs" using Cons.prems by simp
    then show ?thesis
      using Cons.IH [of j] Suc by (simp add: outstanding_def)
  qed
qed

lemma unfinished_update:
  "i < length gs \<Longrightarrow>
   unfinished (gs[i := g]) + (if gs ! i \<noteq> Finished then 1 else 0) =
   unfinished gs + (if g \<noteq> Finished then 1 else 0)"
proof (induction gs arbitrary: i)
  case Nil
  then show ?case by simp
next
  case (Cons a gs)
  show ?case
  proof (cases i)
    case 0
    then show ?thesis by (simp add: unfinished_def)
  next
    case (Suc j)
    then have "j < length gs" using Cons.prems by simp
    then show ?thesis
      using Cons.IH [of j] Suc unfolding unfinished_def
      by (cases "gs ! j = Finished"; cases "g = Finished"; cases "a = Finished"; simp)
  qed
qed

lemma harmless_update:
  "list_all harmless gs \<Longrightarrow> harmless g \<Longrightarrow> list_all harmless (gs[i := g])"
  by (induction gs arbitrary: i) (auto split: nat.splits)

lemma step_inv:
  assumes wg: "wg s = unfinished (goroutines s)" and h: "list_all harmless (goroutines s)"
  obtains s' where "step i s = Inr s'"
    and "wg s' = unfinished (goroutines s')"
    and "list_all harmless (goroutines s')"
    and "length (goroutines s') = length (goroutines s)"
    and "mset (chan s') + mset (outstanding (goroutines s')) =
         mset (chan s) + mset (outstanding (goroutines s))"
proof (cases "i < length (goroutines s)")
  case False
  then have "step i s = Inr s"
    by (simp add: step_def)
  then show ?thesis
    using wg h by (rule that) simp_all
next
  case i: True
  show ?thesis
  proof (cases "goroutines s ! i")
    case Finished
    then have "step i s = Inr s"
      using i by (simp add: step_def)
    then show ?thesis
      using wg h by (rule that) simp_all
  next
    case (Running ms p)
    have "harmless (goroutines s ! i)"
      using h i by (simp add: list_all_length)
    then have p: "p = None"
      using Running by simp
    show ?thesis
    proof (cases ms)
      case Nil
      let ?s' = "s\<lparr>goroutines := (goroutines s)[i := Finished], wg := wg s - 1\<rparr>"
      have st: "step i s = Inr ?s'"
        using i Running p Nil by (simp add: step_def)
      have u: "unfinished ((goroutines s)[i := Finished]) + 1 = unfinished (goroutines s)"
        using unfinished_update [OF i, of Finished] Running by simp
      have o: "mset (outstanding ((goroutines s)[i := Finished])) =
          mset (outstanding (goroutines s))"
        using outstanding_update [OF i, of Finished] Running Nil by simp
      show ?thesis
        using st
      proof (rule that)
        show "wg ?s' = unfinished (goroutines ?s')"
          using u wg by simp
        show "list_all harmless (goroutines ?s')"
          using h by (simp add: harmless_update)
        show "length (goroutines ?s') = length (goroutines s)"
          by simp
        show "mset (chan ?s') + mset (outstanding (goroutines ?s')) =
            mset (chan s) + mset (outstanding (goroutines s))"
          using o by simp
      qed
    next
      case (Cons m rest)
      let ?s' = "s\<lparr>goroutines := (goroutines s)[i := Running rest p],
                     chan := chan s @ [m]\<rparr>"
      have st: "step i s = Inr ?s'"
        using i Running Cons by (simp add: step_def)
      have u: "unfinished ((goroutines s)[i := Running rest p]) = unfinished (goroutines s)"
        using unfinished_update [OF i, of "Running rest p"] Running by simp
      have o: "mset (outstanding ((goroutines s)[i := Running rest p])) + {#m#} =
          mset (outstanding (goroutines s))"
        using outstanding_update [OF i, of "Running rest p"] Running Cons by simp
      show ?thesis
        using st
      proof (rule that)
        show "wg ?s' = unfinished (goroutines ?s')"
          using u wg by simp
        show "list_all harmless (goroutines ?s')"
          using h p by (simp add: harmless_update)
        show "length (goroutines ?s') = length (goroutines s)"
          by simp
        show "mset (chan ?s') + mset (outstanding (goroutines ?s')) =
            mset (chan s) + mset (outstanding (goroutines s))"
          using o by (simp add: add.commute add.left_commute)
      qed
    qed
  qed
qed

lemma unfinished_0: "unfinished gs = 0 \<longleftrightarrow> list_all (\<lambda>g. g = Finished) gs"
  by (induction gs) (auto simp: unfinished_def)

lemma outstanding_Finished: "list_all (\<lambda>g. g = Finished) gs \<Longrightarrow> outstanding gs = []"
  by (induction gs) (auto simp: outstanding_def)

lemma wait_inv:
  assumes "wg s = unfinished (goroutines s)" and "list_all harmless (goroutines s)"
  shows "wait sched s \<noteq> Some (Inl p)"
    and "wait sched s = Some (Inr s') \<Longrightarrow>
         list_all (\<lambda>g. g = Finished) (goroutines s')
         \<and> length (goroutines s') = length (goroutines s)
         \<and> mset (chan s') = mset (chan s) + mset (outstanding (goroutines s))"
  using assms
proof (induction sched arbitrary: s)
  case Nil
  {
    case 1
    then show ?case by simp
  next
    case 2
    then show ?case
      by (auto simp: unfinished_0 outstanding_Finished split: if_splits)
  }
next
  case (Cons i sched)
  {
    case 1
    obtain s1 where st: "step i s = Inr s1" and w1: "wg s1 = unfinished (goroutines s1)"
      and h1: "list_all harmless (goroutines s1)"
      using 1 by (rule step_inv)
    show ?case
      using st Cons.IH(1) [OF w1 h1] by simp
  next
    case 2
    obtain s1 where st: "step i s = Inr s1" and w1: "wg s1 = unfinished (goroutines s1)"
      and h1: "list_all harmless (goroutines s1)"
      and l1: "length (goroutines s1) = length (goroutines s)"
      and m1: "mset (chan s1) + mset (outstanding (goroutines s1)) =
         mset (chan s) + mset (outstanding (goroutines s))"
      using 2(2,3) by (rule step_inv)
    show ?case
    proof (cases "wg s = 0")
      case True
      then show ?thesis
        using 2 by (auto simp: unfinished_0 outstanding_Finished)
    next
      case False
      then have "wait sched s1 = Some (Inr s')"
        using 2(1) st by simp
      then show ?thesis
        using Cons.IH(2) [OF _ w1 h1] l1 m1 by (simp add: add.assoc)
    qed
  }
qed

lemma unfinished_pos: "i < length gs \<Longrightarrow> gs ! i \<noteq> Finished \<Longrightarrow> 0 < unfinished gs"
  unfolding unfinished_def by (induction gs arbitrary: i) (auto split: nat.splits simp: nth_Cons)

lemma run_one:
  assumes "i < length (goroutines s)" and "goroutines s ! i = Running ms None"
    and "0 < wg s"
  shows "wait (replicate (Suc (length ms)) i @ rest) s =
         wait rest (s\<lparr>goroutines := (goroutines s)[i := Finished], wg := wg s - 1,
                     chan := chan s @ ms\<rparr>)"
  using assms
proof (induction ms arbitrary: s)
  case Nil
  then show ?case
    by (simp add: step_def)
next
  case (Cons m ms)
  let ?s1 = "s\<lparr>goroutines := (goroutines s)[i := Running ms None], chan := chan s @ [m]\<rparr>"
  have st: "step i s = Inr ?s1"
    using Cons.prems by (simp add: step_def)
  have "wait (replicate (Suc (length (m # ms))) i @ rest) s =
      wait (replicate (Suc (length ms)) i @ rest) ?s1"
    using Cons.prems(3) st by simp
  also have "\<dots> = wait rest (?s1\<lparr>goroutines := (goroutines ?s1)[i := Finished],
      wg := wg ?s1 - 1, chan := chan ?s1 @ ms\<rparr>)"
    using Cons.prems by (intro Cons.IH) simp_all
  finally show ?case
    by simp
qed

lemma sequential_returns:
  assumes "goroutines s = done @ todo" and "wg s = length todo"
    and "list_all (\<lambda>g. harmless g \<and> g \<noteq> Finished) todo"
  shows "\<exists>s'. wait (sequential (length done) todo) s = Some (Inr s')"
  using assms
proof (induction todo arbitrary: s "done")
  case Nil
  then show ?case by simp
next
  case (Cons g todo)
  obtain ms where g: "g = Running ms None"
    using Cons.prems(3) by (cases g) auto
  let ?i = "length done"
  let ?s1 = "s\<lparr>goroutines := (goroutines s)[?i := Finished], wg := wg s - 1,
      chan := chan s @ ms\<rparr>"
  have i: "?i < length (goroutines s)" and n: "goroutines s ! ?i = Running ms None"
    using Cons.prems(1) g by simp_all
  have "wait (sequential ?i (g # todo)) s = wait (sequential (Suc ?i) todo) ?s1"
    using run_one [OF i n, of "sequential (Suc ?i) todo"] Cons.prems(2) g by simp
  moreover have "\<exists>s'. wait (sequential (length (done @ [Finished])) todo) ?s1 = Some (Inr s')"
    using Cons.prems by (intro Cons.IH) simp_all
  ultimately show ?case
    by simp
qed

lemma spawn_executed: "spawn clock nc = Running (executed clock nc) None"
  by (simp add: spawn_eq executed_def)

lemma spawned:
  "unfinished (map (spawn clock) cs) = length cs"
  "list_all (\<lambda>g. harmless g \<and> g \<noteq> Finished) (map (spawn clock) cs)"
  "list_all harmless (map (spawn clock) cs)"
  "outstanding (map (spawn clock) cs) = concat (map (executed clock) cs)"
  by (induction cs) (simp_all add: unfinished_def outstanding_def spawn_executed)

lemma Collect_returned:
  assumes "TypesenseCollector_Collect clock sched e = Some (Inr s)"
  shows "list_all (\<lambda>g. g = Finished) (goroutines s)"
    and "length (goroutines s) = length (Collectors e)"
    and "mset (chan s) = mset (concat (map (executed clock) (Collectors e)))"
proof -
  let ?s0 = "\<lparr>goroutines = map (spawn clock) (Collectors e), wg = length (Collectors e),
      chan = []\<rparr>"
  have w: "wg ?s0 = unfinished (goroutines ?s0)" and h: "list_all harmless (goroutines ?s0)"
    by (simp_all add: spawned)
  have r: "wait sched ?s0 = Some (Inr s)"
    using assms by (simp add: TypesenseCollector_Collect_def)
  show "list_all (\<lambda>g. g = Finished) (goroutines s)"
    and "length (goroutines s) = length (Collectors e)"
    and "mset (chan s) = mset (concat (map (executed clock) (Collectors e)))"
    using wait_inv(2) [OF w h r] by (simp_all add: spawned)
qed

lemma Collect_no_crash: "TypesenseCollector_Collect clock sched e \<noteq> Some (Inl p)"
proof -
  let ?s0 = "\<lparr>goroutines = map (spawn clock) (Collectors e), wg = length (Collectors e),
      chan = []\<rparr>"
  have w: "wg ?s0 = unfinished (goroutines ?s0)" and h: "list_all harmless (goroutines ?s0)"
    by (simp_all add: spawned)
  show ?thesis
    using wait_inv(1) [OF w h] by (simp add: TypesenseCollector_Collect_def)
qed

lemma Collect_returns:
  "\<exists>s. TypesenseCollector_Collect clock (sequential 0 (map (spawn clock) (Collectors e))) e
        = Some (Inr s)"
proof -
  let ?s0 = "\<lparr>goroutines = map (spawn clock) (Collectors e), wg = length (Collectors e),
      chan = []\<rparr>"
  have "\<exists>s. wait (sequential (length ([] :: goroutine list)) (map (spawn clock) (Collectors e)))
      ?s0 = Some (Inr s)"
    by (rule sequential_returns) (simp_all add: spawned)
  then show ?thesis
    by (simp add: TypesenseCollector_Collect_def)
qed

lemma executed_in_chan:
  assumes "mset out = mset (concat (map (executed clock) cs))" and "nc \<in> set cs"
  shows "set (executed clock nc) \<subseteq> set out"
proof -
  have "set out = set (concat (map (executed clock) cs))"
    using assms(1) by (rule mset_eq_setD)
  then show ?thesis
    using assms(2) by auto
qed

text \<open>
  Claim C9. Whatever the scheduler does, when the aggregator's \<open>Collect\<close> returns, every
  goroutine it started has finished, and the stream holds exactly what the goroutines had
  to send: for each entry of \<open>Collectors\<close>, what the collector's \<open>Update\<close> sent, a duration
  gauge and a success gauge, both labelled with the entry's name. The success gauge is 0
  exactly when \<open>Update\<close> returned an error and 1 otherwise; the samples of an entry are there
  whether the other entries failed or not. \<open>Collect\<close> never ends in a panic, and it does
  return when the goroutines are run one after the other.
\<close>

theorem collect_waits_for_all:
  assumes "TypesenseCollector_Collect clock sched e = Some (Inr s)"
  shows "list_all (\<lambda>g. g = Finished) (goroutines s)
       \<and> length (goroutines s) = length (Collectors e)
       \<and> mset (chan s) = mset (concat (map (executed clock) (Collectors e)))
       \<and> list_all (\<lambda>nc.
             set (sent (snd nc)) \<subseteq> set (chan s)
           \<and> durationSample (fst nc) (clock (fst nc)) \<in> set (chan s)
           \<and> successSample (fst nc) (snd nc) \<in> set (chan s)
           \<and> (m_value (successSample (fst nc) (snd nc)) = 0 \<longleftrightarrow> err (snd nc) \<noteq> None)
           \<and> (m_value (successSample (fst nc) (snd nc)) = 1 \<longleftrightarrow> err (snd nc) = None))
           (Collectors e)
       \<and> TypesenseCollector_Collect clock sched' e \<noteq> Some (Inl p)
       \<and> (\<exists>s'. TypesenseCollector_Collect clock
                  (sequential 0 (map (spawn clock) (Collectors e))) e = Some (Inr s'))"
proof -
  note r = Collect_returned [OF assms]
  have "set (sent (snd nc)) \<subseteq> set (chan s)
      \<and> durationSample (fst nc) (clock (fst nc)) \<in> set (chan s)
      \<and> successSample (fst nc) (snd nc) \<in> set (chan s)
      \<and> (m_value (successSample (fst nc) (snd nc)) = 0 \<longleftrightarrow> err (snd nc) \<noteq> None)
      \<and> (m_value (successSample (fst nc) (snd nc)) = 1 \<longleftrightarrow> err (snd nc) = None)"
    if "nc \<in> set (Collectors e)" for nc
    using executed_in_chan [OF r(3) that]
    by (auto simp: executed_def successSample_def)
  then have "list_all (\<lambda>nc.
        set (sent (snd nc)) \<subseteq> set (chan s)
      \<and> durationSample (fst nc) (clock (fst nc)) \<in> set (chan s)
      \<and> successSample (fst nc) (snd nc) \<in> set (chan s)
      \<and> (m_value (successSample (fst nc) (snd nc)) = 0 \<longleftrightarrow> err (snd nc) \<noteq> None)
      \<and> (m_value (successSample (fst nc) (snd nc)) = 1 \<longleftrightarrow> err (snd nc) = None))
      (Collectors e)"
    unfolding list_all_iff by blast
  then show ?thesis
    using r Collect_no_crash Collect_returns by blast
qed

text \<open>
  Witness for C9: two collectors, the first one failing, under an interleaving schedule.
\<close>

theorem collect_waits_for_all_witness:
  "TypesenseCollector_Collect quarterSecond [0, 1, 1, 0, 1, 0, 1] twoCollectors
     = Some (Inr allFinished)
   \<and> (list_all (\<lambda>g. g = Finished) (goroutines allFinished)
       \<and> length (goroutines allFinished) = length (Collectors twoCollectors)
       \<and> mset (chan allFinished)
           = mset (concat (map (executed quarterSecond) (Collectors twoCollectors)))
       \<and> list_all (\<lambda>nc.
             set (sent (snd nc)) \<subseteq> set (chan allFinished)
           \<and> durationSample (fst nc) (quarterSecond (fst nc)) \<in> set (chan allFinished)
           \<and> successSample (fst nc) (snd nc) \<in> set (chan allFinished)
           \<and> (m_value (successSample (fst nc) (snd nc)) = 0 \<longleftrightarrow> err (snd nc) \<noteq> None)
           \<and> (m_value (successSample (fst nc) (snd nc)) = 1 \<longleftrightarrow> err (snd nc) = None))
           (Collectors twoCollectors)
       \<and> TypesenseCollector_Collect quarterSecond [1, 1, 0] twoCollectors
           \<noteq> Some (Inl InconsistentCardinality)
       \<and> (\<exists>s'. TypesenseCollector_Collect quarterSecond
                  (sequential 0 (map (spawn quarterSecond) (Collectors twoCollectors)))
                  twoCollectors = Some (Inr s')))"
proof -
  have h: "TypesenseCollector_Collect quarterSecond [0, 1, 1, 0, 1, 0, 1] twoCollectors
     = Some (Inr allFinished)"
    by (simp add: TypesenseCollector_Collect_def spawn_executed executed_def step_def
          twoCollectors_def allFinished_def quarterSecond_def failingCollector_def
          workingCollector_def)
  show ?thesis
    by (rule conjI [OF h collect_waits_for_all [OF h]])
qed

section \<open>How many scrape-health samples a scrape yields\<close>

lemma scrape_descs_differ: "scrapeDurationDesc \<noteq> scrapeSuccessDesc"
  by (simp add: scrapeDurationDesc_def scrapeSuccessDesc_def NewDesc_def BuildFQName_typesense)

lemma samplesOf_executed:
  "samplesOf scrapeDurationDesc (executed clock nc) =
     samplesOf scrapeDurationDesc (sent (snd nc)) @ [durationSample (fst nc) (clock (fst nc))]"
  "samplesOf scrapeSuccessDesc (executed clock nc) =
     samplesOf scrapeSuccessDesc (sent (snd nc)) @ [successSample (fst nc) (snd nc)]"
  using scrape_descs_differ
  by (auto simp: executed_def samplesOf_def durationSample_def successSample_def)

lemma samplesOf_all_executed:
  "mset (samplesOf scrapeDurationDesc (concat (map (executed clock) cs))) =
     mset (map (\<lambda>nc. durationSample (fst nc) (clock (fst nc))) cs)
     + mset (samplesOf scrapeDurationDesc (concat (map (\<lambda>nc. sent (snd nc)) cs)))"
  "mset (samplesOf scrapeSuccessDesc (concat (map (executed clock) cs))) =
     mset (map (\<lambda>nc. successSample (fst nc) (snd nc)) cs)
     + mset (samplesOf scrapeSuccessDesc (concat (map (\<lambda>nc. sent (snd nc)) cs)))"
proof (induction cs)
  case Nil
  show "mset (samplesOf scrapeDurationDesc (concat (map (executed clock) []))) =
     mset (map (\<lambda>nc. durationSample (fst nc) (clock (fst nc))) [])
     + mset (samplesOf scrapeDurationDesc (concat (map (\<lambda>nc. sent (snd nc)) [])))"
    by (simp add: samplesOf_def)
  show "mset (samplesOf scrapeSuccessDesc (concat (map (executed clock) []))) =
     mset (map (\<lambda>nc. successSample (fst nc) (snd nc)) [])
     + mset (samplesOf scrapeSuccessDesc (concat (map (\<lambda>nc. sent (snd nc)) [])))"
    by (simp add: samplesOf_def)
next
  case (Cons c cs)
  show "mset (samplesOf scrapeDurationDesc (concat (map (executed clock) (c # cs)))) =
     mset (map (\<lambda>nc. durationSample (fst nc) (clock (fst nc))) (c # cs))
     + mset (samplesOf scrapeDurationDesc (concat (map (\<lambda>nc. sent (snd nc)) (c # cs))))"
    using Cons.IH(1) by (simp add: samplesOf_append samplesOf_executed)
  show "mset (samplesOf scrapeSuccessDesc (concat (map (executed clock) (c # cs)))) =
     mset (map (\<lambda>nc. successSample (fst nc) (snd nc)) (c # cs))
     + mset (samplesOf scrapeSuccessDesc (concat (map (\<lambda>nc. sent (snd nc)) (c # cs))))"
    using Cons.IH(2) by (simp add: samplesOf_append samplesOf_executed)
qed

lemma samplesOf_mset_eq: "mset xs = mset ys \<Longrightarrow> mset (samplesOf d xs) = mset (samplesOf d ys)"
  by (simp add: samplesOf_def)

lemma Collect_nothing_registered:
  "TypesenseCollector_Collect clock sched NewTypesenseCollector =
     Some (Inr \<lparr>goroutines = [], wg = 0, chan = []\<rparr>)"
  by (cases sched) (simp_all add: TypesenseCollector_Collect_def NewTypesenseCollector_def)

lemma scrape_descs_labels:
  "variableLabels scrapeDurationDesc = [''collector'']"
  "variableLabels scrapeSuccessDesc = [''collector'']"
  by (simp_all add: scrapeDurationDesc_def scrapeSuccessDesc_def NewDesc_def)

lemma APIStats_no_scrape_health:
  assumes "variableLabels d = [''collector'']"
  shows "samplesOf d (sent_by (APIStats_Collect json got (withValues (NewAPIStats u) x n k))) = []"
proof -
  let ?a = "withValues (NewAPIStats u) x n k"
  let ?r = "APIStats_Collect json got ?a"
  obtain fs where s: "sent_by ?r = fs @ deferred (state_of ?r) []"
    and f: "\<forall>m\<in>set fs. m_desc m \<in> Desc ` set (metrics ?a) \<union> Desc ` set (stats ?a)"
    by (rule APIStats_Collect_shape)
  have "m_desc m \<noteq> d" if "m \<in> set fs" for m
  proof -
    have "m_desc m \<in> Desc ` set (metrics (NewAPIStats u)) \<union> Desc ` set (stats (NewAPIStats u))"
      using f that by (simp add: withValues_simps stats_withValues)
    then have "length (variableLabels (m_desc m)) = 1 \<and> variableLabels (m_desc m) = [''cluster'']
        \<or> length (variableLabels (m_desc m)) = 3"
      by (auto simp: NewAPIStats_def apiGauge_simps apiVector_simps)
    then show ?thesis
      using assms by auto
  qed
  then have "samplesOf d fs = []"
    by (simp add: samplesOf_none)
  moreover have "\<forall>m\<in>set (deferred (state_of ?r) []). variableLabels (m_desc m) = []"
    by (simp add: deferred_def gaugeMetric_def counterMetric_def
          APIStats_Collect_state withValues_simps NewAPIStats_health NewDesc_def)
  then have "samplesOf d (deferred (state_of ?r) []) = []"
    using assms by (intro samplesOf_none) auto
  ultimately show ?thesis
    by (simp add: s samplesOf_append)
qed

lemma ClusterMetrics_no_scrape_health:
  assumes "variableLabels d = [''collector'']"
  shows "samplesOf d
           (sent_by (ClusterMetrics_Collect json got (withValues (NewClusterMetrics u) x n k))) = []"
proof -
  let ?a = "withValues (NewClusterMetrics u) x n k"
  let ?r = "ClusterMetrics_Collect json got ?a"
  obtain fs where s: "sent_by ?r = fs @ deferred (state_of ?r) []"
    and f: "\<forall>m\<in>set fs. m_desc m \<in> Desc ` set (metrics ?a)"
    by (rule ClusterMetrics_Collect_shape)
  have "m_desc m \<noteq> d" if "m \<in> set fs" for m
  proof -
    have "m_desc m \<in> Desc ` set (metrics (NewClusterMetrics u))"
      using f that by (simp add: withValues_simps)
    then have "variableLabels (m_desc m) = [''cluster'']"
      by (auto simp: NewClusterMetrics_def clusterGauge_simps)
    then show ?thesis
      using assms by auto
  qed
  then have "samplesOf d fs = []"
    by (simp add: samplesOf_none)
  moreover have "\<forall>m\<in>set (deferred (state_of ?r) []). variableLabels (m_desc m) = []"
    by (simp add: deferred_def gaugeMetric_def counterMetric_def
          ClusterMetrics_Collect_state withValues_simps NewClusterMetrics_health NewDesc_def)
  then have "samplesOf d (deferred (state_of ?r) []) = []"
    using assms by (intro samplesOf_none) auto
  ultimately show ?thesis
    by (simp add: s samplesOf_append)
qed

text \<open>
  Claim C1, as the code has it. When the aggregator's \<open>Collect\<close> returns, it has itself
  added to the stream exactly one scrape-duration sample and one scrape-success sample per
  entry of its \<open>Collectors\<close> map, whatever the entry's \<open>Update\<close> returned: the samples of
  either descriptor in the stream are these and those that the \<open>Update\<close> calls sent under
  the same descriptor, so that their number is the number of entries plus the number the
  \<open>Update\<close> calls sent. \<open>NewTypesenseCollector\<close> builds the aggregator with an empty map and
  nothing in the program adds to it, so its \<open>Collect\<close> returns at once with an empty
  stream. The two stat collectors that the program registers never send a sample of either
  scrape-health descriptor.
\<close>

theorem scrape_health_per_entry:
  assumes "TypesenseCollector_Collect clock sched e = Some (Inr s)"
  shows "mset (samplesOf scrapeDurationDesc (chan s)) =
           mset (map (\<lambda>nc. durationSample (fst nc) (clock (fst nc))) (Collectors e))
           + mset (samplesOf scrapeDurationDesc (updatesSent e))
       \<and> mset (samplesOf scrapeSuccessDesc (chan s)) =
           mset (map (\<lambda>nc. successSample (fst nc) (snd nc)) (Collectors e))
           + mset (samplesOf scrapeSuccessDesc (updatesSent e))
       \<and> length (samplesOf scrapeDurationDesc (chan s)) =
           length (Collectors e) + length (samplesOf scrapeDurationDesc (updatesSent e))
       \<and> length (samplesOf scrapeSuccessDesc (chan s)) =
           length (Collectors e) + length (samplesOf scrapeSuccessDesc (updatesSent e))
       \<and> Collectors NewTypesenseCollector = []
       \<and> TypesenseCollector_Collect clock' sched' NewTypesenseCollector
           = Some (Inr \<lparr>goroutines = [], wg = 0, chan = []\<rparr>)
       \<and> samplesOf scrapeDurationDesc
             (sent_by (APIStats_Collect json got (withValues (NewAPIStats u) x n k))) = []
       \<and> samplesOf scrapeSuccessDesc
             (sent_by (APIStats_Collect json got (withValues (NewAPIStats u) x n k))) = []
       \<and> samplesOf scrapeDurationDesc
             (sent_by (ClusterMetrics_Collect cjson cgot
                (withValues (NewClusterMetrics u) x n k))) = []
       \<and> samplesOf scrapeSuccessDesc
             (sent_by (ClusterMetrics_Collect cjson cgot
                (withValues (NewClusterMetrics u) x n k))) = []"
proof -
  note r = Collect_returned(3) [OF assms]
  have d: "mset (samplesOf scrapeDurationDesc (chan s)) =
      mset (map (\<lambda>nc. durationSample (fst nc) (clock (fst nc))) (Collectors e))
      + mset (samplesOf scrapeDurationDesc (updatesSent e))"
    using samplesOf_mset_eq [OF r, of scrapeDurationDesc]
    by (simp add: samplesOf_all_executed updatesSent_def)
  have c: "mset (samplesOf scrapeSuccessDesc (chan s)) =
      mset (map (\<lambda>nc. successSample (fst nc) (snd nc)) (Collectors e))
      + mset (samplesOf scrapeSuccessDesc (updatesSent e))"
    using samplesOf_mset_eq [OF r, of scrapeSuccessDesc]
    by (simp add: samplesOf_all_executed updatesSent_def)
  have "length (samplesOf scrapeDurationDesc (chan s)) =
      length (Collectors e) + length (samplesOf scrapeDurationDesc (updatesSent e))"
    using arg_cong [OF d, of size] by simp
  moreover have "length (samplesOf scrapeSuccessDesc (chan s)) =
      length (Collectors e) + length (samplesOf scrapeSuccessDesc (updatesSent e))"
    using arg_cong [OF c, of size] by simp
  moreover have "Collectors NewTypesenseCollector = []"
    by (simp add: NewTypesenseCollector_def)
  ultimately show ?thesis
    using d c
    by (simp add: Collect_nothing_registered APIStats_no_scrape_health
          ClusterMetrics_no_scrape_health scrape_descs_labels)
qed

text \<open>
  Witness for C1: an aggregator that had been given two collectors, the second of which
  sends a scrape-duration sample of its own, so that the stream holds three of them and
  two scrape-success samples; the aggregator that the constructor builds; and the two stat
  collectors after seven scrapes.
\<close>

theorem scrape_health_per_entry_witness:
  "TypesenseCollector_Collect quarterSecond [0, 1, 1, 0, 1, 0, 1] echoingCollectors
     = Some (Inr echoFinished)
   \<and> length (Collectors echoingCollectors) = 2
   \<and> updatesSent echoingCollectors = [durationSample ''api-stats'' 9]
   \<and> length (samplesOf scrapeDurationDesc (chan echoFinished)) = 3
   \<and> length (samplesOf scrapeSuccessDesc (chan echoFinished)) = 2
   \<and> Collectors NewTypesenseCollector = []
   \<and> TypesenseCollector_Collect quarterSecond [0, 1] NewTypesenseCollector
       = Some (Inr \<lparr>goroutines = [], wg = 0, chan = []\<rparr>)
   \<and> samplesOf scrapeDurationDesc
       (sent_by (APIStats_Collect (decodeAs searchAndDocuments) (Inr (response 200 ''{}''))
          (withValues (NewAPIStats localhost) 1 7 2))) = []
   \<and> samplesOf scrapeSuccessDesc
       (sent_by (APIStats_Collect (decodeAs searchAndDocuments) (Inr (response 200 ''{}''))
          (withValues (NewAPIStats localhost) 1 7 2))) = []
   \<and> samplesOf scrapeDurationDesc
       (sent_by (ClusterMetrics_Collect (decodeAs memoryActive) (Inr (response 200 ''{}''))
          (withValues (NewClusterMetrics localhost) 1 7 2))) = []
   \<and> samplesOf scrapeSuccessDesc
       (sent_by (ClusterMetrics_Collect (decodeAs memoryActive) (Inr (response 200 ''{}''))
          (withValues (NewClusterMetrics localhost) 1 7 2))) = []"
proof -
  have h1: "TypesenseCollector_Collect quarterSecond [0, 1, 1, 0, 1, 0, 1] echoingCollectors
     = Some (Inr echoFinished)"
    by (simp add: TypesenseCollector_Collect_def spawn_executed executed_def step_def
          echoingCollectors_def echoFinished_def quarterSecond_def failingCollector_def
          echoingCollector_def)
  have n: "length (Collectors echoingCollectors) = 2"
    "updatesSent echoingCollectors = [durationSample ''api-stats'' 9]"
    by (simp_all add: echoingCollectors_def updatesSent_def failingCollector_def
          echoingCollector_def)
  have s: "samplesOf scrapeDurationDesc [durationSample ''api-stats'' 9]
      = [durationSample ''api-stats'' 9]"
    "samplesOf scrapeSuccessDesc [durationSample ''api-stats'' 9] = []"
    using scrape_descs_differ by (simp_all add: samplesOf_def durationSample_def)
  show ?thesis
    using h1 n scrape_health_per_entry [OF h1, where clock' = quarterSecond
        and sched' = "[0, 1]" and json = "decodeAs searchAndDocuments"
        and got = "Inr (response 200 ''{}'')" and u = localhost and x = 1 and n = 7 and k = 2
        and cjson = "decodeAs memoryActive" and cgot = "Inr (response 200 ''{}'')"]
    by (simp add: s)
qed

text \<open>
  Claim C1 as the specification words it fails: the aggregator that the constructor builds
  has no collector registered, and a collection by it yields no scrape-health sample at
  all, not two of each.
\<close>

theorem scrape_health_counterexample:
  "TypesenseCollector_Collect quarterSecond [] NewTypesenseCollector
     = Some (Inr \<lparr>goroutines = [], wg = 0, chan = []\<rparr>)
   \<and> length (samplesOf scrapeDurationDesc (chan \<lparr>goroutines = [], wg = 0, chan = []\<rparr>)) = 0
   \<and> length (samplesOf scrapeSuccessDesc (chan \<lparr>goroutines = [], wg = 0, chan = []\<rparr>)) = 0
   \<and> length (samplesOf scrapeDurationDesc (chan \<lparr>goroutines = [], wg = 0, chan = []\<rparr>)) \<noteq> 2"
  by (simp add: TypesenseCollector_Collect_def NewTypesenseCollector_def samplesOf_def)

end
